(* ===== verification/Prelude.thy ===== *)
theory Prelude
  imports Main "HOL-Library.Word"
begin

text \<open>
  Shared vocabulary of the development: the machine integer types of the C and Go sources,
  little-endian byte encodings, slices of a byte buffer (the memory of a reserved ring-buffer
  record), and the generic facts about lists and maps the component theories rely on.
  The collection \<open>buf_simps\<close> normalises reads of a buffer after writes.
\<close>

section \<open>Machine types\<close>

type_synonym u8 = "8 word"
type_synonym u32 = "32 word"
type_synonym u64 = "64 word"

text \<open>A block of memory as the list of its bytes.\<close>

type_synonym bytes = "u8 list"

named_theorems buf_simps \<open>reads of a byte buffer after writes\<close>
named_theorems buf_len \<open>lengths of byte buffers after writes\<close>

section \<open>Little-endian integers\<close>

primrec le_bytes :: "nat \<Rightarrow> nat \<Rightarrow> bytes" where
  "le_bytes 0 v = []"
| "le_bytes (Suc n) v = of_nat (v mod 256) # le_bytes n (v div 256)"

primrec le_val :: "bytes \<Rightarrow> nat" where
  "le_val [] = 0"
| "le_val (b # bs) = unat b + 256 * le_val bs"

lemma length_le_bytes [simp, buf_len]: "length (le_bytes n v) = n"
  by (induction n arbitrary: v) simp_all

lemma unat_byte [simp]: "unat (of_nat (v mod 256) :: u8) = v mod 256"
  by (simp add: unat_of_nat)

lemma le_val_bound: "le_val bs < 256 ^ length bs"
proof (induction bs)
  case Nil
  then show ?case by simp
next
  case (Cons b bs)
  have "unat b < 2 ^ 8" using unsigned_less [of b] by simp
  then have "unat b < 256" by simp
  moreover from Cons.IH have "Suc (le_val bs) \<le> 256 ^ length bs" by simp
  then have "256 * Suc (le_val bs) \<le> 256 * 256 ^ length bs"
    by (rule mult_le_mono2)
  ultimately show ?case by simp
qed

lemma le_val_le_bytes: "le_val (le_bytes n v) = v mod 256 ^ n"
proof (induction n arbitrary: v)
  case 0
  then show ?case by simp
next
  case (Suc n)
  have "v mod 256 + 256 * (v div 256 mod 256 ^ n) = v mod (256 * 256 ^ n)"
    by (simp add: mod_mult2_eq)
  with Suc show ?case by simp
qed

lemma le_val_zeros [simp]: "le_val (replicate n 0) = 0"
  by (induction n) simp_all

lemma le_bytes_le_val: "le_bytes (length bs) (le_val bs) = bs"
proof (induction bs)
  case Nil
  then show ?case by simp
next
  case (Cons b bs)
  have "unat b < 2 ^ 8" using unsigned_less [of b] by simp
  then have b: "unat b < 256" by simp
  then have "(unat b + 256 * le_val bs) mod 256 = unat b"
    and "(unat b + 256 * le_val bs) div 256 = le_val bs"
    by simp_all
  with Cons b show ?case by simp
qed

section \<open>Slices of a buffer\<close>

definition bslice :: "nat \<Rightarrow> nat \<Rightarrow> 'a list \<Rightarrow> 'a list" where
  "bslice off n bs = take n (drop off bs)"

text \<open>
  Overwrites the bytes from \<open>off\<close> on. The buffer keeps its length: bytes that would fall outside
  are not written (the BPF verifier rejects a program with such a store).
\<close>

definition splice :: "nat \<Rightarrow> 'a list \<Rightarrow> 'a list \<Rightarrow> 'a list" where
  "splice off new bs =
     map (\<lambda>i. if off \<le> i \<and> i < off + length new then new ! (i - off) else bs ! i) [0..<length bs]"

lemma length_bslice [buf_len]: "off + n \<le> length bs \<Longrightarrow> length (bslice off n bs) = n"
  by (simp add: bslice_def)

lemma length_splice [simp, buf_len]: "length (splice off new bs) = length bs"
  by (simp add: splice_def)

lemma nth_splice:
  "i < length bs \<Longrightarrow> splice off new bs ! i =
    (if off \<le> i \<and> i < off + length new then new ! (i - off) else bs ! i)"
  by (simp add: splice_def)

lemma nth_bslice: "i < n \<Longrightarrow> off + i < length bs \<Longrightarrow> bslice off n bs ! i = bs ! (off + i)"
  by (simp add: bslice_def)

lemma bslice_splice_same:
  "n = length new \<Longrightarrow> off + n \<le> length bs \<Longrightarrow> bslice off n (splice off new bs) = new"
  by (rule nth_equalityI) (simp_all add: length_bslice nth_bslice nth_splice)

lemma bslice_splice_disjoint:
  assumes "off + n \<le> off' \<or> off' + length new \<le> off"
  shows "bslice off n (splice off' new bs) = bslice off n bs"
proof (rule nth_equalityI)
  show "length (bslice off n (splice off' new bs)) = length (bslice off n bs)"
    by (simp add: bslice_def)
next
  fix i assume "i < length (bslice off n (splice off' new bs))"
  then have "i < length bs - off" and "i < n" by (simp_all add: bslice_def)
  then have "i < n" and "off + i < length bs" by linarith+
  with assms show "bslice off n (splice off' new bs) ! i = bslice off n bs ! i"
    by (auto simp: nth_bslice nth_splice)
qed

section \<open>Typed loads and stores\<close>

definition put_u8 :: "nat \<Rightarrow> u8 \<Rightarrow> bytes \<Rightarrow> bytes" where
  "put_u8 off v bs = splice off [v] bs"

definition put_u32 :: "nat \<Rightarrow> u32 \<Rightarrow> bytes \<Rightarrow> bytes" where
  "put_u32 off v bs = splice off (le_bytes 4 (unat v)) bs"

definition put_u64 :: "nat \<Rightarrow> u64 \<Rightarrow> bytes \<Rightarrow> bytes" where
  "put_u64 off v bs = splice off (le_bytes 8 (unat v)) bs"

definition put_bytes :: "nat \<Rightarrow> bytes \<Rightarrow> bytes \<Rightarrow> bytes" where
  "put_bytes off v bs = splice off v bs"

definition u8_at :: "nat \<Rightarrow> bytes \<Rightarrow> u8" where
  "u8_at off bs = of_nat (le_val (bslice off 1 bs))"

definition u32_at :: "nat \<Rightarrow> bytes \<Rightarrow> u32" where
  "u32_at off bs = of_nat (le_val (bslice off 4 bs))"

definition u64_at :: "nat \<Rightarrow> bytes \<Rightarrow> u64" where
  "u64_at off bs = of_nat (le_val (bslice off 8 bs))"

lemmas put_defs = put_u8_def put_u32_def put_u64_def put_bytes_def
lemmas at_defs = u8_at_def u32_at_def u64_at_def

lemma length_put [simp, buf_len]:
  "length (put_u8 off v8 bs) = length bs"
  "length (put_u32 off v32 bs) = length bs"
  "length (put_u64 off v64 bs) = length bs"
  "length (put_bytes off vs bs) = length bs"
  by (simp_all add: put_defs)

lemma le_val_u32 [simp]: "le_val (le_bytes 4 (unat (v::u32))) = unat v"
proof -
  have "unat v < 2 ^ 32" using unsigned_less [of v] by simp
  then show ?thesis by (simp add: le_val_le_bytes)
qed

lemma le_val_u64 [simp]: "le_val (le_bytes 8 (unat (v::u64))) = unat v"
proof -
  have "unat v < 2 ^ 64" using unsigned_less [of v] by simp
  then show ?thesis by (simp add: le_val_le_bytes)
qed

lemma at_put_same [buf_simps]:
  "off + 1 \<le> length bs \<Longrightarrow> u8_at off (put_u8 off v8 bs) = v8"
  "off + 4 \<le> length bs \<Longrightarrow> u32_at off (put_u32 off v32 bs) = v32"
  "off + 8 \<le> length bs \<Longrightarrow> u64_at off (put_u64 off v64 bs) = v64"
  "n = length vs \<Longrightarrow> off + n \<le> length bs \<Longrightarrow> bslice off n (put_bytes off vs bs) = vs"
  by (simp_all add: put_defs at_defs bslice_splice_same)

lemma bslice_put_disjoint [buf_simps]:
  "off + n \<le> o' \<or> o' + 1 \<le> off \<Longrightarrow>
    bslice off n (put_u8 o' v8 bs) = bslice off n bs"
  "off + n \<le> o' \<or> o' + 4 \<le> off \<Longrightarrow>
    bslice off n (put_u32 o' v32 bs) = bslice off n bs"
  "off + n \<le> o' \<or> o' + 8 \<le> off \<Longrightarrow>
    bslice off n (put_u64 o' v64 bs) = bslice off n bs"
  "off + n \<le> o' \<or> o' + length vs \<le> off \<Longrightarrow>
    bslice off n (put_bytes o' vs bs) = bslice off n bs"
  by (simp_all add: put_defs bslice_splice_disjoint)

lemma u8_at_put_disjoint [buf_simps]:
  "off + 1 \<le> o' \<or> o' + 1 \<le> off \<Longrightarrow>
    u8_at off (put_u8 o' v8 bs) = u8_at off bs"
  "off + 1 \<le> o' \<or> o' + 4 \<le> off \<Longrightarrow>
    u8_at off (put_u32 o' v32 bs) = u8_at off bs"
  "off + 1 \<le> o' \<or> o' + 8 \<le> off \<Longrightarrow>
    u8_at off (put_u64 o' v64 bs) = u8_at off bs"
  "off + 1 \<le> o' \<or> o' + length vs \<le> off \<Longrightarrow>
    u8_at off (put_bytes o' vs bs) = u8_at off bs"
  by (simp_all only: u8_at_def bslice_put_disjoint)

lemma u32_at_put_disjoint [buf_simps]:
  "off + 4 \<le> o' \<or> o' + 1 \<le> off \<Longrightarrow>
    u32_at off (put_u8 o' v8 bs) = u32_at off bs"
  "off + 4 \<le> o' \<or> o' + 4 \<le> off \<Longrightarrow>
    u32_at off (put_u32 o' v32 bs) = u32_at off bs"
  "off + 4 \<le> o' \<or> o' + 8 \<le> off \<Longrightarrow>
    u32_at off (put_u64 o' v64 bs) = u32_at off bs"
  "off + 4 \<le> o' \<or> o' + length vs \<le> off \<Longrightarrow>
    u32_at off (put_bytes o' vs bs) = u32_at off bs"
  by (simp_all only: u32_at_def bslice_put_disjoint)

lemma u64_at_put_disjoint [buf_simps]:
  "off + 8 \<le> o' \<or> o' + 1 \<le> off \<Longrightarrow>
    u64_at off (put_u8 o' v8 bs) = u64_at off bs"
  "off + 8 \<le> o' \<or> o' + 4 \<le> off \<Longrightarrow>
    u64_at off (put_u32 o' v32 bs) = u64_at off bs"
  "off + 8 \<le> o' \<or> o' + 8 \<le> off \<Longrightarrow>
    u64_at off (put_u64 o' v64 bs) = u64_at off bs"
  "off + 8 \<le> o' \<or> o' + length vs \<le> off \<Longrightarrow>
    u64_at off (put_bytes o' vs bs) = u64_at off bs"
  by (simp_all only: u64_at_def bslice_put_disjoint)

section \<open>Words, maps and lists\<close>

lemma unat_add_u64: "unat a + unat b < 2 ^ 64 \<Longrightarrow> unat (a + b) = unat a + unat (b :: u64)"
  by (simp add: unat_word_ariths)

lemma sum_list_update_word:
  fixes xs :: "('a::len) word list"
  shows "i < length xs \<Longrightarrow> sum_list (xs[i := x]) = sum_list xs - xs ! i + x"
  by (induction xs arbitrary: i) (auto split: nat.splits)

lemma unat_ucast_u32: "unat (ucast (x :: u64) :: u32) = unat x mod 2 ^ 32"
  by (simp add: unsigned_ucast_eq take_bit_eq_mod)

lemma unat_ucast_u64: "unat (ucast (x :: u32) :: u64) = unat x"
proof -
  have "unat x < 2 ^ 32" using unsigned_less [of x] by simp
  then show ?thesis by (simp add: unsigned_ucast_eq take_bit_eq_mod)
qed

lemma ucast_u32_mult: "(ucast (x * y :: u64) :: u32) = ucast x * ucast y"
proof -
  have d: "(2 :: nat) ^ 32 dvd 2 ^ 64" by (rule le_imp_power_dvd) simp
  have "unat (ucast (x * y) :: u32) = unat x * unat y mod 2 ^ 64 mod 2 ^ 32"
    by (simp add: unat_ucast_u32 unat_word_ariths)
  also have "\<dots> = unat x * unat y mod 2 ^ 32" using d by (rule mod_mod_cancel)
  also have "\<dots> = unat (ucast x * ucast y :: u32)"
    by (simp add: unat_word_ariths unat_ucast_u32 mod_mult_eq)
  finally show ?thesis by (simp add: word_unat_eq_iff)
qed

text \<open>A sum over the components of a state after an update of one of them.\<close>

lemma sum_upd:
  fixes g :: "'a \<Rightarrow> 'b \<Rightarrow> nat"
  assumes "finite A" and "x \<in> A"
  shows "(\<Sum>y\<in>A. g y ((f(x := v)) y)) + g x (f x) = (\<Sum>y\<in>A. g y (f y)) + g x v"
proof -
  have "(\<Sum>y\<in>A. g y ((f(x := v)) y)) = g x v + (\<Sum>y\<in>A - {x}. g y (f y))"
    using assms by (subst sum.remove [of A x]) (auto intro: sum.cong)
  moreover have "(\<Sum>y\<in>A. g y (f y)) = g x (f x) + (\<Sum>y\<in>A - {x}. g y (f y))"
    using assms by (subst sum.remove [of A x]) auto
  ultimately show ?thesis by simp
qed

lemma map_upd_other [simp]: "k \<noteq> k' \<Longrightarrow> (m(k \<mapsto> v)) k' = m k'"
  by simp

section \<open>Machines\<close>

text \<open>
  A concurrent component is a function from an action and a state to the next state, where the action is
  possible; an execution is a list of actions, one after the other.
\<close>

inductive step_runs :: "('a \<Rightarrow> 's \<Rightarrow> 's option) \<Rightarrow> 's \<Rightarrow> 'a list \<Rightarrow> 's \<Rightarrow> bool" for f s where
  start: "step_runs f s [] s"
| step: "step_runs f s as s1 \<Longrightarrow> f a s1 = Some s2 \<Longrightarrow> step_runs f s (as @ [a]) s2"

inductive_cases step_runs_Nil: "step_runs f s [] s'"
inductive_cases step_runs_snoc: "step_runs f s (as @ [a]) s'"

fun step_exec :: "('a \<Rightarrow> 's \<Rightarrow> 's option) \<Rightarrow> 'a list \<Rightarrow> 's \<Rightarrow> 's option" where
  "step_exec f [] s = Some s"
| "step_exec f (a # as) s = Option.bind (f a s) (step_exec f as)"

lemma step_exec_append: "step_exec f (as @ bs) s = Option.bind (step_exec f as s) (step_exec f bs)"
  by (induction as arbitrary: s) (auto split: bind_splits)

lemma step_exec_iff: "step_exec f as s = Some s' \<longleftrightarrow> step_runs f s as s'"
proof (induction as arbitrary: s' rule: rev_induct)
  case Nil
  then show ?case by (auto intro: step_runs.start elim: step_runs_Nil)
next
  case (snoc a as)
  show ?case
  proof
    assume "step_exec f (as @ [a]) s = Some s'"
    then show "step_runs f s (as @ [a]) s'"
      by (auto simp: step_exec_append snoc.IH split: bind_splits intro: step_runs.step)
  next
    assume "step_runs f s (as @ [a]) s'"
    then obtain s1 where "step_exec f as s = Some s1" "f a s1 = Some s'"
      by (auto simp: snoc.IH elim: step_runs_snoc)
    then show "step_exec f (as @ [a]) s = Some s'" by (simp add: step_exec_append)
  qed
qed

lemmas step_exec_runs = step_exec_iff [THEN iffD1]

lemma step_runs_append: "step_runs f s1 bs s2 \<Longrightarrow> step_runs f s as s1 \<Longrightarrow> step_runs f s (as @ bs) s2"
  by (simp add: step_exec_append flip: step_exec_iff)

text \<open>What every action keeps, every execution keeps.\<close>

locale step_invariant =
  fixes f :: "'a \<Rightarrow> 's \<Rightarrow> 's option" and inv :: "'s \<Rightarrow> bool"
  assumes step_keeps: "f a s = Some s' \<Longrightarrow> inv s \<Longrightarrow> inv s'"
begin

lemma runs_keep: "step_runs f s as s' \<Longrightarrow> inv s \<Longrightarrow> inv s'"
  by (induction rule: step_runs.induct) (auto intro: step_keeps)

end

end
