(* ===== verification/C_Layout.thy ===== *)
theory C_Layout
  imports Prelude
begin

text \<open>
  The layout of C objects on the target (x86-64 System V, little endian), as the compiler of
  \<open>gpuprint.bpf.c\<close> lays them out: sizes, alignments, bit-fields and byte offsets of members.
  Types are values of \<open>ctype\<close>; a struct of the sources is a definition of that type (theories
  Event_Types and the Kernel_Types files), and \<open>offsetof\<close> computes the constant the source writes as
  \<open>e->pid\<close> or \<open>BPF_CORE_READ(task, files, fdt)\<close>.
  The lemmas show that the members of a struct are aligned, disjoint, in declaration order and inside
  the object.
\<close>

section \<open>Types\<close>

text \<open>
  \<open>Scalar n\<close> is an integer or enum of \<open>n\<close> bytes, \<open>Ptr s\<close> a pointer to
  \<open>s\<close>. A bit-field keeps the size of its declared base type and its width; an unnamed one
  (bpftool writes \<open>long: 64;\<close> for padding) has the empty name.
\<close>

datatype ctype =
    Scalar nat
  | Ptr string
  | Arr ctype nat
  | Struct "member list"
  | Union "member list"
and member =
    Member string ctype
  | Bits string nat nat

definition align_up :: "nat \<Rightarrow> nat \<Rightarrow> nat" where
  "align_up a n = (n + a - 1) div a * a"

definition bytes_of_bits :: "nat \<Rightarrow> nat" where
  "bytes_of_bits n = (n + 7) div 8"

fun max_list :: "nat list \<Rightarrow> nat" where
  "max_list [] = 0"
| "max_list (x # xs) = max x (max_list xs)"

fun alignof :: "ctype \<Rightarrow> nat" and member_align :: "member \<Rightarrow> nat" where
  "alignof (Scalar n) = n"
| "alignof (Ptr _) = 8"
| "alignof (Arr t _) = alignof t"
| "alignof (Struct ms) = max 1 (max_list (map member_align ms))"
| "alignof (Union ms) = max 1 (max_list (map member_align ms))"
| "member_align (Member _ t) = alignof t"
| "member_align (Bits nm b _) = (if nm = [] then 1 else b)"

text \<open>Where a member starts when the bits before \<open>p\<close> are taken, given its alignment.\<close>

fun start_of :: "member \<Rightarrow> nat \<Rightarrow> nat" where
  "start_of (Member _ t) p = align_up (8 * alignof t) p"
| "start_of (Bits _ b w) p =
     (if w = 0 \<or> p mod (8 * b) + w > 8 * b then align_up (8 * b) p else p)"

fun sizeof :: "ctype \<Rightarrow> nat" and member_bits :: "member \<Rightarrow> nat" where
  "sizeof (Scalar n) = n"
| "sizeof (Ptr _) = 8"
| "sizeof (Arr t k) = k * sizeof t"
| "sizeof (Struct ms) =
     align_up (alignof (Struct ms))
       (bytes_of_bits (fold (\<lambda>m p. start_of m p + member_bits m) ms 0))"
| "sizeof (Union ms) =
     align_up (alignof (Union ms)) (bytes_of_bits (max_list (map member_bits ms)))"
| "member_bits (Member _ t) = 8 * sizeof t"
| "member_bits (Bits _ _ w) = w"

text \<open>The extents (first bit, first bit after) of the members of a struct, in order.\<close>

fun extents :: "member list \<Rightarrow> nat \<Rightarrow> (nat \<times> nat) list" where
  "extents [] p = []"
| "extents (m # ms) p =
     (let s = start_of m p; e = s + member_bits m in (s, e) # extents ms e)"

text \<open>
  The bit offset of a named member; a member of an anonymous struct or union counts as a member of
  the enclosing one.
\<close>

fun bit_offset :: "ctype \<Rightarrow> string \<Rightarrow> nat option"
  and struct_offset :: "member list \<Rightarrow> string \<Rightarrow> nat \<Rightarrow> nat option"
  and union_offset :: "member list \<Rightarrow> string \<Rightarrow> nat option" where
  "bit_offset (Struct ms) f = struct_offset ms f 0"
| "bit_offset (Union ms) f = union_offset ms f"
| "bit_offset (Scalar n) f = None"
| "bit_offset (Ptr s) f = None"
| "bit_offset (Arr t k) f = None"
| "struct_offset [] f p = None"
| "struct_offset (Member nm t # ms) f p =
     (let s = align_up (8 * alignof t) p in
      if nm = f then Some s
      else case (if nm = [] then bit_offset t f else None) of
             Some off \<Rightarrow> Some (s + off)
           | None \<Rightarrow> struct_offset ms f (s + 8 * sizeof t))"
| "struct_offset (Bits nm b w # ms) f p =
     (let s = start_of (Bits nm b w) p in
      if nm = f \<and> nm \<noteq> [] then Some s else struct_offset ms f (s + w))"
| "union_offset [] f = None"
| "union_offset (Member nm t # ms) f =
     (if nm = f then Some 0
      else case (if nm = [] then bit_offset t f else None) of
             Some off \<Rightarrow> Some off
           | None \<Rightarrow> union_offset ms f)"
| "union_offset (Bits nm b w # ms) f =
     (if nm = f \<and> nm \<noteq> [] then Some 0 else union_offset ms f)"

definition offsetof :: "ctype \<Rightarrow> string \<Rightarrow> nat" where
  "offsetof t f = (case bit_offset t f of Some p \<Rightarrow> p div 8 | None \<Rightarrow> 0)"

section \<open>Properties of layouts\<close>

lemma align_up_ge: "0 < a \<Longrightarrow> n \<le> align_up a n"
proof -
  assume a: "0 < a"
  have "n + a - 1 = (n + a - 1) div a * a + (n + a - 1) mod a" by simp
  moreover have "(n + a - 1) mod a \<le> a - 1" using a mod_less_divisor [of a "n + a - 1"] by linarith
  ultimately show ?thesis unfolding align_up_def using a by linarith
qed

lemma align_up_dvd: "a dvd align_up a n"
  by (simp add: align_up_def)

lemma align_up_less: "0 < a \<Longrightarrow> align_up a n < n + a"
proof -
  assume a: "0 < a"
  have "align_up a n \<le> n + a - 1" unfolding align_up_def by simp
  with a show ?thesis by linarith
qed

lemma bytes_of_bits_ge: "n \<le> 8 * bytes_of_bits n"
  unfolding bytes_of_bits_def by presburger

lemma max_list_ge: "x \<in> set xs \<Longrightarrow> x \<le> max_list xs"
  by (induction xs) auto

text \<open>Well-formed types: every scalar has a positive size.\<close>

fun wf_type :: "ctype \<Rightarrow> bool" and wf_member :: "member \<Rightarrow> bool" where
  "wf_type (Scalar n) = (0 < n)"
| "wf_type (Ptr _) = True"
| "wf_type (Arr t _) = wf_type t"
| "wf_type (Struct ms) = list_all wf_member ms"
| "wf_type (Union ms) = list_all wf_member ms"
| "wf_member (Member _ t) = wf_type t"
| "wf_member (Bits _ b w) = (0 < b \<and> w \<le> 8 * b)"

lemma alignof_pos: "wf_type t \<Longrightarrow> 0 < alignof t"
  by (induction t rule: wf_type_wf_member.induct(1) [where Q = "\<lambda>_. True"]) auto

lemma start_of_ge: "wf_member m \<Longrightarrow> p \<le> start_of m p"
  by (cases m) (auto intro: align_up_ge simp: alignof_pos)

lemma start_of_aligned: "8 * alignof t dvd start_of (Member nm t) p"
  by (simp add: align_up_dvd)

text \<open>A bit-field never crosses the boundary of its base type.\<close>

lemma start_of_bits_inside:
  assumes "0 < b" "w \<le> 8 * b"
  shows "start_of (Bits nm b w) p mod (8 * b) + w \<le> 8 * b"
proof (cases "w = 0 \<or> p mod (8 * b) + w > 8 * b")
  case True
  then have "start_of (Bits nm b w) p = align_up (8 * b) p" by simp
  moreover have "align_up (8 * b) p mod (8 * b) = 0"
    using align_up_dvd [of "8 * b" p] by (simp only: dvd_eq_mod_eq_0)
  ultimately show ?thesis using assms by simp
next
  case False
  then show ?thesis by simp
qed

lemma length_extents [simp]: "length (extents ms p) = length ms"
  by (induction ms arbitrary: p) (simp_all add: Let_def)

lemma extents_start_ge:
  "list_all wf_member ms \<Longrightarrow> x \<in> set (extents ms p) \<Longrightarrow> p \<le> fst x \<and> fst x \<le> snd x"
proof (induction ms arbitrary: p)
  case Nil
  then show ?case by simp
next
  case (Cons m ms)
  let ?e = "start_of m p + member_bits m"
  from Cons.prems have s: "p \<le> start_of m p" by (simp add: start_of_ge)
  from Cons.prems(2) consider "x = (start_of m p, ?e)" | "x \<in> set (extents ms ?e)"
    by (auto simp: Let_def)
  then show ?case
  proof cases
    case 1
    with s show ?thesis by simp
  next
    case 2
    with Cons.IH [of ?e] Cons.prems(1) have "?e \<le> fst x \<and> fst x \<le> snd x" by simp
    with s show ?thesis by linarith
  qed
qed

text \<open>Members occupy disjoint extents, in the order of their declaration.\<close>

lemma extents_ordered:
  "list_all wf_member ms \<Longrightarrow> sorted_wrt (\<lambda>x y. snd x \<le> fst y) (extents ms p)"
proof (induction ms arbitrary: p)
  case Nil
  then show ?case by simp
next
  case (Cons m ms)
  then show ?case by (auto simp: Let_def dest: extents_start_ge)
qed

lemma extents_end_le:
  "list_all wf_member ms \<Longrightarrow> p \<le> fold (\<lambda>m p. start_of m p + member_bits m) ms p \<and>
    (\<forall>x \<in> set (extents ms p). snd x \<le> fold (\<lambda>m p. start_of m p + member_bits m) ms p)"
proof (induction ms arbitrary: p)
  case Nil
  then show ?case by simp
next
  case (Cons m ms)
  from Cons.prems have s: "p \<le> start_of m p" by (simp add: start_of_ge)
  with Cons.IH [of "start_of m p + member_bits m"] Cons.prems show ?case
    by (auto simp: Let_def)
qed

text \<open>Every member lies inside the struct, whose size is a multiple of its alignment.\<close>

lemma struct_size_covers:
  assumes "list_all wf_member ms"
  shows "fold (\<lambda>m p. start_of m p + member_bits m) ms 0 \<le> 8 * sizeof (Struct ms)"
proof -
  have "0 < alignof (Struct ms)" by simp
  then have "bytes_of_bits (fold (\<lambda>m p. start_of m p + member_bits m) ms 0) \<le> sizeof (Struct ms)"
    unfolding sizeof.simps by (rule align_up_ge)
  with bytes_of_bits_ge show ?thesis by (meson le_trans mult_le_mono2)
qed

lemma extents_inside:
  "list_all wf_member ms \<Longrightarrow> x \<in> set (extents ms 0) \<Longrightarrow> snd x \<le> 8 * sizeof (Struct ms)"
  using extents_end_le [of ms 0] struct_size_covers [of ms] by fastforce

lemma struct_size_dvd: "alignof (Struct ms) dvd sizeof (Struct ms)"
  by (simp only: sizeof.simps align_up_dvd)

section \<open>Properties\<close>

text \<open>
  In a struct of well-formed members, a member declared earlier ends before a later one starts,
  and both lie inside the object, whose size is a multiple of its alignment.
\<close>

lemma members_disjoint_inside:
  assumes "list_all wf_member ms" and "i < j" and "j < length ms"
  shows "snd (extents ms 0 ! i) \<le> fst (extents ms 0 ! j) \<and>
    fst (extents ms 0 ! i) \<le> snd (extents ms 0 ! i) \<and>
    snd (extents ms 0 ! j) \<le> 8 * sizeof (Struct ms) \<and> alignof (Struct ms) dvd sizeof (Struct ms)"
proof -
  have "extents ms 0 ! i \<in> set (extents ms 0)" "extents ms 0 ! j \<in> set (extents ms 0)"
    using assms by simp_all
  then show ?thesis
    using sorted_wrt_nth_less [OF extents_ordered [OF assms(1)] assms(2), of 0] assms(3)
      extents_start_ge [OF assms(1), of "extents ms 0 ! i" 0]
      extents_inside [OF assms(1), of "extents ms 0 ! j"] struct_size_dvd [of ms]
    by (simp del: sizeof.simps alignof.simps)
qed

lemma members_disjoint_inside_witness:
  "snd (extents [Member ''a'' (Scalar 1), Bits ''b'' 4 3, Member ''c'' (Scalar 8)] 0 ! 1) \<le> 64"
  using members_disjoint_inside [of "[Member ''a'' (Scalar 1), Bits ''b'' 4 3, Member ''c'' (Scalar 8)]" 1 2]
  by (simp add: Let_def align_up_def)

end
