(* ===== verification/Event_Types.thy ===== *)
theory Event_Types
  imports C_Layout
begin

text \<open>
  The constants of \<open>bpf/headers/common.h\<close> and the struct types of
  \<open>bpf/cuda/gpuprint/gpuprint.bpf.c\<close>: the four ring-buffer records and the value of the
  watchdog map, with their layouts evaluated once (collection \<open>event_layout\<close>).
\<close>

section \<open>Constants of common.h\<close>

definition TASK_COMM_SIZE :: nat where "TASK_COMM_SIZE = 150"

definition EVENT_GPU_KERNEL_LAUNCH :: u8 where "EVENT_GPU_KERNEL_LAUNCH = 1"
definition EVENT_GPU_MALLOC :: u8 where "EVENT_GPU_MALLOC = 2"
definition EVENT_GPU_MEMCPY :: u8 where "EVENT_GPU_MEMCPY = 3"
definition EVENT_GPU_STREAM_SYNC :: u8 where "EVENT_GPU_STREAM_SYNC = 4"

definition DIR_HTOD :: u8 where "DIR_HTOD = 0"
definition DIR_DTOH :: u8 where "DIR_DTOH = 1"

definition IOCTL_HIT :: u32 where "IOCTL_HIT = 20"
definition UPROBE_HIT :: u32 where "UPROBE_HIT = 10"

definition NVIDIA_MAJOR :: u32 where "NVIDIA_MAJOR = 195"
definition NVIDIA_UVM_MAJOR :: u32 where "NVIDIA_UVM_MAJOR = 511"
definition NVIDIA_MODESET_MINOR :: u32 where "NVIDIA_MODESET_MINOR = 254"

lemmas event_consts =
  EVENT_GPU_KERNEL_LAUNCH_def EVENT_GPU_MALLOC_def EVENT_GPU_MEMCPY_def EVENT_GPU_STREAM_SYNC_def
  DIR_HTOD_def DIR_DTOH_def

section \<open>Types of cuda\_types.h\<close>

definition cudaStream_t :: ctype where "cudaStream_t = Scalar 8"

definition struct_dim3 :: ctype where
  "struct_dim3 = Struct [Member ''x'' (Scalar 4), Member ''y'' (Scalar 4), Member ''z'' (Scalar 4)]"

section \<open>Record types\<close>

abbreviation c_u8 :: ctype where "c_u8 \<equiv> Scalar 1"
abbreviation c_u32 :: ctype where "c_u32 \<equiv> Scalar 4"
abbreviation c_u64 :: ctype where "c_u64 \<equiv> Scalar 8"
abbreviation c_size_t :: ctype where "c_size_t \<equiv> Scalar 8"

definition gpu_kernel_launch_event_t :: ctype where
  "gpu_kernel_launch_event_t = Struct
    [Member ''flag'' c_u8, Member ''_pad'' (Arr c_u8 3),
     Member ''pid'' c_u32, Member ''comm'' (Arr c_u8 TASK_COMM_SIZE),
     Member ''gridx'' c_u32, Member ''gridy'' c_u32, Member ''gridz'' c_u32,
     Member ''blockx'' c_u32, Member ''blocky'' c_u32, Member ''blockz'' c_u32,
     Member ''total_blocks'' c_u64, Member ''threads_block'' c_u64,
     Member ''total_threads'' c_u64]"

definition gpu_memalloc_event_t :: ctype where
  "gpu_memalloc_event_t = Struct
    [Member ''flag'' c_u8, Member ''_pad'' (Arr c_u8 3),
     Member ''pid'' c_u32, Member ''comm'' (Arr c_u8 TASK_COMM_SIZE),
     Member ''byte_size'' c_size_t]"

definition gpu_memcpy_event_t :: ctype where
  "gpu_memcpy_event_t = Struct
    [Member ''flag'' c_u8, Member ''_pad'' (Arr c_u8 3),
     Member ''pid'' c_u32, Member ''comm'' (Arr c_u8 TASK_COMM_SIZE),
     Member ''byte_size'' c_size_t, Member ''kind'' c_u8]"

definition gpu_stream_event_t :: ctype where
  "gpu_stream_event_t = Struct
    [Member ''flag'' c_u8, Member ''_pad'' (Arr c_u8 3),
     Member ''pid'' c_u32, Member ''comm'' (Arr c_u8 TASK_COMM_SIZE),
     Member ''start_time'' c_u64, Member ''end_time'' c_u64, Member ''delta_ns'' c_u64]"

text \<open>
  The watchdog value is read and written field by field through map pointers, never as raw bytes on
  the C side; it is also given as a record.
\<close>

definition ioctl_watchdog_event_ctype :: ctype where
  "ioctl_watchdog_event_ctype = Struct
    [Member ''ioctl_hit_count'' c_u64, Member ''uprobe_hit_count'' c_u64,
     Member ''first_seen_time'' c_u64]"

record ioctl_watchdog_event_t =
  ioctl_hit_count :: u64
  uprobe_hit_count :: u64
  first_seen_time :: u64

text \<open>All-zero memory read as a watchdog value.\<close>

definition zero_watchdog :: ioctl_watchdog_event_t where
  "zero_watchdog = \<lparr>ioctl_hit_count = 0, uprobe_hit_count = 0, first_seen_time = 0\<rparr>"

section \<open>Evaluated layouts\<close>

named_theorems event_layout \<open>sizes and member offsets of the event records\<close>

lemmas layout_eval =
  offsetof_def align_up_def bytes_of_bits_def Let_def TASK_COMM_SIZE_def

lemma launch_layout [event_layout]:
  "sizeof gpu_kernel_launch_event_t = 208"
  "offsetof gpu_kernel_launch_event_t ''flag'' = 0"
  "offsetof gpu_kernel_launch_event_t ''_pad'' = 1"
  "offsetof gpu_kernel_launch_event_t ''pid'' = 4"
  "offsetof gpu_kernel_launch_event_t ''comm'' = 8"
  "offsetof gpu_kernel_launch_event_t ''gridx'' = 160"
  "offsetof gpu_kernel_launch_event_t ''gridy'' = 164"
  "offsetof gpu_kernel_launch_event_t ''gridz'' = 168"
  "offsetof gpu_kernel_launch_event_t ''blockx'' = 172"
  "offsetof gpu_kernel_launch_event_t ''blocky'' = 176"
  "offsetof gpu_kernel_launch_event_t ''blockz'' = 180"
  "offsetof gpu_kernel_launch_event_t ''total_blocks'' = 184"
  "offsetof gpu_kernel_launch_event_t ''threads_block'' = 192"
  "offsetof gpu_kernel_launch_event_t ''total_threads'' = 200"
  by (simp_all add: gpu_kernel_launch_event_t_def layout_eval)

lemma memalloc_layout [event_layout]:
  "sizeof gpu_memalloc_event_t = 168"
  "offsetof gpu_memalloc_event_t ''flag'' = 0"
  "offsetof gpu_memalloc_event_t ''_pad'' = 1"
  "offsetof gpu_memalloc_event_t ''pid'' = 4"
  "offsetof gpu_memalloc_event_t ''comm'' = 8"
  "offsetof gpu_memalloc_event_t ''byte_size'' = 160"
  by (simp_all add: gpu_memalloc_event_t_def layout_eval)

lemma memcpy_layout [event_layout]:
  "sizeof gpu_memcpy_event_t = 176"
  "offsetof gpu_memcpy_event_t ''flag'' = 0"
  "offsetof gpu_memcpy_event_t ''_pad'' = 1"
  "offsetof gpu_memcpy_event_t ''pid'' = 4"
  "offsetof gpu_memcpy_event_t ''comm'' = 8"
  "offsetof gpu_memcpy_event_t ''byte_size'' = 160"
  "offsetof gpu_memcpy_event_t ''kind'' = 168"
  by (simp_all add: gpu_memcpy_event_t_def layout_eval)

lemma stream_layout [event_layout]:
  "sizeof gpu_stream_event_t = 184"
  "offsetof gpu_stream_event_t ''flag'' = 0"
  "offsetof gpu_stream_event_t ''_pad'' = 1"
  "offsetof gpu_stream_event_t ''pid'' = 4"
  "offsetof gpu_stream_event_t ''comm'' = 8"
  "offsetof gpu_stream_event_t ''start_time'' = 160"
  "offsetof gpu_stream_event_t ''end_time'' = 168"
  "offsetof gpu_stream_event_t ''delta_ns'' = 176"
  by (simp_all add: gpu_stream_event_t_def layout_eval)

lemma watchdog_layout [event_layout]:
  "sizeof ioctl_watchdog_event_ctype = 24"
  "offsetof ioctl_watchdog_event_ctype ''ioctl_hit_count'' = 0"
  "offsetof ioctl_watchdog_event_ctype ''uprobe_hit_count'' = 8"
  "offsetof ioctl_watchdog_event_ctype ''first_seen_time'' = 16"
  by (simp_all add: ioctl_watchdog_event_ctype_def layout_eval)

end
