(* ===== verification/Bpf_Runtime.thy ===== *)
theory Bpf_Runtime
  imports Event_Types "HOL-Library.AList"
begin

text \<open>
  The interface of the probes to the kernel. The BPF helpers are not part of the repository, so
  every probe takes them as an argument: a record \<open>'k bpf\<close> of functions over an unknown kernel state
  \<open>'k\<close>. What the probes rely on is the locale \<open>bpf_runtime\<close>: the documented effect of each
  helper on the parts of the kernel the program declares (its three maps, and the clock), seen through an
  abstraction function into \<open>kview\<close>. Nothing is assumed about when a helper fails.
  \<open>reference_kernel\<close> is one kernel that meets the contract (with the capacities of the map
  declarations); it shows that the assumptions can hold, and witnesses run on it.
\<close>

section \<open>The helpers\<close>

text \<open>Flags of \<open>bpf_map_update_elem\<close> the program uses.\<close>

datatype update_flag = BPF_ANY | BPF_NOEXIST

text \<open>
  A pointer returned by a lookup in the per-CPU map is the slot of a key on one CPU.
\<close>

type_synonym watchdog_ptr = "u32 \<times> nat"

text \<open>
  \<open>stream_\<close> operations act on the map \<open>start_events_stream\<close>, \<open>watchdog_\<close> operations on
  \<open>ioctl_watchdog_map\<close>, \<open>ringbuf_\<close> operations on \<open>gpu_ringbuf\<close>. An update returns whether it
  succeeded. The probe reads return the bytes in the destination after the call (zeros when the
  read faults). A reservation returns the memory of the record with the bytes it happens to hold.
  \<open>ringbuf_read\<close> is the consumer side: the user-space reader takes the oldest submitted record.
\<close>

record 'k bpf =
  get_current_pid_tgid :: "'k \<Rightarrow> u64"
  get_current_comm :: "nat \<Rightarrow> 'k \<Rightarrow> bytes"
  ktime_get_ns :: "'k \<Rightarrow> u64 \<times> 'k"
  get_current_task :: "'k \<Rightarrow> u64"
  probe_read_user :: "nat \<Rightarrow> u64 \<Rightarrow> 'k \<Rightarrow> bytes"
  probe_read_kernel :: "nat \<Rightarrow> u64 \<Rightarrow> 'k \<Rightarrow> bytes"
  stream_lookup :: "u64 \<Rightarrow> 'k \<Rightarrow> u64 option"
  stream_update :: "u64 \<Rightarrow> u64 \<Rightarrow> update_flag \<Rightarrow> 'k \<Rightarrow> bool \<times> 'k"
  stream_delete :: "u64 \<Rightarrow> 'k \<Rightarrow> 'k"
  watchdog_lookup :: "u32 \<Rightarrow> 'k \<Rightarrow> watchdog_ptr option"
  watchdog_update :: "u32 \<Rightarrow> ioctl_watchdog_event_t \<Rightarrow> update_flag \<Rightarrow> 'k \<Rightarrow> bool \<times> 'k"
  watchdog_modify :: "watchdog_ptr \<Rightarrow> (ioctl_watchdog_event_t \<Rightarrow> ioctl_watchdog_event_t) \<Rightarrow> 'k \<Rightarrow> 'k"
  watchdog_delete :: "u32 \<Rightarrow> 'k \<Rightarrow> 'k"
  ringbuf_reserve :: "nat \<Rightarrow> 'k \<Rightarrow> (bytes \<times> 'k) option"
  ringbuf_submit :: "bytes \<Rightarrow> 'k \<Rightarrow> 'k"
  ringbuf_read :: "'k \<Rightarrow> (bytes \<times> 'k) option"

section \<open>The contract\<close>

text \<open>What the program can observe of the kernel.\<close>

record kview =
  v_pid_tgid :: u64
  v_clock :: u64
  v_cpu :: nat
  v_ncpu :: nat
  v_starts :: "u64 \<rightharpoonup> u64"
  v_watchdog :: "u32 \<rightharpoonup> ioctl_watchdog_event_t list"
  v_ring :: "bytes list"

text \<open>The per-CPU values of a key just created on CPU \<open>c\<close>: the others are zero.\<close>

definition fresh_percpu :: "nat \<Rightarrow> nat \<Rightarrow> ioctl_watchdog_event_t \<Rightarrow> ioctl_watchdog_event_t list" where
  "fresh_percpu n c v = (replicate n zero_watchdog)[c := v]"

locale bpf_runtime =
  fixes H :: "'k bpf" and kinv :: "'k \<Rightarrow> bool" and view :: "'k \<Rightarrow> kview"
  assumes cpu_in_range: "kinv s \<Longrightarrow> v_cpu (view s) < v_ncpu (view s)"
    and percpu_length: "kinv s \<Longrightarrow> v_watchdog (view s) k = Some l \<Longrightarrow> length l = v_ncpu (view s)"
    and pid_tgid: "kinv s \<Longrightarrow> get_current_pid_tgid H s = v_pid_tgid (view s)"
    and comm_length: "kinv s \<Longrightarrow> length (get_current_comm H n s) = n"
    and comm_terminated: "kinv s \<Longrightarrow> 0 < n \<Longrightarrow> 0 \<in> set (get_current_comm H n s)"
    and ktime: "kinv s \<Longrightarrow> ktime_get_ns H s = (t, s') \<Longrightarrow>
      kinv s' \<and> view s' = (view s)\<lparr>v_clock := t\<rparr> \<and> v_clock (view s) \<le> t"
    and ktime_memory: "kinv s \<Longrightarrow> ktime_get_ns H s = (t, s') \<Longrightarrow>
      probe_read_kernel H n a s' = probe_read_kernel H n a s \<and>
      get_current_task H s' = get_current_task H s"
    and user_length: "kinv s \<Longrightarrow> length (probe_read_user H n a s) = n"
    and kernel_length: "kinv s \<Longrightarrow> length (probe_read_kernel H n a s) = n"
    and stream_lookup: "kinv s \<Longrightarrow> stream_lookup H tid s = v_starts (view s) tid"
    and stream_update: "kinv s \<Longrightarrow> stream_update H tid ts BPF_ANY s = (ok, s') \<Longrightarrow>
      kinv s' \<and> view s' = (if ok then (view s)\<lparr>v_starts := (v_starts (view s))(tid \<mapsto> ts)\<rparr> else view s)"
    and stream_delete: "kinv s \<Longrightarrow> kinv (stream_delete H tid s) \<and>
      view (stream_delete H tid s) = (view s)\<lparr>v_starts := (v_starts (view s))(tid := None)\<rparr>"
    and watchdog_lookup: "kinv s \<Longrightarrow> watchdog_lookup H pid s =
      map_option (\<lambda>_. (pid, v_cpu (view s))) (v_watchdog (view s) pid)"
    and watchdog_update: "kinv s \<Longrightarrow> v_watchdog (view s) pid = None \<Longrightarrow>
      watchdog_update H pid v BPF_NOEXIST s = (ok, s') \<Longrightarrow>
      kinv s' \<and> view s' = (if ok then (view s)\<lparr>v_watchdog :=
        (v_watchdog (view s))(pid \<mapsto> fresh_percpu (v_ncpu (view s)) (v_cpu (view s)) v)\<rparr> else view s)"
    and watchdog_modify: "kinv s \<Longrightarrow> v_watchdog (view s) pid = Some l \<Longrightarrow> c < length l \<Longrightarrow>
      kinv (watchdog_modify H (pid, c) f s) \<and>
      view (watchdog_modify H (pid, c) f s) =
        (view s)\<lparr>v_watchdog := (v_watchdog (view s))(pid \<mapsto> l[c := f (l ! c)])\<rparr>"
    and watchdog_delete: "kinv s \<Longrightarrow> kinv (watchdog_delete H pid s) \<and>
      view (watchdog_delete H pid s) = (view s)\<lparr>v_watchdog := (v_watchdog (view s))(pid := None)\<rparr>"
    and ringbuf_reserve: "kinv s \<Longrightarrow> ringbuf_reserve H n s = Some (e, s') \<Longrightarrow>
      kinv s' \<and> view s' = view s \<and> length e = n"
    and ringbuf_submit: "kinv s \<Longrightarrow> kinv (ringbuf_submit H e s) \<and>
      view (ringbuf_submit H e s) = (view s)\<lparr>v_ring := v_ring (view s) @ [e]\<rparr>"
    and ringbuf_read_empty: "kinv s \<Longrightarrow> ringbuf_read H s = None \<longleftrightarrow> v_ring (view s) = []"
    and ringbuf_read: "kinv s \<Longrightarrow> ringbuf_read H s = Some (e, s') \<Longrightarrow>
      kinv s' \<and> v_ring (view s) = e # v_ring (view s') \<and>
      view s' = (view s)\<lparr>v_ring := v_ring (view s')\<rparr>"

section \<open>A reference kernel\<close>

text \<open>
  Maps are association lists bounded by the \<open>max_entries\<close> of their declarations. The ring buffer
  charges each unread record its size rounded up to 8 plus an 8-byte header against its capacity.
  Memory that cannot be read faults (the destination is zero-filled); a reservation returns memory
  filled with a stale byte.
\<close>

record kstate =
  k_pid_tgid :: u64
  k_comm :: bytes
  k_clock :: u64
  k_cpu :: nat
  k_ncpu :: nat
  k_task :: u64
  k_user :: "u64 \<Rightarrow> u8 option"
  k_mem :: "u64 \<Rightarrow> u8 option"
  k_starts :: "(u64 \<times> u64) list"
  k_watchdog :: "(u32 \<times> ioctl_watchdog_event_t list) list"
  k_ring :: "bytes list"
  k_stale :: u8

definition start_events_stream_max_entries :: nat where "start_events_stream_max_entries = 1024"
definition ioctl_watchdog_map_max_entries :: nat where "ioctl_watchdog_map_max_entries = 1024"
definition gpu_ringbuf_max_entries :: nat where "gpu_ringbuf_max_entries = 256 * 1024"

definition record_cost :: "nat \<Rightarrow> nat" where
  "record_cost n = 8 + align_up 8 n"

definition ring_used :: "bytes list \<Rightarrow> nat" where
  "ring_used rs = sum_list (map (\<lambda>r. record_cost (length r)) rs)"

fun read_mem :: "(u64 \<Rightarrow> u8 option) \<Rightarrow> nat \<Rightarrow> u64 \<Rightarrow> bytes option" where
  "read_mem m 0 a = Some []"
| "read_mem m (Suc n) a =
     (case m a of None \<Rightarrow> None | Some b \<Rightarrow> map_option (Cons b) (read_mem m n (a + 1)))"

definition probe_read :: "(u64 \<Rightarrow> u8 option) \<Rightarrow> nat \<Rightarrow> u64 \<Rightarrow> bytes" where
  "probe_read m n a = (case read_mem m n a of Some bs \<Rightarrow> bs | None \<Rightarrow> replicate n 0)"

definition ref_comm :: "bytes \<Rightarrow> nat \<Rightarrow> bytes" where
  "ref_comm c n = take n (take (n - 1) c @ replicate n 0)"

definition alist_put :: "nat \<Rightarrow> 'a \<Rightarrow> 'b \<Rightarrow> ('a \<times> 'b) list \<Rightarrow> bool \<times> ('a \<times> 'b) list" where
  "alist_put cap k v m =
     (if map_of m k = None \<and> cap \<le> length m then (False, m) else (True, AList.update k v m))"

definition ref_stream_update :: "u64 \<Rightarrow> u64 \<Rightarrow> update_flag \<Rightarrow> kstate \<Rightarrow> bool \<times> kstate" where
  "ref_stream_update tid ts fl s =
     (if fl = BPF_NOEXIST \<and> map_of (k_starts s) tid \<noteq> None then (False, s)
      else let (ok, m) = alist_put start_events_stream_max_entries tid ts (k_starts s)
           in (ok, s\<lparr>k_starts := m\<rparr>))"

definition ref_watchdog_update ::
  "u32 \<Rightarrow> ioctl_watchdog_event_t \<Rightarrow> update_flag \<Rightarrow> kstate \<Rightarrow> bool \<times> kstate" where
  "ref_watchdog_update pid v fl s =
     (case map_of (k_watchdog s) pid of
        None \<Rightarrow>
          (let (ok, m) = alist_put ioctl_watchdog_map_max_entries pid
                 (fresh_percpu (k_ncpu s) (k_cpu s) v) (k_watchdog s)
           in (ok, s\<lparr>k_watchdog := m\<rparr>))
      | Some l \<Rightarrow>
          if fl = BPF_NOEXIST then (False, s)
          else (True, s\<lparr>k_watchdog := AList.update pid (l[k_cpu s := v]) (k_watchdog s)\<rparr>))"

definition ref_watchdog_modify ::
  "watchdog_ptr \<Rightarrow> (ioctl_watchdog_event_t \<Rightarrow> ioctl_watchdog_event_t) \<Rightarrow> kstate \<Rightarrow> kstate" where
  "ref_watchdog_modify p f s =
     (case map_of (k_watchdog s) (fst p) of
        None \<Rightarrow> s
      | Some l \<Rightarrow>
          s\<lparr>k_watchdog := AList.update (fst p) (l[snd p := f (l ! snd p)]) (k_watchdog s)\<rparr>)"

definition ref_ringbuf_reserve :: "nat \<Rightarrow> kstate \<Rightarrow> (bytes \<times> kstate) option" where
  "ref_ringbuf_reserve n s =
     (if ring_used (k_ring s) + record_cost n \<le> gpu_ringbuf_max_entries
      then Some (replicate n (k_stale s), s) else None)"

definition ref_ringbuf_read :: "kstate \<Rightarrow> (bytes \<times> kstate) option" where
  "ref_ringbuf_read s =
     (case k_ring s of [] \<Rightarrow> None | e # es \<Rightarrow> Some (e, s\<lparr>k_ring := es\<rparr>))"

definition reference_kernel :: "kstate bpf" where
  "reference_kernel =
    \<lparr>get_current_pid_tgid = k_pid_tgid,
     get_current_comm = (\<lambda>n s. ref_comm (k_comm s) n),
     ktime_get_ns = (\<lambda>s. (k_clock s, s)),
     get_current_task = k_task,
     probe_read_user = (\<lambda>n a s. probe_read (k_user s) n a),
     probe_read_kernel = (\<lambda>n a s. probe_read (k_mem s) n a),
     stream_lookup = (\<lambda>tid s. map_of (k_starts s) tid),
     stream_update = ref_stream_update,
     stream_delete = (\<lambda>tid s. s\<lparr>k_starts := AList.delete tid (k_starts s)\<rparr>),
     watchdog_lookup = (\<lambda>pid s. map_option (\<lambda>_. (pid, k_cpu s)) (map_of (k_watchdog s) pid)),
     watchdog_update = ref_watchdog_update,
     watchdog_modify = ref_watchdog_modify,
     watchdog_delete = (\<lambda>pid s. s\<lparr>k_watchdog := AList.delete pid (k_watchdog s)\<rparr>),
     ringbuf_reserve = ref_ringbuf_reserve,
     ringbuf_submit = (\<lambda>e s. s\<lparr>k_ring := k_ring s @ [e]\<rparr>),
     ringbuf_read = ref_ringbuf_read\<rparr>"

definition ref_view :: "kstate \<Rightarrow> kview" where
  "ref_view s = \<lparr>v_pid_tgid = k_pid_tgid s, v_clock = k_clock s, v_cpu = k_cpu s, v_ncpu = k_ncpu s,
     v_starts = map_of (k_starts s), v_watchdog = map_of (k_watchdog s), v_ring = k_ring s\<rparr>"

definition ref_inv :: "kstate \<Rightarrow> bool" where
  "ref_inv s \<longleftrightarrow> k_cpu s < k_ncpu s \<and> (\<forall>(p, l) \<in> set (k_watchdog s). length l = k_ncpu s)"

subsection \<open>The reference kernel meets the contract\<close>

lemma length_read_mem: "read_mem m n a = Some bs \<Longrightarrow> length bs = n"
  by (induction n arbitrary: a bs) (auto split: option.splits)

lemma length_probe_read [simp]: "length (probe_read m n a) = n"
  by (auto simp: probe_read_def length_read_mem split: option.splits)

lemma length_ref_comm [simp]: "length (ref_comm c n) = n"
  by (simp add: ref_comm_def)

lemma ref_comm_terminated: "0 < n \<Longrightarrow> 0 \<in> set (ref_comm c n)"
proof -
  assume "0 < n"
  then have "ref_comm c n = take (n - 1) c @ replicate (n - length (take (n - 1) c)) 0"
    by (simp add: ref_comm_def)
  moreover have "0 < n - length (take (n - 1) c)" using \<open>0 < n\<close> by simp
  ultimately show ?thesis using \<open>0 < n\<close> by (auto simp: not_le)
qed

lemma length_fresh_percpu [simp]: "length (fresh_percpu n c v) = n"
  by (simp add: fresh_percpu_def)

lemma set_AList_update: "set (AList.update k v m) \<subseteq> insert (k, v) (set m)"
  by (induction m) auto

lemma set_AList_delete: "set (AList.delete k m) \<subseteq> set m"
  by (auto simp: AList.delete_eq)

lemma ref_inv_update:
  "ref_inv s \<Longrightarrow> length l = k_ncpu s \<Longrightarrow> ref_inv (s\<lparr>k_watchdog := AList.update pid l (k_watchdog s)\<rparr>)"
  using set_AList_update [of pid l "k_watchdog s"] by (fastforce simp: ref_inv_def)

lemma ref_inv_length: "ref_inv s \<Longrightarrow> map_of (k_watchdog s) pid = Some l \<Longrightarrow> length l = k_ncpu s"
  by (auto simp: ref_inv_def dest: map_of_SomeD)

lemma alist_put_view:
  "alist_put cap k v m = (ok, m') \<Longrightarrow> map_of m' = (if ok then (map_of m)(k \<mapsto> v) else map_of m)"
  by (auto simp: alist_put_def update_conv' split: if_splits)

lemma ref_stream_update_view:
  assumes "ref_stream_update tid ts BPF_ANY s = (ok, s')" and "ref_inv s"
  shows "ref_inv s' \<and> ref_view s' =
    (if ok then (ref_view s)\<lparr>v_starts := (v_starts (ref_view s))(tid \<mapsto> ts)\<rparr> else ref_view s)"
  using assms
  by (auto simp: ref_stream_update_def ref_view_def ref_inv_def split: prod.splits dest: alist_put_view)

lemma ref_watchdog_update_view:
  assumes "ref_watchdog_update pid v BPF_NOEXIST s = (ok, s')" and inv: "ref_inv s"
    and new: "map_of (k_watchdog s) pid = None"
  shows "ref_inv s' \<and> ref_view s' = (if ok then (ref_view s)\<lparr>v_watchdog :=
    (v_watchdog (ref_view s))(pid \<mapsto> fresh_percpu (k_ncpu s) (k_cpu s) v)\<rparr> else ref_view s)"
proof -
  from assms obtain m where m: "alist_put ioctl_watchdog_map_max_entries pid
      (fresh_percpu (k_ncpu s) (k_cpu s) v) (k_watchdog s) = (ok, m)" and s': "s' = s\<lparr>k_watchdog := m\<rparr>"
    by (auto simp: ref_watchdog_update_def split: prod.splits)
  from alist_put_view [OF m] s' have "ref_view s' = (if ok then (ref_view s)\<lparr>v_watchdog :=
    (v_watchdog (ref_view s))(pid \<mapsto> fresh_percpu (k_ncpu s) (k_cpu s) v)\<rparr> else ref_view s)"
    by (simp add: ref_view_def)
  moreover have "ref_inv s'"
    using m s' inv ref_inv_update [OF inv, of "fresh_percpu (k_ncpu s) (k_cpu s) v" pid]
    by (auto simp: alist_put_def split: if_splits)
  ultimately show ?thesis by simp
qed

lemma ref_watchdog_modify_view:
  assumes "ref_inv s" and "map_of (k_watchdog s) pid = Some l" and "c < length l"
  shows "ref_inv (ref_watchdog_modify (pid, c) f s) \<and> ref_view (ref_watchdog_modify (pid, c) f s) =
    (ref_view s)\<lparr>v_watchdog := (v_watchdog (ref_view s))(pid \<mapsto> l[c := f (l ! c)])\<rparr>"
  using assms ref_inv_length [OF assms(1,2)] ref_inv_update [OF assms(1), of "l[c := f (l ! c)]" pid]
  by (simp add: ref_watchdog_modify_def ref_view_def update_conv')

lemmas ref_ops =
  reference_kernel_def ref_view_def ref_ringbuf_reserve_def ref_ringbuf_read_def

interpretation rk: bpf_runtime reference_kernel ref_inv ref_view
proof (unfold_locales, goal_cases)
  case 1 then show ?case by (simp add: ref_inv_def ref_view_def)
next
  case 2 then show ?case by (simp add: ref_view_def ref_inv_length)
next
  case 3 then show ?case by (simp add: ref_ops)
next
  case 4 then show ?case by (simp add: ref_ops)
next
  case 5 then show ?case by (simp add: ref_ops ref_comm_terminated)
next
  case 6 then show ?case by (auto simp: ref_ops)
next
  case 7 then show ?case by (auto simp: ref_ops)
next
  case 8 then show ?case by (simp add: ref_ops)
next
  case 9 then show ?case by (simp add: ref_ops)
next
  case 10 then show ?case by (simp add: ref_ops)
next
  case 11 then show ?case using ref_stream_update_view by (simp add: reference_kernel_def)
next
  case 12 then show ?case by (simp add: ref_ops ref_inv_def delete_conv')
next
  case 13 then show ?case by (simp add: ref_ops)
next
  case (14 s pid v ok s')
  then show ?case using ref_watchdog_update_view [of pid v s ok s']
    by (simp add: reference_kernel_def ref_view_def)
next
  case (15 s pid l c f)
  then show ?case using ref_watchdog_modify_view [of s pid l c f]
    by (simp add: reference_kernel_def ref_view_def)
next
  case (16 s pid)
  then show ?case using set_AList_delete [of pid "k_watchdog s"]
    by (auto simp: ref_ops ref_inv_def delete_conv')
next
  case 17 then show ?case by (auto simp: ref_ops split: if_splits)
next
  case 18 then show ?case by (simp add: ref_ops ref_inv_def)
next
  case 19 then show ?case by (simp add: ref_ops split: list.splits)
next
  case 20 then show ?case by (auto simp: ref_ops ref_inv_def split: list.splits)
qed

section \<open>A sample state\<close>

text \<open>
  A state of the reference kernel on which the witnesses of the properties run: two CPUs, empty maps,
  thread 43 of process 42 on CPU 0, whose task struct leads to one open file of device 195:0.
\<close>

definition sample_memory :: "u64 \<Rightarrow> u8 option" where
  "sample_memory = map_of (concat (map (\<lambda>(a, bs). zip (map (\<lambda>i. a + of_nat i) [0..<length bs]) bs)
     [(0x1000, [0, 0x20, 0, 0, 0, 0, 0, 0]), (0x2000, [0, 0x30, 0, 0, 0, 0, 0, 0]),
      (0x3000, [0, 0x40, 0, 0, 0, 0, 0, 0]), (0x4000, [0, 0x50, 0, 0, 0, 0, 0, 0]),
      (0x5000, [0, 0x60, 0, 0, 0, 0, 0, 0]), (0x6000, [0, 0, 0x30, 0x0C])]))"

definition sample_kernel :: kstate where
  "sample_kernel =
    \<lparr>k_pid_tgid = 42 * 2 ^ 32 + 43, k_comm = [112, 121], k_clock = 1000, k_cpu = 0, k_ncpu = 2,
     k_task = 0x1000, k_user = Map.empty, k_mem = sample_memory, k_starts = [], k_watchdog = [],
     k_ring = [], k_stale = 0xAA\<rparr>"

lemma sample_inv [simp]: "ref_inv sample_kernel"
  by (simp add: ref_inv_def sample_kernel_def)

lemma sample_view:
  "ref_view sample_kernel = \<lparr>v_pid_tgid = 42 * 2 ^ 32 + 43, v_clock = 1000, v_cpu = 0, v_ncpu = 2,
     v_starts = Map.empty, v_watchdog = Map.empty, v_ring = []\<rparr>"
  by (simp add: ref_view_def sample_kernel_def)

lemma sample_reserve:
  "n \<le> 1000 \<Longrightarrow> ringbuf_reserve reference_kernel n sample_kernel = Some (replicate n 0xAA, sample_kernel)"
proof -
  assume "n \<le> 1000"
  moreover have "align_up 8 n < n + 8" by (rule align_up_less) simp
  ultimately show ?thesis
    by (simp add: reference_kernel_def ref_ringbuf_reserve_def sample_kernel_def ring_used_def
        record_cost_def gpu_ringbuf_max_entries_def)
qed

end
