(* ===== verification/Gpu_Probes.thy ===== *)
theory Gpu_Probes
  imports Bpf_Runtime
begin

text \<open>
  The probes of \<open>gpuprint.bpf.c\<close> on the CUDA driver entry points, and the hit counters of the
  watchdog map. Each probe is the function of the same name: it takes the helpers, the arguments
  the \<open>BPF_KPROBE\<close> macro extracts from the registers, and the kernel state, and returns its
  result with the new state. A local pointer \<open>e\<close> into the ring buffer is the byte list of the
  reserved record; an assignment \<open>e->f = v\<close> is a store at \<open>offsetof T ''f''\<close>.
\<close>

section \<open>Hit counters\<close>

definition get_or_init_ioctl :: "'k bpf \<Rightarrow> u32 \<Rightarrow> 'k \<Rightarrow> watchdog_ptr option \<times> 'k" where
  "get_or_init_ioctl H pid s =
    (case watchdog_lookup H pid s of
       Some e \<Rightarrow> (Some e, s)
     | None \<Rightarrow>
        (let (now, s) = ktime_get_ns H s;
             zero = \<lparr>ioctl_hit_count = 0, uprobe_hit_count = 0, first_seen_time = now\<rparr>;
             (_, s) = watchdog_update H pid zero BPF_NOEXIST s
         in (watchdog_lookup H pid s, s)))"

definition add_to_counter :: "'k bpf \<Rightarrow> u32 \<Rightarrow> u32 \<Rightarrow> 'k \<Rightarrow> int \<times> 'k" where
  "add_to_counter H pid hit_type s =
    (let (hit, s) = get_or_init_ioctl H pid s in
     case hit of
       None \<Rightarrow> (0, s)
     | Some p \<Rightarrow>
        if hit_type = UPROBE_HIT then
          (0, watchdog_modify H p (\<lambda>w. w\<lparr>uprobe_hit_count := uprobe_hit_count w + 1\<rparr>) s)
        else if hit_type = IOCTL_HIT then
          (0, watchdog_modify H p (\<lambda>w. w\<lparr>ioctl_hit_count := ioctl_hit_count w + 1\<rparr>) s)
        else (0, s))"

section \<open>Kernel launches and allocations\<close>

abbreviation tgid_of :: "u64 \<Rightarrow> u32" where
  "tgid_of v \<equiv> ucast (drop_bit 32 v)"

definition handle_cuLaunchkernel ::
  "'k bpf \<Rightarrow> u64 \<Rightarrow> u64 \<Rightarrow> u64 \<Rightarrow> u64 \<Rightarrow> u64 \<Rightarrow> u64 \<Rightarrow> u64 \<Rightarrow> 'k \<Rightarrow> int \<times> 'k" where
  "handle_cuLaunchkernel H sp func gridX gridY gridZ blockX blockY s =
    (let pid = tgid_of (get_current_pid_tgid H s); T = gpu_kernel_launch_event_t in
     case ringbuf_reserve H (sizeof T) s of
       None \<Rightarrow> (0, s)
     | Some (e, s) \<Rightarrow>
        (let e = put_u32 (offsetof T ''pid'') pid e;
             e = put_u8 (offsetof T ''flag'') EVENT_GPU_KERNEL_LAUNCH e;
             e = put_bytes (offsetof T ''comm'') (get_current_comm H TASK_COMM_SIZE s) e;
             blockZ = u64_at 0 (probe_read_user H 8 (sp + 8) s);
             e = put_u32 (offsetof T ''gridx'') (ucast gridX) e;
             e = put_u32 (offsetof T ''gridy'') (ucast gridY) e;
             e = put_u32 (offsetof T ''gridz'') (ucast gridZ) e;
             e = put_u32 (offsetof T ''blockx'') (ucast blockX) e;
             e = put_u32 (offsetof T ''blocky'') (ucast blockY) e;
             e = put_u32 (offsetof T ''blockz'') (ucast blockZ) e;
             e = put_u64 (offsetof T ''total_blocks'') (gridX * gridY * gridZ) e;
             e = put_u64 (offsetof T ''threads_block'') (blockX * blockY * blockZ) e;
             e = put_u64 (offsetof T ''total_threads'')
                   (u64_at (offsetof T ''total_blocks'') e * u64_at (offsetof T ''threads_block'') e) e;
             s = ringbuf_submit H e s;
             (_, s) = add_to_counter H pid UPROBE_HIT s
         in (0, s)))"

definition handle_cuMemAlloc :: "'k bpf \<Rightarrow> u64 \<Rightarrow> u64 \<Rightarrow> 'k \<Rightarrow> int \<times> 'k" where
  "handle_cuMemAlloc H devptr bytesize s =
    (let pid = tgid_of (get_current_pid_tgid H s); T = gpu_memalloc_event_t in
     case ringbuf_reserve H (sizeof T) s of
       None \<Rightarrow> (0, s)
     | Some (e, s) \<Rightarrow>
        (let e = put_u32 (offsetof T ''pid'') pid e;
             e = put_u8 (offsetof T ''flag'') EVENT_GPU_MALLOC e;
             e = put_bytes (offsetof T ''comm'') (get_current_comm H TASK_COMM_SIZE s) e;
             e = put_u64 (offsetof T ''byte_size'') bytesize e;
             s = ringbuf_submit H e s;
             (_, s) = add_to_counter H pid UPROBE_HIT s
         in (0, s)))"

section \<open>Memory copies\<close>

definition handle_cuMemcpy_htod :: "'k bpf \<Rightarrow> u64 \<Rightarrow> u64 \<Rightarrow> u64 \<Rightarrow> 'k \<Rightarrow> int \<times> 'k" where
  "handle_cuMemcpy_htod H dst src bytesize s =
    (let pid = tgid_of (get_current_pid_tgid H s); T = gpu_memcpy_event_t in
     case ringbuf_reserve H (sizeof T) s of
       None \<Rightarrow> (0, s)
     | Some (e, s) \<Rightarrow>
        (let e = put_u32 (offsetof T ''pid'') pid e;
             e = put_u8 (offsetof T ''flag'') EVENT_GPU_MEMCPY e;
             e = put_bytes (offsetof T ''comm'') (get_current_comm H TASK_COMM_SIZE s) e;
             e = put_u64 (offsetof T ''byte_size'') bytesize e;
             e = put_u8 (offsetof T ''kind'') DIR_HTOD e;
             s = ringbuf_submit H e s;
             (_, s) = add_to_counter H pid UPROBE_HIT s
         in (0, s)))"

definition handle_cuMemcpy_dtoh :: "'k bpf \<Rightarrow> u64 \<Rightarrow> u64 \<Rightarrow> u64 \<Rightarrow> 'k \<Rightarrow> int \<times> 'k" where
  "handle_cuMemcpy_dtoh H dst src bytesize s =
    (let pid = tgid_of (get_current_pid_tgid H s); T = gpu_memcpy_event_t in
     case ringbuf_reserve H (sizeof T) s of
       None \<Rightarrow> (0, s)
     | Some (e, s) \<Rightarrow>
        (let e = put_u32 (offsetof T ''pid'') pid e;
             e = put_u8 (offsetof T ''flag'') EVENT_GPU_MEMCPY e;
             e = put_bytes (offsetof T ''comm'') (get_current_comm H TASK_COMM_SIZE s) e;
             e = put_u64 (offsetof T ''byte_size'') bytesize e;
             e = put_u8 (offsetof T ''kind'') DIR_DTOH e;
             s = ringbuf_submit H e s;
             (_, s) = add_to_counter H pid UPROBE_HIT s
         in (0, s)))"

definition handle_cuMemcpy_htod_async ::
  "'k bpf \<Rightarrow> u64 \<Rightarrow> u64 \<Rightarrow> u64 \<Rightarrow> u64 \<Rightarrow> 'k \<Rightarrow> int \<times> 'k" where
  "handle_cuMemcpy_htod_async H dst src bytesize hStream s =
    (let pid = tgid_of (get_current_pid_tgid H s); T = gpu_memcpy_event_t in
     case ringbuf_reserve H (sizeof T) s of
       None \<Rightarrow> (0, s)
     | Some (e, s) \<Rightarrow>
        (let e = put_u32 (offsetof T ''pid'') pid e;
             e = put_u8 (offsetof T ''flag'') EVENT_GPU_MEMCPY e;
             e = put_bytes (offsetof T ''comm'') (get_current_comm H TASK_COMM_SIZE s) e;
             e = put_u64 (offsetof T ''byte_size'') bytesize e;
             e = put_u8 (offsetof T ''kind'') DIR_HTOD e;
             s = ringbuf_submit H e s;
             (_, s) = add_to_counter H pid UPROBE_HIT s
         in (0, s)))"

definition handle_cuMemcpy_dtohAsync ::
  "'k bpf \<Rightarrow> u64 \<Rightarrow> u64 \<Rightarrow> u64 \<Rightarrow> u64 \<Rightarrow> 'k \<Rightarrow> int \<times> 'k" where
  "handle_cuMemcpy_dtohAsync H dst src bytesize hStream s =
    (let pid = tgid_of (get_current_pid_tgid H s); T = gpu_memcpy_event_t in
     case ringbuf_reserve H (sizeof T) s of
       None \<Rightarrow> (0, s)
     | Some (e, s) \<Rightarrow>
        (let e = put_u32 (offsetof T ''pid'') pid e;
             e = put_u8 (offsetof T ''flag'') EVENT_GPU_MEMCPY e;
             e = put_bytes (offsetof T ''comm'') (get_current_comm H TASK_COMM_SIZE s) e;
             e = put_u64 (offsetof T ''byte_size'') bytesize e;
             e = put_u8 (offsetof T ''kind'') DIR_DTOH e;
             s = ringbuf_submit H e s;
             (_, s) = add_to_counter H pid UPROBE_HIT s
         in (0, s)))"

section \<open>Stream and context synchronisation\<close>

definition handle_cuStreamSync :: "'k bpf \<Rightarrow> u64 \<Rightarrow> 'k \<Rightarrow> int \<times> 'k" where
  "handle_cuStreamSync H hStream s =
    (let tid = get_current_pid_tgid H s;
         (ts, s) = ktime_get_ns H s;
         (_, s) = stream_update H tid ts BPF_ANY s
     in (0, s))"

definition handle_cuStreamSynchronize_ret :: "'k bpf \<Rightarrow> 'k \<Rightarrow> int \<times> 'k" where
  "handle_cuStreamSynchronize_ret H s =
    (let tid = get_current_pid_tgid H s; T = gpu_stream_event_t in
     case stream_lookup H tid s of
       None \<Rightarrow> (0, s)
     | Some ts \<Rightarrow>
       (case ringbuf_reserve H (sizeof T) s of
          None \<Rightarrow> (0, s)
        | Some (e, s) \<Rightarrow>
           (let pid = tgid_of tid;
                e = put_u32 (offsetof T ''pid'') pid e;
                e = put_u64 (offsetof T ''start_time'') ts e;
                (now, s) = ktime_get_ns H s;
                e = put_u64 (offsetof T ''end_time'') now e;
                e = put_u64 (offsetof T ''delta_ns'')
                      (u64_at (offsetof T ''end_time'') e - u64_at (offsetof T ''start_time'') e) e;
                e = put_u8 (offsetof T ''flag'') EVENT_GPU_STREAM_SYNC e;
                e = put_bytes (offsetof T ''comm'') (get_current_comm H TASK_COMM_SIZE s) e;
                s = stream_delete H tid s;
                s = ringbuf_submit H e s;
                (_, s) = add_to_counter H pid UPROBE_HIT s
            in (0, s))))"

definition handle_cuCtxSync :: "'k bpf \<Rightarrow> 'k \<Rightarrow> int \<times> 'k" where
  "handle_cuCtxSync H s =
    (let tid = get_current_pid_tgid H s;
         (ts, s) = ktime_get_ns H s;
         (_, s) = stream_update H tid ts BPF_ANY s
     in (0, s))"

definition handle_cuCtxSync_ret :: "'k bpf \<Rightarrow> 'k \<Rightarrow> int \<times> 'k" where
  "handle_cuCtxSync_ret H s =
    (let tid = get_current_pid_tgid H s; T = gpu_stream_event_t in
     case stream_lookup H tid s of
       None \<Rightarrow> (0, s)
     | Some ts \<Rightarrow>
       (case ringbuf_reserve H (sizeof T) s of
          None \<Rightarrow> (0, s)
        | Some (e, s) \<Rightarrow>
           (let pid = tgid_of tid;
                e = put_u32 (offsetof T ''pid'') pid e;
                e = put_u64 (offsetof T ''start_time'') ts e;
                (now, s) = ktime_get_ns H s;
                e = put_u64 (offsetof T ''end_time'') now e;
                e = put_u64 (offsetof T ''delta_ns'')
                      (u64_at (offsetof T ''end_time'') e - u64_at (offsetof T ''start_time'') e) e;
                e = put_u8 (offsetof T ''flag'') EVENT_GPU_STREAM_SYNC e;
                e = put_bytes (offsetof T ''comm'') (get_current_comm H TASK_COMM_SIZE s) e;
                s = stream_delete H tid s;
                s = ringbuf_submit H e s;
                (_, s) = add_to_counter H pid UPROBE_HIT s
            in (0, s))))"

text \<open>The synchronous and asynchronous copy probes are the same function of the size.\<close>

lemma memcpy_async_same:
  "handle_cuMemcpy_htod_async H dst src n st = handle_cuMemcpy_htod H dst src n"
  "handle_cuMemcpy_dtohAsync H dst src n st = handle_cuMemcpy_dtoh H dst src n"
  by (rule ext, simp only: handle_cuMemcpy_htod_async_def handle_cuMemcpy_htod_def
      handle_cuMemcpy_dtohAsync_def handle_cuMemcpy_dtoh_def)+

text \<open>Context and stream synchronisation share the map and both probe bodies.\<close>

lemma ctx_sync_same:
  "handle_cuCtxSync H = handle_cuStreamSync H hStream"
  "handle_cuCtxSync_ret H = handle_cuStreamSynchronize_ret H"
  by (rule ext, simp only: handle_cuCtxSync_def handle_cuStreamSync_def
      handle_cuCtxSync_ret_def handle_cuStreamSynchronize_ret_def)+

section \<open>Specification of the records\<close>

text \<open>What a submitted record holds, read through the C layout of its type.\<close>

definition event_header :: "ctype \<Rightarrow> u8 \<Rightarrow> u32 \<Rightarrow> bytes \<Rightarrow> bytes \<Rightarrow> bool" where
  "event_header T flag pid comm e \<longleftrightarrow> length e = sizeof T \<and>
     u8_at (offsetof T ''flag'') e = flag \<and> u32_at (offsetof T ''pid'') e = pid \<and>
     bslice (offsetof T ''comm'') TASK_COMM_SIZE e = comm"

definition launch_record ::
  "u32 \<Rightarrow> bytes \<Rightarrow> u64 \<times> u64 \<times> u64 \<Rightarrow> u64 \<times> u64 \<times> u64 \<Rightarrow> bytes \<Rightarrow> bool" where
  "launch_record pid comm grid block e \<longleftrightarrow>
    (let T = gpu_kernel_launch_event_t; (gx, gy, gz) = grid; (blx, bly, blz) = block in
     event_header T EVENT_GPU_KERNEL_LAUNCH pid comm e \<and>
     u32_at (offsetof T ''gridx'') e = ucast gx \<and> u32_at (offsetof T ''gridy'') e = ucast gy \<and>
     u32_at (offsetof T ''gridz'') e = ucast gz \<and> u32_at (offsetof T ''blockx'') e = ucast blx \<and>
     u32_at (offsetof T ''blocky'') e = ucast bly \<and> u32_at (offsetof T ''blockz'') e = ucast blz \<and>
     u64_at (offsetof T ''total_blocks'') e = gx * gy * gz \<and>
     u64_at (offsetof T ''threads_block'') e = blx * bly * blz \<and>
     u64_at (offsetof T ''total_threads'') e = gx * gy * gz * (blx * bly * blz))"

definition memalloc_record :: "u32 \<Rightarrow> bytes \<Rightarrow> u64 \<Rightarrow> bytes \<Rightarrow> bool" where
  "memalloc_record pid comm n e \<longleftrightarrow> (let T = gpu_memalloc_event_t in
     event_header T EVENT_GPU_MALLOC pid comm e \<and> u64_at (offsetof T ''byte_size'') e = n)"

definition memcpy_record :: "u32 \<Rightarrow> bytes \<Rightarrow> u64 \<Rightarrow> u8 \<Rightarrow> bytes \<Rightarrow> bool" where
  "memcpy_record pid comm n dir e \<longleftrightarrow> (let T = gpu_memcpy_event_t in
     event_header T EVENT_GPU_MEMCPY pid comm e \<and> u64_at (offsetof T ''byte_size'') e = n \<and>
     u8_at (offsetof T ''kind'') e = dir)"

definition stream_record :: "u32 \<Rightarrow> bytes \<Rightarrow> u64 \<Rightarrow> u64 \<Rightarrow> bytes \<Rightarrow> bool" where
  "stream_record pid comm t0 t1 e \<longleftrightarrow> (let T = gpu_stream_event_t in
     event_header T EVENT_GPU_STREAM_SYNC pid comm e \<and>
     u64_at (offsetof T ''start_time'') e = t0 \<and> u64_at (offsetof T ''end_time'') e = t1 \<and>
     u64_at (offsetof T ''delta_ns'') e = t1 - t0)"

lemmas record_defs =
  event_header_def launch_record_def memalloc_record_def memcpy_record_def stream_record_def

text \<open>The effect of one counted hit on what the program observes.\<close>

definition hit :: "u32 \<Rightarrow> ioctl_watchdog_event_t \<Rightarrow> ioctl_watchdog_event_t" where
  "hit hit_type w =
    (if hit_type = UPROBE_HIT then w\<lparr>uprobe_hit_count := uprobe_hit_count w + 1\<rparr>
     else if hit_type = IOCTL_HIT then w\<lparr>ioctl_hit_count := ioctl_hit_count w + 1\<rparr>
     else w)"

text \<open>
  A hit is added to the current CPU's slot of an existing entry. Without an entry, either one is
  created (stamped with the time of creation \<open>t\<close>, zero on the other CPUs) and counts the hit, or the
  map refuses the entry and the hit is lost.
\<close>

definition counted :: "kview \<Rightarrow> u32 \<Rightarrow> u32 \<Rightarrow> kview \<Rightarrow> bool" where
  "counted v pid hit_type v' \<longleftrightarrow>
    (case v_watchdog v pid of
       Some l \<Rightarrow> v' = v\<lparr>v_watchdog := (v_watchdog v)(pid \<mapsto> l[v_cpu v := hit hit_type (l ! v_cpu v)])\<rparr>
     | None \<Rightarrow> (\<exists>t \<ge> v_clock v. v' = v\<lparr>v_clock := t\<rparr> \<or>
         v' = v\<lparr>v_clock := t, v_watchdog := (v_watchdog v)(pid \<mapsto> fresh_percpu (v_ncpu v) (v_cpu v)
           (hit hit_type \<lparr>ioctl_hit_count = 0, uprobe_hit_count = 0, first_seen_time = t\<rparr>))\<rparr>))"

section \<open>Filled records\<close>

lemma launch_filled:
  assumes "length e = 208" "length c = 150"
  shows "launch_record pid c (gx, gy, gz) (blx, bly, blz)
    (let e = put_u32 4 pid e; e = put_u8 0 EVENT_GPU_KERNEL_LAUNCH e; e = put_bytes 8 c e;
         e = put_u32 160 (ucast gx) e; e = put_u32 164 (ucast gy) e; e = put_u32 168 (ucast gz) e;
         e = put_u32 172 (ucast blx) e; e = put_u32 176 (ucast bly) e; e = put_u32 180 (ucast blz) e;
         e = put_u64 184 (gx * gy * gz) e; e = put_u64 192 (blx * bly * blz) e
     in put_u64 200 (u64_at 184 e * u64_at 192 e) e)"
  using assms
  by (simp add: launch_record_def event_header_def event_layout TASK_COMM_SIZE_def Let_def
      buf_simps buf_len)

lemma memalloc_filled:
  assumes "length e = 168" "length c = 150"
  shows "memalloc_record pid c n
    (put_u64 160 n (put_bytes 8 c (put_u8 0 EVENT_GPU_MALLOC (put_u32 4 pid e))))"
  using assms
  by (simp add: memalloc_record_def event_header_def event_layout TASK_COMM_SIZE_def Let_def
      buf_simps buf_len)

lemma memcpy_filled:
  assumes "length e = 176" "length c = 150"
  shows "memcpy_record pid c n dir (put_u8 168 dir
    (put_u64 160 n (put_bytes 8 c (put_u8 0 EVENT_GPU_MEMCPY (put_u32 4 pid e)))))"
  using assms
  by (simp add: memcpy_record_def event_header_def event_layout TASK_COMM_SIZE_def Let_def
      buf_simps buf_len)

lemma stream_filled:
  assumes "length e = 184" "length c = 150"
  shows "stream_record pid c t0 t1
    (let e = put_u32 4 pid e; e = put_u64 160 t0 e; e = put_u64 168 t1 e;
         e = put_u64 176 (u64_at 168 e - u64_at 160 e) e; e = put_u8 0 EVENT_GPU_STREAM_SYNC e
     in put_bytes 8 c e)"
  using assms
  by (simp add: stream_record_def event_header_def event_layout TASK_COMM_SIZE_def Let_def
      buf_simps buf_len)

section \<open>The probes against any kernel that meets the contract\<close>

context bpf_runtime
begin

lemma modify_hit:
  assumes "kinv s" and "v_watchdog (view s) pid = Some l"
  shows "kinv (watchdog_modify H (pid, v_cpu (view s)) f s) \<and>
    view (watchdog_modify H (pid, v_cpu (view s)) f s) = (view s)\<lparr>v_watchdog :=
      (v_watchdog (view s))(pid \<mapsto> l[v_cpu (view s) := f (l ! v_cpu (view s))])\<rparr>"
  using watchdog_modify [OF assms, of "v_cpu (view s)" f] cpu_in_range [OF assms(1)]
    percpu_length [OF assms] by simp

lemma add_to_counter_present:
  assumes inv: "kinv s" and l: "v_watchdog (view s) pid = Some l"
    and run: "add_to_counter H pid h s = (r, s')"
  shows "r = 0 \<and> kinv s' \<and> view s' = (view s)\<lparr>v_watchdog :=
    (v_watchdog (view s))(pid \<mapsto> l[v_cpu (view s) := hit h (l ! v_cpu (view s))])\<rparr>"
proof -
  have "get_or_init_ioctl H pid s = (Some (pid, v_cpu (view s)), s)"
    using inv l by (simp add: get_or_init_ioctl_def watchdog_lookup)
  moreover have "(v_watchdog (view s))(pid \<mapsto> l[v_cpu (view s) := l ! v_cpu (view s)]) = v_watchdog (view s)"
    using l by (auto simp: list_update_id)
  ultimately show ?thesis
    using run inv modify_hit [OF inv l]
    by (auto simp: add_to_counter_def hit_def split: if_splits)
qed

lemma get_or_init_absent:
  assumes inv: "kinv s" and none: "v_watchdog (view s) pid = None"
    and run: "get_or_init_ioctl H pid s = (p, s')"
  shows "kinv s' \<and> (\<exists>t \<ge> v_clock (view s).
    p = None \<and> view s' = (view s)\<lparr>v_clock := t\<rparr> \<or>
    p = Some (pid, v_cpu (view s)) \<and> view s' = (view s)\<lparr>v_clock := t,
      v_watchdog := (v_watchdog (view s))(pid \<mapsto> fresh_percpu (v_ncpu (view s)) (v_cpu (view s))
        \<lparr>ioctl_hit_count = 0, uprobe_hit_count = 0, first_seen_time = t\<rparr>)\<rparr>)"
proof -
  obtain t s1 where k: "ktime_get_ns H s = (t, s1)" by fastforce
  note k1 = ktime [OF inv k]
  let ?z = "\<lparr>ioctl_hit_count = 0, uprobe_hit_count = 0, first_seen_time = t\<rparr>"
  obtain ok s2 where u: "watchdog_update H pid ?z BPF_NOEXIST s1 = (ok, s2)" by fastforce
  have none1: "v_watchdog (view s1) pid = None" using k1 none by simp
  note u1 = watchdog_update [OF conjunct1 [OF k1] none1 u]
  have "s' = s2" and "p = watchdog_lookup H pid s2"
    using run none inv k u by (auto simp: get_or_init_ioctl_def watchdog_lookup)
  with u1 k1 none1 show ?thesis
    by (cases ok) (auto simp: watchdog_lookup)
qed

lemma add_to_counter_counted:
  assumes inv: "kinv s" and run: "add_to_counter H pid h s = (r, s')"
  shows "r = 0 \<and> kinv s' \<and> counted (view s) pid h (view s')"
proof (cases "v_watchdog (view s) pid")
  case (Some l)
  then show ?thesis using add_to_counter_present [OF inv Some run] by (simp add: counted_def)
next
  case None
  obtain p s1 where g: "get_or_init_ioctl H pid s = (p, s1)" by fastforce
  obtain t where t: "v_clock (view s) \<le> t" and inv1: "kinv s1" and c:
    "p = None \<and> view s1 = (view s)\<lparr>v_clock := t\<rparr> \<or>
     p = Some (pid, v_cpu (view s)) \<and> view s1 = (view s)\<lparr>v_clock := t,
      v_watchdog := (v_watchdog (view s))(pid \<mapsto> fresh_percpu (v_ncpu (view s)) (v_cpu (view s))
        \<lparr>ioctl_hit_count = 0, uprobe_hit_count = 0, first_seen_time = t\<rparr>)\<rparr>"
    using get_or_init_absent [OF inv None g] by blast
  from c show ?thesis
  proof
    assume "p = None \<and> view s1 = (view s)\<lparr>v_clock := t\<rparr>"
    then show ?thesis using run g inv1 None t
      by (auto simp: add_to_counter_def counted_def)
  next
    let ?z = "\<lparr>ioctl_hit_count = 0, uprobe_hit_count = 0, first_seen_time = t\<rparr>"
    let ?l = "fresh_percpu (v_ncpu (view s)) (v_cpu (view s)) ?z"
    assume p: "p = Some (pid, v_cpu (view s)) \<and> view s1 = (view s)\<lparr>v_clock := t,
      v_watchdog := (v_watchdog (view s))(pid \<mapsto> ?l)\<rparr>"
    have l: "v_watchdog (view s1) pid = Some ?l" using p by simp
    have cpu: "v_cpu (view s1) = v_cpu (view s)" using p by simp
    have "?l[v_cpu (view s) := f (?l ! v_cpu (view s))] =
      fresh_percpu (v_ncpu (view s)) (v_cpu (view s)) (f ?z)" for f
      using cpu_in_range [OF inv] by (simp add: fresh_percpu_def)
    then show ?thesis
      using run g p t None modify_hit [OF inv1 l] inv1 unfolding cpu
      by (auto simp: add_to_counter_def counted_def hit_def split: if_splits)
  qed
qed

end

text \<open>A record was appended to the ring and one uprobe hit counted for its process.\<close>

definition submitted :: "kview \<Rightarrow> u32 \<Rightarrow> bytes \<Rightarrow> kview \<Rightarrow> bool" where
  "submitted v pid e v' \<longleftrightarrow> counted (v\<lparr>v_ring := v_ring v @ [e]\<rparr>) pid UPROBE_HIT v'"

text \<open>A command name as the helper leaves it: the whole field, with a terminator.\<close>

definition comm_field :: "bytes \<Rightarrow> bool" where
  "comm_field c \<longleftrightarrow> length c = TASK_COMM_SIZE \<and> 0 \<in> set c"

section \<open>Effect of every probe\<close>

context bpf_runtime
begin

lemma comm_ok: "kinv s \<Longrightarrow> comm_field (get_current_comm H TASK_COMM_SIZE s)"
  by (simp add: comm_field_def comm_length comm_terminated TASK_COMM_SIZE_def)

lemma comm_length_150: "kinv s \<Longrightarrow> length (get_current_comm H TASK_COMM_SIZE s) = 150"
  by (simp add: comm_length TASK_COMM_SIZE_def)

lemma submit_counted:
  assumes "kinv s" and "add_to_counter H pid UPROBE_HIT (ringbuf_submit H e s) = (r, s')"
  shows "kinv s' \<and> submitted (view s) pid e (view s')"
  using add_to_counter_counted [of "ringbuf_submit H e s" pid UPROBE_HIT r s'] assms
    ringbuf_submit [of s e]
  by (simp add: submitted_def)

lemma probe_tail:
  assumes "kinv s" and "(case add_to_counter H pid UPROBE_HIT (ringbuf_submit H e s) of (_, s) \<Rightarrow> (0, s)) = (r, s')"
  shows "r = (0::int) \<and> kinv s' \<and> submitted (view s) pid e (view s')"
  using assms submit_counted [OF assms(1), of pid e] by (auto split: prod.splits)

lemma handle_cuLaunchkernel_spec:
  assumes inv: "kinv s"
    and run: "handle_cuLaunchkernel H sp func gridX gridY gridZ blockX blockY s = (r, s')"
  shows "r = 0 \<and> kinv s' \<and>
    (case ringbuf_reserve H (sizeof gpu_kernel_launch_event_t) s of
       None \<Rightarrow> s' = s
     | Some (_, s1) \<Rightarrow> \<exists>e c. comm_field c \<and>
         launch_record (tgid_of (v_pid_tgid (view s))) c (gridX, gridY, gridZ)
           (blockX, blockY, u64_at 0 (probe_read_user H 8 (sp + 8) s1)) e \<and>
         submitted (view s) (tgid_of (v_pid_tgid (view s))) e (view s'))"
proof (cases "ringbuf_reserve H (sizeof gpu_kernel_launch_event_t) s")
  case None
  then show ?thesis using run inv by (simp add: handle_cuLaunchkernel_def)
next
  case (Some p)
  obtain e s1 where p: "p = (e, s1)" by (cases p)
  let ?pid = "tgid_of (v_pid_tgid (view s))"
  have res: "kinv s1 \<and> view s1 = view s \<and> length e = sizeof gpu_kernel_launch_event_t"
    by (rule ringbuf_reserve [OF inv Some [unfolded p]])
  then have inv1: "kinv s1" and v1: "view s1 = view s" and len: "length e = 208"
    by (simp_all add: event_layout)
  note filled = launch_filled [OF len comm_length_150 [OF inv1], where pid = ?pid and gx = gridX
      and gy = gridY and gz = gridZ and blx = blockX and bly = blockY
      and blz = "u64_at 0 (probe_read_user H 8 (sp + 8) s1)", unfolded Let_def]
  note run' = run [unfolded handle_cuLaunchkernel_def Let_def pid_tgid [OF inv] Some p option.case prod.case, unfolded event_layout]
  show ?thesis
    using probe_tail [OF inv1 run'] filled comm_ok [OF inv1] unfolding Some p v1 by simp blast
qed

lemma handle_cuMemAlloc_spec:
  assumes inv: "kinv s" and run: "handle_cuMemAlloc H devptr n s = (r, s')"
  shows "r = 0 \<and> kinv s' \<and>
    (case ringbuf_reserve H (sizeof gpu_memalloc_event_t) s of
       None \<Rightarrow> s' = s
     | Some _ \<Rightarrow> \<exists>e c. comm_field c \<and>
         memalloc_record (tgid_of (v_pid_tgid (view s))) c n e \<and>
         submitted (view s) (tgid_of (v_pid_tgid (view s))) e (view s'))"
proof (cases "ringbuf_reserve H (sizeof gpu_memalloc_event_t) s")
  case None
  then show ?thesis using run inv by (simp add: handle_cuMemAlloc_def)
next
  case (Some p)
  obtain e s1 where p: "p = (e, s1)" by (cases p)
  have res: "kinv s1 \<and> view s1 = view s \<and> length e = sizeof gpu_memalloc_event_t"
    by (rule ringbuf_reserve [OF inv Some [unfolded p]])
  then have inv1: "kinv s1" and v1: "view s1 = view s" and len: "length e = 168"
    by (simp_all add: event_layout)
  note filled = memalloc_filled [OF len comm_length_150 [OF inv1]]
  note run' = run [unfolded handle_cuMemAlloc_def Let_def pid_tgid [OF inv] Some p option.case prod.case, unfolded event_layout]
  show ?thesis
    using probe_tail [OF inv1 run'] filled comm_ok [OF inv1] unfolding Some p v1 by simp blast
qed

text \<open>The four copy probes differ only in the direction they record.\<close>

lemma memcpy_probe_spec:
  assumes inv: "kinv s"
    and run: "(case ringbuf_reserve H (sizeof gpu_memcpy_event_t) s of
       None \<Rightarrow> (0, s)
     | Some (e, s1) \<Rightarrow>
         (let (_, s2) = add_to_counter H pid UPROBE_HIT (ringbuf_submit H
            (put_u8 168 dir (put_u64 160 n (put_bytes 8 (get_current_comm H TASK_COMM_SIZE s1)
              (put_u8 0 EVENT_GPU_MEMCPY (put_u32 4 pid e))))) s1) in (0, s2))) = (r, s')"
  shows "r = (0::int) \<and> kinv s' \<and>
    (case ringbuf_reserve H (sizeof gpu_memcpy_event_t) s of
       None \<Rightarrow> s' = s
     | Some _ \<Rightarrow> \<exists>e c. comm_field c \<and> memcpy_record pid c n dir e \<and> submitted (view s) pid e (view s'))"
proof (cases "ringbuf_reserve H (sizeof gpu_memcpy_event_t) s")
  case None
  then show ?thesis using run inv by simp
next
  case (Some p)
  obtain e s1 where p: "p = (e, s1)" by (cases p)
  have res: "kinv s1 \<and> view s1 = view s \<and> length e = sizeof gpu_memcpy_event_t"
    by (rule ringbuf_reserve [OF inv Some [unfolded p]])
  then have inv1: "kinv s1" and v1: "view s1 = view s" and len: "length e = 176"
    by (simp_all add: event_layout)
  note filled = memcpy_filled [OF len comm_length_150 [OF inv1]]
  note run' = run [unfolded Some p option.case prod.case Let_def]
  show ?thesis
    using probe_tail [OF inv1 run'] filled comm_ok [OF inv1] unfolding Some p v1 by simp blast
qed

lemma handle_cuMemcpy_htod_spec:
  assumes inv: "kinv s" and run: "handle_cuMemcpy_htod H dst src n s = (r, s')"
  shows "r = 0 \<and> kinv s' \<and>
    (case ringbuf_reserve H (sizeof gpu_memcpy_event_t) s of
       None \<Rightarrow> s' = s
     | Some _ \<Rightarrow> \<exists>e c. comm_field c \<and>
         memcpy_record (tgid_of (v_pid_tgid (view s))) c n DIR_HTOD e \<and>
         submitted (view s) (tgid_of (v_pid_tgid (view s))) e (view s'))"
  using run memcpy_probe_spec [OF inv, of "tgid_of (v_pid_tgid (view s))" DIR_HTOD n r s']
  unfolding handle_cuMemcpy_htod_def Let_def pid_tgid [OF inv] event_layout by blast

lemma handle_cuMemcpy_dtoh_spec:
  assumes inv: "kinv s" and run: "handle_cuMemcpy_dtoh H dst src n s = (r, s')"
  shows "r = 0 \<and> kinv s' \<and>
    (case ringbuf_reserve H (sizeof gpu_memcpy_event_t) s of
       None \<Rightarrow> s' = s
     | Some _ \<Rightarrow> \<exists>e c. comm_field c \<and>
         memcpy_record (tgid_of (v_pid_tgid (view s))) c n DIR_DTOH e \<and>
         submitted (view s) (tgid_of (v_pid_tgid (view s))) e (view s'))"
  using run memcpy_probe_spec [OF inv, of "tgid_of (v_pid_tgid (view s))" DIR_DTOH n r s']
  unfolding handle_cuMemcpy_dtoh_def Let_def pid_tgid [OF inv] event_layout by blast

lemma handle_cuStreamSync_spec:
  assumes inv: "kinv s" and run: "handle_cuStreamSync H st s = (r, s')"
  shows "r = 0 \<and> kinv s' \<and> (\<exists>t \<ge> v_clock (view s).
    view s' = (view s)\<lparr>v_clock := t\<rparr> \<or>
    view s' = (view s)\<lparr>v_clock := t, v_starts := (v_starts (view s))(v_pid_tgid (view s) \<mapsto> t)\<rparr>)"
proof -
  obtain t s1 where k: "ktime_get_ns H s = (t, s1)" by fastforce
  note k1 = ktime [OF inv k]
  obtain ok s2 where u: "stream_update H (v_pid_tgid (view s)) t BPF_ANY s1 = (ok, s2)" by fastforce
  note u1 = stream_update [OF conjunct1 [OF k1] u]
  have "r = 0 \<and> s' = s2"
    using run k u by (simp add: handle_cuStreamSync_def Let_def pid_tgid [OF inv])
  with k1 u1 show ?thesis by (cases ok) auto
qed

lemma handle_cuStreamSynchronize_ret_spec:
  assumes inv: "kinv s" and run: "handle_cuStreamSynchronize_ret H s = (r, s')"
  shows "r = 0 \<and> kinv s' \<and>
    (case v_starts (view s) (v_pid_tgid (view s)) of
       None \<Rightarrow> s' = s
     | Some t0 \<Rightarrow>
       (case ringbuf_reserve H (sizeof gpu_stream_event_t) s of
          None \<Rightarrow> s' = s
        | Some _ \<Rightarrow> \<exists>e c t1. v_clock (view s) \<le> t1 \<and> comm_field c \<and>
            stream_record (tgid_of (v_pid_tgid (view s))) c t0 t1 e \<and>
            submitted ((view s)\<lparr>v_clock := t1,
                v_starts := (v_starts (view s))(v_pid_tgid (view s) := None)\<rparr>)
              (tgid_of (v_pid_tgid (view s))) e (view s')))"
proof (cases "v_starts (view s) (v_pid_tgid (view s))")
  case None
  then show ?thesis using run inv
    by (simp add: handle_cuStreamSynchronize_ret_def pid_tgid stream_lookup)
next
  case start: (Some t0)
  let ?tid = "v_pid_tgid (view s)"
  show ?thesis
  proof (cases "ringbuf_reserve H (sizeof gpu_stream_event_t) s")
    case None
    then show ?thesis using run inv start
      by (simp add: handle_cuStreamSynchronize_ret_def pid_tgid stream_lookup)
  next
    case (Some p)
    obtain e s1 where p: "p = (e, s1)" by (cases p)
    have res: "kinv s1 \<and> view s1 = view s \<and> length e = sizeof gpu_stream_event_t"
      by (rule ringbuf_reserve [OF inv Some [unfolded p]])
    then have inv1: "kinv s1" and v1: "view s1 = view s" and len: "length e = 184"
      by (simp_all add: event_layout)
    obtain t1 s2 where k: "ktime_get_ns H s1 = (t1, s2)" by fastforce
    have k2: "kinv s2" "view s2 = (view s)\<lparr>v_clock := t1\<rparr>" "v_clock (view s) \<le> t1"
      using ktime [OF inv1 k] v1 by simp_all
    let ?s3 = "stream_delete H ?tid s2"
    have d: "kinv ?s3" "view ?s3 = (view s)\<lparr>v_clock := t1, v_starts := (v_starts (view s))(?tid := None)\<rparr>"
      using stream_delete [OF k2(1), of ?tid] k2 by simp_all
    note filled = stream_filled [OF len comm_length_150 [OF k2(1)], unfolded Let_def]
    note run' = run [unfolded handle_cuStreamSynchronize_ret_def Let_def pid_tgid [OF inv]
        stream_lookup [OF inv] start Some p k option.case prod.case, unfolded event_layout]
    show ?thesis
      using probe_tail [OF d(1) run'] filled comm_ok [OF k2(1)] k2(3)
      unfolding Some p start d(2) by simp blast
  qed
qed

end

end
