(* ===== verification/Watchdog_Probe.thy ===== *)
theory Watchdog_Probe
  imports Gpu_Probes
begin

unbundle bit_operations_syntax

text \<open>
  The two tracepoint programs of \<open>gpuprint.bpf.c\<close>: \<open>watchdog_ioctl\<close>, which counts the ioctls a
  process issues on NVIDIA compute devices, and \<open>handle_process_exit\<close>. The first walks kernel
  objects by CO-RE reads; the offsets are those the loader patches in for the running kernel
  (\<open>core_offsets\<close>), and theory Kernel_Layout computes them for the kernel of \<open>vmlinux.h\<close>.
\<close>

section \<open>Devices\<close>

definition is_nvidia_compute_device :: "u32 \<Rightarrow> u32 \<Rightarrow> bool" where
  "is_nvidia_compute_device major minor =
    (if major = NVIDIA_UVM_MAJOR then True
     else if major = NVIDIA_MAJOR \<and> minor < NVIDIA_MODESET_MINOR then True
     else False)"

section \<open>The ioctl tracepoint\<close>

record core_offsets =
  off_task_files :: u64
  off_files_fdt :: u64
  off_fdt_fd :: u64
  off_file_inode :: u64
  off_inode_rdev :: u64

abbreviation read_ptr :: "'k bpf \<Rightarrow> 'k \<Rightarrow> u64 \<Rightarrow> u64" where
  "read_ptr H s a \<equiv> u64_at 0 (probe_read_kernel H 8 a s)"

abbreviation read_dev :: "'k bpf \<Rightarrow> 'k \<Rightarrow> u64 \<Rightarrow> u32" where
  "read_dev H s a \<equiv> u32_at 0 (probe_read_kernel H 4 a s)"

definition watchdog_ioctl :: "'k bpf \<Rightarrow> core_offsets \<Rightarrow> u64 \<Rightarrow> 'k \<Rightarrow> int \<times> 'k" where
  "watchdog_ioctl H R arg0 s =
    (let pid = tgid_of (get_current_pid_tgid H s);
         (ts, s) = ktime_get_ns H s;
         fd = arg0;
         task = get_current_task H s;
         fdt = read_ptr H s (read_ptr H s (task + off_task_files R) + off_files_fdt R)
     in if fdt = 0 then (0, s) else
     let fd_array = read_ptr H s (fdt + off_fdt_fd R)
     in if fd_array = 0 then (0, s) else
     let fd_addr = fd_array + fd * 8;
         file = read_ptr H s fd_addr
     in if file = 0 then (0, s) else
     let rdev = read_dev H s (read_ptr H s (file + off_file_inode R) + off_inode_rdev R);
         major = drop_bit 20 rdev;
         minor = rdev AND 0xfffff
     in if \<not> is_nvidia_compute_device major minor then (0, s) else
     let (_, s) = add_to_counter H pid IOCTL_HIT s
     in (0, s))"

section \<open>Process exit\<close>

definition handle_process_exit :: "'k bpf \<Rightarrow> 'k \<Rightarrow> int \<times> 'k" where
  "handle_process_exit H s =
    (let pid = tgid_of (get_current_pid_tgid H s) in (0, watchdog_delete H pid s))"

section \<open>What the ioctl probe is to compute\<close>

text \<open>The kernel's device numbers: 12 bits of major above 20 bits of minor.\<close>

definition mkdev :: "u32 \<Rightarrow> u32 \<Rightarrow> u32" where
  "mkdev major minor = major * 2 ^ 20 + minor"

text \<open>
  A task whose descriptor table is \<open>table\<close> (for each descriptor, the device number of the open file's
  inode, or nothing), as it lies in kernel memory.
\<close>

definition task_in_memory ::
  "(u64 \<Rightarrow> u64) \<Rightarrow> (u64 \<Rightarrow> u32) \<Rightarrow> core_offsets \<Rightarrow> u64 \<Rightarrow> u32 option list \<Rightarrow> bool" where
  "task_in_memory rd rd32 R task table \<longleftrightarrow>
    (\<exists>files fdt fds. rd (task + off_task_files R) = files \<and> rd (files + off_files_fdt R) = fdt \<and> fdt \<noteq> 0 \<and>
       rd (fdt + off_fdt_fd R) = fds \<and> fds \<noteq> 0 \<and>
       (\<forall>i < length table. case table ! i of
          None \<Rightarrow> rd (fds + of_nat i * 8) = 0
        | Some dev \<Rightarrow> \<exists>file inode. rd (fds + of_nat i * 8) = file \<and> file \<noteq> 0 \<and>
            rd (file + off_file_inode R) = inode \<and> rd32 (inode + off_inode_rdev R) = dev))"

definition counts_ioctl :: "u32 option list \<Rightarrow> u64 \<Rightarrow> bool" where
  "counts_ioctl table fd =
    (case table ! unat fd of
       None \<Rightarrow> False
     | Some dev \<Rightarrow> is_nvidia_compute_device (drop_bit 20 dev) (dev AND 0xfffff))"

text \<open>
  The device number behind a descriptor of the calling task, read member by member, and the numbers of the compute
  devices: the UVM major 511 and the minors below 254 of the NVIDIA major 195.
\<close>

definition fd_device :: "'k bpf \<Rightarrow> core_offsets \<Rightarrow> 'k \<Rightarrow> u64 \<Rightarrow> u32 option" where
  "fd_device H R s fd =
    (let files = read_ptr H s (get_current_task H s + off_task_files R);
         fdt = read_ptr H s (files + off_files_fdt R);
         fds = read_ptr H s (fdt + off_fdt_fd R);
         file = read_ptr H s (fds + 8 * fd);
         inode = read_ptr H s (file + off_file_inode R)
     in if fdt = 0 \<or> fds = 0 \<or> file = 0 then None else Some (read_dev H s (inode + off_inode_rdev R)))"

definition compute_device :: "u32 \<Rightarrow> bool" where
  "compute_device dev \<longleftrightarrow> unat dev div 2 ^ 20 = 511 \<or> unat dev div 2 ^ 20 = 195 \<and> unat dev mod 2 ^ 20 < 254"

definition on_compute_device :: "'k bpf \<Rightarrow> core_offsets \<Rightarrow> 'k \<Rightarrow> u64 \<Rightarrow> bool" where
  "on_compute_device H R s fd = (case fd_device H R s fd of None \<Rightarrow> False | Some dev \<Rightarrow> compute_device dev)"

lemma decoded_device:
  "is_nvidia_compute_device (drop_bit 20 dev) (dev AND 0xfffff) \<longleftrightarrow> compute_device dev"
proof -
  have m: "(0xfffff :: u32) = mask 20" by (simp add: mask_eq_exp_minus_1)
  have "unat (drop_bit 20 dev) = unat dev div 2 ^ 20" by (simp only: unat_drop_bit_eq) (simp add: drop_bit_eq_div)
  moreover have "unat (dev AND 0xfffff) = unat dev mod 2 ^ 20"
    by (simp only: m take_bit_eq_mask [symmetric] unsigned_take_bit_eq) (simp add: take_bit_eq_mod)
  ultimately show ?thesis
    by (simp add: is_nvidia_compute_device_def compute_device_def NVIDIA_UVM_MAJOR_def NVIDIA_MAJOR_def
        NVIDIA_MODESET_MINOR_def word_unat_eq_iff word_less_nat_alt)
qed

lemma mkdev_decode:
  assumes "major < 2 ^ 12" and "minor < 2 ^ 20"
  shows "drop_bit 20 (mkdev major minor) = major" and "mkdev major minor AND 0xfffff = minor"
proof -
  have a: "unat major < 2 ^ 12" and b: "unat minor < 2 ^ 20"
    using assms by (simp_all add: word_less_nat_alt)
  have "unat major * 2 ^ 20 + unat minor < 2 ^ 32" using a b by simp
  then have u: "unat (mkdev major minor) = unat major * 2 ^ 20 + unat minor"
    by (simp add: mkdev_def unat_word_ariths)
  have "unat (drop_bit 20 (mkdev major minor)) = unat major"
    using b by (simp only: unat_drop_bit_eq u) (simp add: drop_bit_eq_div)
  then show "drop_bit 20 (mkdev major minor) = major" by (simp add: word_unat_eq_iff)
  have m: "(0xfffff :: u32) = mask 20" by (simp add: mask_eq_exp_minus_1)
  have "unat (mkdev major minor AND 0xfffff) = unat minor"
    using b by (simp only: m take_bit_eq_mask [symmetric] unsigned_take_bit_eq u)
      (simp add: take_bit_eq_mod)
  then show "mkdev major minor AND 0xfffff = minor" by (simp add: word_unat_eq_iff)
qed

context bpf_runtime
begin

lemma watchdog_ioctl_spec:
  assumes inv: "kinv s" and run: "watchdog_ioctl H R fd s = (r, s')"
    and mem: "task_in_memory (read_ptr H s) (read_dev H s) R (get_current_task H s) table"
    and fd: "unat fd < length table"
  shows "r = 0 \<and> kinv s' \<and> (\<exists>t \<ge> v_clock (view s).
    if counts_ioctl table fd
    then counted ((view s)\<lparr>v_clock := t\<rparr>) (tgid_of (v_pid_tgid (view s))) IOCTL_HIT (view s')
    else view s' = (view s)\<lparr>v_clock := t\<rparr>)"
proof -
  obtain t s1 where k: "ktime_get_ns H s = (t, s1)" by fastforce
  note k1 = ktime [OF inv k] and m = ktime_memory [OF inv k]
  let ?pid = "tgid_of (v_pid_tgid (view s))"
  from mem obtain files fdt fds where chain:
      "read_ptr H s (get_current_task H s + off_task_files R) = files"
      "read_ptr H s (files + off_files_fdt R) = fdt" "fdt \<noteq> 0"
      "read_ptr H s (fdt + off_fdt_fd R) = fds" "fds \<noteq> 0"
    and slots: "\<forall>i < length table. case table ! i of
          None \<Rightarrow> read_ptr H s (fds + of_nat i * 8) = 0
        | Some dev \<Rightarrow> \<exists>file inode. read_ptr H s (fds + of_nat i * 8) = file \<and> file \<noteq> 0 \<and>
            read_ptr H s (file + off_file_inode R) = inode \<and> read_dev H s (inode + off_inode_rdev R) = dev"
    unfolding task_in_memory_def by blast
  have run1: "(let file = read_ptr H s (fds + fd * 8) in if file = 0 then (0, s1) else
     let rdev = read_dev H s (read_ptr H s (file + off_file_inode R) + off_inode_rdev R)
     in if \<not> is_nvidia_compute_device (drop_bit 20 rdev) (rdev AND 0xfffff) then (0, s1) else
     let (_, s) = add_to_counter H ?pid IOCTL_HIT s1 in (0, s)) = (r, s')"
    using run chain
    unfolding watchdog_ioctl_def Let_def k prod.case conjunct1 [OF m] conjunct2 [OF m] pid_tgid [OF inv]
    by (auto split: if_splits)
  show ?thesis
  proof (cases "table ! unat fd")
    case None
    with slots fd have "read_ptr H s (fds + fd * 8) = 0" by (auto dest: spec [of _ "unat fd"])
    with run1 None k1 show ?thesis by (auto simp: counts_ioctl_def)
  next
    case (Some dev)
    with slots fd obtain fp inode where f: "read_ptr H s (fds + fd * 8) = fp" "fp \<noteq> 0"
      "read_ptr H s (fp + off_file_inode R) = inode" "read_dev H s (inode + off_inode_rdev R) = dev"
      by (auto dest: spec [of _ "unat fd"])
    show ?thesis
    proof (cases "counts_ioctl table fd")
      case True
      obtain r1 s2 where a: "add_to_counter H ?pid IOCTL_HIT s1 = (r1, s2)" by fastforce
      from True have "r = 0" "s' = s2"
        using run1 f Some a by (auto simp: counts_ioctl_def)
      then show ?thesis using add_to_counter_counted [OF _ a] k1 True by auto
    next
      case False
      with run1 f Some k1 show ?thesis by (auto simp: counts_ioctl_def)
    qed
  qed
qed

lemma watchdog_ioctl_device:
  assumes inv: "kinv s" and run: "watchdog_ioctl H R fd s = (r, s')"
  shows "r = 0 \<and> kinv s' \<and> (\<exists>t \<ge> v_clock (view s).
    if on_compute_device H R s fd
    then counted ((view s)\<lparr>v_clock := t\<rparr>) (tgid_of (v_pid_tgid (view s))) IOCTL_HIT (view s')
    else view s' = (view s)\<lparr>v_clock := t\<rparr>)"
proof -
  obtain t s1 where k: "ktime_get_ns H s = (t, s1)" by fastforce
  note k1 = ktime [OF inv k] and m = ktime_memory [OF inv k]
  let ?pid = "tgid_of (v_pid_tgid (view s))"
  obtain r1 s2 where a: "add_to_counter H ?pid IOCTL_HIT s1 = (r1, s2)" by fastforce
  have "r = 0 \<and> s' = (if on_compute_device H R s fd then s2 else s1)"
    using run
    unfolding watchdog_ioctl_def on_compute_device_def fd_device_def Let_def k prod.case conjunct1 [OF m] conjunct2 [OF m]
      pid_tgid [OF inv] decoded_device mult.commute [of 8] a
    by (auto split: if_splits)
  then show ?thesis using add_to_counter_counted [OF _ a] k1 by auto
qed

lemma handle_process_exit_spec:
  assumes "kinv s" and "handle_process_exit H s = (r, s')"
  shows "r = 0 \<and> kinv s' \<and> view s' = (view s)\<lparr>v_watchdog :=
    (v_watchdog (view s))(tgid_of (v_pid_tgid (view s)) := None)\<rparr>"
  using assms watchdog_delete [OF assms(1)] by (auto simp: handle_process_exit_def pid_tgid)

end

section \<open>Properties\<close>

text \<open>Offsets under which the chain of \<open>sample_memory\<close> lies: every member is the first.\<close>

definition sample_offsets :: core_offsets where
  "sample_offsets = \<lparr>off_task_files = 0, off_files_fdt = 0, off_fdt_fd = 0, off_file_inode = 0,
     off_inode_rdev = 0\<rparr>"

lemma sample_memory_words:
  "read_mem sample_memory 8 0x1000 = Some [0, 0x20, 0, 0, 0, 0, 0, 0]"
  "read_mem sample_memory 8 0x2000 = Some [0, 0x30, 0, 0, 0, 0, 0, 0]"
  "read_mem sample_memory 8 0x3000 = Some [0, 0x40, 0, 0, 0, 0, 0, 0]"
  "read_mem sample_memory 8 0x4000 = Some [0, 0x50, 0, 0, 0, 0, 0, 0]"
  "read_mem sample_memory 8 0x5000 = Some [0, 0x60, 0, 0, 0, 0, 0, 0]"
  "read_mem sample_memory 4 0x6000 = Some [0, 0, 0x30, 0x0C]"
  by code_simp+

lemma sample_task_in_memory:
  "task_in_memory (read_ptr reference_kernel sample_kernel) (read_dev reference_kernel sample_kernel)
    sample_offsets (get_current_task reference_kernel sample_kernel) [Some (mkdev 195 0)]"
  by (simp add: task_in_memory_def sample_offsets_def reference_kernel_def sample_kernel_def
      probe_read_def sample_memory_words u64_at_def u32_at_def bslice_def mkdev_def)

text \<open>
  C15: The ioctl probe on a task whose descriptor table lies in memory: it counts one ioctl hit for the
  calling process exactly when the descriptor refers to an NVIDIA compute device, and otherwise only
  reads the clock.
\<close>

lemma watchdog_ioctl_counts:
  assumes "bpf_runtime H kinv view" and "kinv s" and "watchdog_ioctl H R fd s = (r, s')"
    and "task_in_memory (read_ptr H s) (read_dev H s) R (get_current_task H s) table"
    and "unat fd < length table"
  shows "r = 0 \<and> kinv s' \<and> (\<exists>t \<ge> v_clock (view s).
    if (\<exists>dev. table ! unat fd = Some dev \<and>
          is_nvidia_compute_device (drop_bit 20 dev) (take_bit 20 dev))
    then counted ((view s)\<lparr>v_clock := t\<rparr>) (ucast (drop_bit 32 (v_pid_tgid (view s)))) IOCTL_HIT (view s')
    else view s' = (view s)\<lparr>v_clock := t\<rparr>)"
proof -
  have "(0xfffff :: u32) = mask 20" by (simp add: mask_eq_exp_minus_1)
  then have "counts_ioctl table fd \<longleftrightarrow> (\<exists>dev. table ! unat fd = Some dev \<and>
          is_nvidia_compute_device (drop_bit 20 dev) (take_bit 20 dev))"
    by (auto simp: counts_ioctl_def take_bit_eq_mask split: option.splits)
  then show ?thesis using bpf_runtime.watchdog_ioctl_spec [OF assms] by simp
qed

lemma watchdog_ioctl_counts_witness:
  "\<exists>s'. watchdog_ioctl reference_kernel sample_offsets 0 sample_kernel = (0, s') \<and>
     (\<exists>t \<ge> 1000. counted ((ref_view sample_kernel)\<lparr>v_clock := t\<rparr>) 42 IOCTL_HIT (ref_view s'))"
proof -
  obtain r s' where run: "watchdog_ioctl reference_kernel sample_offsets 0 sample_kernel = (r, s')"
    by fastforce
  have "is_nvidia_compute_device (drop_bit 20 (mkdev 195 0)) (take_bit 20 (mkdev 195 0))" by code_simp
  with watchdog_ioctl_counts [OF rk.bpf_runtime_axioms sample_inv run sample_task_in_memory] run
  show ?thesis by (auto simp: sample_view)
qed

text \<open>
  C31: Device classification in the running probe: when the caller's descriptor leads to an inode whose device number
  the kernel composed of a 12-bit major and a 20-bit minor, the probe counts one ioctl hit for the calling process if
  the major is 511 or it is 195 with a minor below 254, and otherwise, like on a descriptor that leads nowhere, only
  reads the clock.
\<close>

lemma device_classification:
  assumes "bpf_runtime H kinv view" and "kinv s" and "watchdog_ioctl H R fd s = (r, s')"
    and "fd_device H R s fd = dev" and "\<forall>d. dev = Some d \<longrightarrow> d = mkdev major minor"
    and "major < 2 ^ 12" and "minor < 2 ^ 20"
  shows "r = 0 \<and> kinv s' \<and> (\<exists>t \<ge> v_clock (view s).
    if dev \<noteq> None \<and> (major = 511 \<or> major = 195 \<and> minor < 254)
    then counted ((view s)\<lparr>v_clock := t\<rparr>) (ucast (drop_bit 32 (v_pid_tgid (view s)))) IOCTL_HIT (view s')
    else view s' = (view s)\<lparr>v_clock := t\<rparr>)"
proof -
  have "is_nvidia_compute_device (drop_bit 20 (mkdev major minor)) (mkdev major minor AND 0xfffff) \<longleftrightarrow>
      major = 511 \<or> major = 195 \<and> minor < 254"
    unfolding mkdev_decode [OF assms(6,7)]
    by (simp add: is_nvidia_compute_device_def NVIDIA_UVM_MAJOR_def NVIDIA_MAJOR_def NVIDIA_MODESET_MINOR_def)
  then have "on_compute_device H R s fd \<longleftrightarrow> dev \<noteq> None \<and> (major = 511 \<or> major = 195 \<and> minor < 254)"
    using assms(4,5) decoded_device [of "mkdev major minor"] by (auto simp: on_compute_device_def split: option.splits)
  then show ?thesis using bpf_runtime.watchdog_ioctl_device [OF assms(1-3)] by simp
qed

text \<open>The same task with the control device 195:255 open: nothing is counted.\<close>

lemma control_device_words:
  "read_mem (sample_memory(0x6000 \<mapsto> 0xFF)) 8 0x1000 = Some [0, 0x20, 0, 0, 0, 0, 0, 0]"
  "read_mem (sample_memory(0x6000 \<mapsto> 0xFF)) 8 0x2000 = Some [0, 0x30, 0, 0, 0, 0, 0, 0]"
  "read_mem (sample_memory(0x6000 \<mapsto> 0xFF)) 8 0x3000 = Some [0, 0x40, 0, 0, 0, 0, 0, 0]"
  "read_mem (sample_memory(0x6000 \<mapsto> 0xFF)) 8 0x4000 = Some [0, 0x50, 0, 0, 0, 0, 0, 0]"
  "read_mem (sample_memory(0x6000 \<mapsto> 0xFF)) 8 0x5000 = Some [0, 0x60, 0, 0, 0, 0, 0, 0]"
  "read_mem (sample_memory(0x6000 \<mapsto> 0xFF)) 4 0x6000 = Some [0xFF, 0, 0x30, 0x0C]"
  by code_simp+

lemma device_classification_witness:
  "\<exists>s'. watchdog_ioctl reference_kernel sample_offsets 0 (sample_kernel\<lparr>k_mem := sample_memory(0x6000 \<mapsto> 0xFF)\<rparr>) = (0, s') \<and>
    v_watchdog (ref_view s') = Map.empty"
proof -
  let ?s = "sample_kernel\<lparr>k_mem := sample_memory(0x6000 \<mapsto> 0xFF)\<rparr>"
  obtain r s' where run: "watchdog_ioctl reference_kernel sample_offsets 0 ?s = (r, s')" by fastforce
  have inv: "ref_inv ?s" by (simp add: ref_inv_def sample_kernel_def)
  have dev: "fd_device reference_kernel sample_offsets ?s 0 = Some (mkdev 195 255)"
    by (simp add: fd_device_def sample_offsets_def reference_kernel_def sample_kernel_def probe_read_def
        control_device_words u64_at_def u32_at_def bslice_def mkdev_def)
  have "ref_view ?s = ref_view sample_kernel" by (simp add: ref_view_def)
  with device_classification [OF rk.bpf_runtime_axioms inv run dev, of 195 255] run show ?thesis by (auto simp: sample_view)
qed

end
