(* ===== verification/Go_Events.thy ===== *)
theory Go_Events
  imports Prelude
begin

text \<open>
  The user-space side of the wire format: the Go structs bpf2go generated for the ring-buffer records
  (\<open>gpuprint_x86_bpfel.go\<close>), their decoding by \<open>encoding/binary\<close>, and the dispatch of the loader's
  read loop (\<open>gpuprint_tracer_loader.go\<close>). \<open>binary.Read\<close> consumes the fields in order; a blank field
  \<open>_\<close> is skipped; a buffer shorter than the struct is an error and longer input is ignored.
\<close>

section \<open>Constants of pkg/types\<close>

definition types_DIR_HTOD :: int where "types_DIR_HTOD = 0"
definition types_DIR_DTOH :: int where "types_DIR_DTOH = 1"
definition types_EVENT_GPU_KERNEL_LAUNCH :: int where "types_EVENT_GPU_KERNEL_LAUNCH = 1"
definition types_EVENT_GPU_MALLOC :: int where "types_EVENT_GPU_MALLOC = 2"
definition types_EVENT_GPU_MEMCPY :: int where "types_EVENT_GPU_MEMCPY = 3"
definition types_EVENT_GPU_STREAM_SYNC :: int where "types_EVENT_GPU_STREAM_SYNC = 4"

lemmas types_consts =
  types_DIR_HTOD_def types_DIR_DTOH_def types_EVENT_GPU_KERNEL_LAUNCH_def
  types_EVENT_GPU_MALLOC_def types_EVENT_GPU_MEMCPY_def types_EVENT_GPU_STREAM_SYNC_def

section \<open>Event structs\<close>

text \<open>The leading fields all four structs share.\<close>

record event_struct =
  Flag :: u8
  Pad :: bytes
  Pid :: u32
  Comm :: bytes

record GpuprintGpuKernelLaunchEventT = event_struct +
  Gridx :: u32
  Gridy :: u32
  Gridz :: u32
  Blockx :: u32
  Blocky :: u32
  Blockz :: u32
  TotalBlocks :: u64
  ThreadsBlock :: u64
  TotalThreads :: u64

record GpuprintGpuMemallocEventT = event_struct +
  ByteSize :: u64

record GpuprintGpuMemcpyEventT = event_struct +
  CopySize :: u64
  Kind :: u8

record GpuprintGpuStreamEventT = event_struct +
  StartTime :: u64
  EndTime :: u64
  DeltaNs :: u64

text \<open>
  The dynamic types an \<open>any\<close> argument of the collectors is switched on; every other type is
  \<open>OtherEvent\<close>. (The size field of a copy is \<open>CopySize\<close>, as record fields are global names.)
\<close>

datatype gpu_event =
    KernelLaunchEvent GpuprintGpuKernelLaunchEventT
  | MemallocEvent GpuprintGpuMemallocEventT
  | MemcpyEvent GpuprintGpuMemcpyEventT
  | StreamEvent GpuprintGpuStreamEventT
  | OtherEvent

section \<open>Decoding\<close>

datatype io_error = EOF | ErrUnexpectedEOF

definition next_u8 :: "bytes \<Rightarrow> u8 \<times> bytes" where "next_u8 bs = (u8_at 0 bs, drop 1 bs)"
definition next_u32 :: "bytes \<Rightarrow> u32 \<times> bytes" where "next_u32 bs = (u32_at 0 bs, drop 4 bs)"
definition next_u64 :: "bytes \<Rightarrow> u64 \<times> bytes" where "next_u64 bs = (u64_at 0 bs, drop 8 bs)"
definition next_bytes :: "nat \<Rightarrow> bytes \<Rightarrow> bytes \<times> bytes" where
  "next_bytes n bs = (take n bs, drop n bs)"

lemmas next_defs = next_u8_def next_u32_def next_u64_def next_bytes_def

text \<open>\<open>io.ReadFull\<close> of a struct of \<open>n\<close> bytes.\<close>

definition read_full :: "nat \<Rightarrow> bytes \<Rightarrow> io_error + bytes" where
  "read_full n bs =
    (if n \<le> length bs then Inr bs else if bs = [] then Inl EOF else Inl ErrUnexpectedEOF)"

definition decode_launch :: "bytes \<Rightarrow> GpuprintGpuKernelLaunchEventT" where
  "decode_launch bs =
    (let (flag, bs) = next_u8 bs; (pad, bs) = next_bytes 3 bs; (pid, bs) = next_u32 bs;
         (comm, bs) = next_bytes 150 bs; (_, bs) = next_bytes 2 bs;
         (gx, bs) = next_u32 bs; (gy, bs) = next_u32 bs; (gz, bs) = next_u32 bs;
         (blx, bs) = next_u32 bs; (bly, bs) = next_u32 bs; (blz, bs) = next_u32 bs;
         (tb, bs) = next_u64 bs; (tpb, bs) = next_u64 bs; (tt, bs) = next_u64 bs
     in \<lparr>Flag = flag, Pad = pad, Pid = pid, Comm = comm, Gridx = gx, Gridy = gy, Gridz = gz,
         Blockx = blx, Blocky = bly, Blockz = blz, TotalBlocks = tb, ThreadsBlock = tpb,
         TotalThreads = tt\<rparr>)"

definition decode_memalloc :: "bytes \<Rightarrow> GpuprintGpuMemallocEventT" where
  "decode_memalloc bs =
    (let (flag, bs) = next_u8 bs; (pad, bs) = next_bytes 3 bs; (pid, bs) = next_u32 bs;
         (comm, bs) = next_bytes 150 bs; (_, bs) = next_bytes 2 bs; (n, bs) = next_u64 bs
     in \<lparr>Flag = flag, Pad = pad, Pid = pid, Comm = comm, ByteSize = n\<rparr>)"

definition decode_memcpy :: "bytes \<Rightarrow> GpuprintGpuMemcpyEventT" where
  "decode_memcpy bs =
    (let (flag, bs) = next_u8 bs; (pad, bs) = next_bytes 3 bs; (pid, bs) = next_u32 bs;
         (comm, bs) = next_bytes 150 bs; (_, bs) = next_bytes 2 bs; (n, bs) = next_u64 bs;
         (kind, bs) = next_u8 bs; (_, bs) = next_bytes 7 bs
     in \<lparr>Flag = flag, Pad = pad, Pid = pid, Comm = comm, CopySize = n, Kind = kind\<rparr>)"

definition decode_stream :: "bytes \<Rightarrow> GpuprintGpuStreamEventT" where
  "decode_stream bs =
    (let (flag, bs) = next_u8 bs; (pad, bs) = next_bytes 3 bs; (pid, bs) = next_u32 bs;
         (comm, bs) = next_bytes 150 bs; (_, bs) = next_bytes 2 bs;
         (t0, bs) = next_u64 bs; (t1, bs) = next_u64 bs; (d, bs) = next_u64 bs
     in \<lparr>Flag = flag, Pad = pad, Pid = pid, Comm = comm, StartTime = t0, EndTime = t1, DeltaNs = d\<rparr>)"

text \<open>The sizes \<open>binary.Read\<close> computes for the structs (a blank field counts).\<close>

definition size_launch :: nat where "size_launch = 1 + 3 + 4 + 150 + 2 + 6 * 4 + 3 * 8"
definition size_memalloc :: nat where "size_memalloc = 1 + 3 + 4 + 150 + 2 + 8"
definition size_memcpy :: nat where "size_memcpy = 1 + 3 + 4 + 150 + 2 + 8 + 1 + 7"
definition size_stream :: nat where "size_stream = 1 + 3 + 4 + 150 + 2 + 3 * 8"

section \<open>The read loop\<close>

text \<open>What one record of the ring buffer leads to.\<close>

datatype outcome =
    Dispatch gpu_event
  | EmptyRecord
  | ParseError u8 io_error
  | UnknownFlag u8

definition dispatch :: "(bytes \<Rightarrow> 'r) \<Rightarrow> ('r \<Rightarrow> gpu_event) \<Rightarrow> nat \<Rightarrow> u8 \<Rightarrow> bytes \<Rightarrow> outcome" where
  "dispatch decode ev n flag bs =
    (case read_full n bs of Inl err \<Rightarrow> ParseError flag err | Inr bs \<Rightarrow> Dispatch (ev (decode bs)))"

definition handle_record :: "bytes \<Rightarrow> outcome" where
  "handle_record raw =
    (if length raw < 1 then EmptyRecord
     else let flag = raw ! 0 in
       if uint flag = types_EVENT_GPU_KERNEL_LAUNCH then
         dispatch decode_launch KernelLaunchEvent size_launch flag raw
       else if uint flag = types_EVENT_GPU_MALLOC then
         dispatch decode_memalloc MemallocEvent size_memalloc flag raw
       else if uint flag = types_EVENT_GPU_MEMCPY then
         dispatch decode_memcpy MemcpyEvent size_memcpy flag raw
       else if uint flag = types_EVENT_GPU_STREAM_SYNC then
         dispatch decode_stream StreamEvent size_stream flag raw
       else UnknownFlag flag)"

text \<open>
  One turn of the loop is a cancelled context or the result of \<open>Rb.Read\<close>: a record, the closed
  reader, or another error (which is logged and skipped). The loop hands the decoded events, in
  order, to the collectors and ends at cancellation or at the closed reader.
\<close>

datatype turn = CtxDone | ReadRecord bytes | ReadClosed | ReadError

fun reader_loop :: "turn list \<Rightarrow> gpu_event list" where
  "reader_loop [] = []"
| "reader_loop (CtxDone # ts) = []"
| "reader_loop (ReadClosed # ts) = []"
| "reader_loop (ReadError # ts) = reader_loop ts"
| "reader_loop (ReadRecord raw # ts) =
     (case handle_record raw of
        Dispatch ev \<Rightarrow> ev # reader_loop ts
      | EmptyRecord \<Rightarrow> reader_loop ts
      | ParseError _ _ \<Rightarrow> reader_loop ts
      | UnknownFlag _ \<Rightarrow> reader_loop ts)"

section \<open>Decoding reads the fields at their offsets\<close>

lemma at_drop [simp]:
  "u8_at off (drop n bs) = u8_at (n + off) bs"
  "u32_at off (drop n bs) = u32_at (n + off) bs"
  "u64_at off (drop n bs) = u64_at (n + off) bs"
  "take m (drop n bs) = bslice n m bs"
  "bslice off m (drop n bs) = bslice (n + off) m bs"
  by (simp_all add: at_defs bslice_def add.commute)

lemma decode_launch_fields:
  "decode_launch bs = \<lparr>Flag = u8_at 0 bs, Pad = bslice 1 3 bs, Pid = u32_at 4 bs,
     Comm = bslice 8 150 bs, Gridx = u32_at 160 bs, Gridy = u32_at 164 bs, Gridz = u32_at 168 bs,
     Blockx = u32_at 172 bs, Blocky = u32_at 176 bs, Blockz = u32_at 180 bs,
     TotalBlocks = u64_at 184 bs, ThreadsBlock = u64_at 192 bs, TotalThreads = u64_at 200 bs\<rparr>"
  by (simp add: decode_launch_def next_defs Let_def)

lemma decode_memalloc_fields:
  "decode_memalloc bs = \<lparr>Flag = u8_at 0 bs, Pad = bslice 1 3 bs, Pid = u32_at 4 bs,
     Comm = bslice 8 150 bs, ByteSize = u64_at 160 bs\<rparr>"
  by (simp add: decode_memalloc_def next_defs Let_def)

lemma decode_memcpy_fields:
  "decode_memcpy bs = \<lparr>Flag = u8_at 0 bs, Pad = bslice 1 3 bs, Pid = u32_at 4 bs,
     Comm = bslice 8 150 bs, CopySize = u64_at 160 bs, Kind = u8_at 168 bs\<rparr>"
  by (simp add: decode_memcpy_def next_defs Let_def)

lemma decode_stream_fields:
  "decode_stream bs = \<lparr>Flag = u8_at 0 bs, Pad = bslice 1 3 bs, Pid = u32_at 4 bs,
     Comm = bslice 8 150 bs, StartTime = u64_at 160 bs, EndTime = u64_at 168 bs,
     DeltaNs = u64_at 176 bs\<rparr>"
  by (simp add: decode_stream_def next_defs Let_def)

lemma u8_at_nth: "off < length bs \<Longrightarrow> u8_at off bs = bs ! off"
  by (cases "drop off bs") (auto simp: u8_at_def bslice_def hd_drop_conv_nth [symmetric])

lemmas handle_record_simps =
  handle_record_def dispatch_def read_full_def types_consts
  size_launch_def size_memalloc_def size_memcpy_def size_stream_def

lemma reader_loop_skips:
  "(\<And>ev. handle_record raw \<noteq> Dispatch ev) \<Longrightarrow> reader_loop (ReadRecord raw # ts) = reader_loop ts"
  by (simp split: outcome.splits)

section \<open>Properties\<close>

text \<open>
  Every record leads to exactly one outcome: no bytes are an empty record; a first byte other than
  the four event types is an unknown flag; a record shorter than the struct of its type is a parse
  error; everything else is dispatched as the type its first byte names.
\<close>

lemma record_outcomes:
  "handle_record raw =
    (if raw = [] then EmptyRecord
     else if uint (raw ! 0) \<notin> {1, 2, 3, 4} then UnknownFlag (raw ! 0)
     else if length raw < (if uint (raw ! 0) = 1 then 208 else if uint (raw ! 0) = 2 then 168
                           else if uint (raw ! 0) = 3 then 176 else 184)
       then ParseError (raw ! 0) ErrUnexpectedEOF
     else Dispatch (if uint (raw ! 0) = 1 then KernelLaunchEvent (decode_launch raw)
                    else if uint (raw ! 0) = 2 then MemallocEvent (decode_memalloc raw)
                    else if uint (raw ! 0) = 3 then MemcpyEvent (decode_memcpy raw)
                    else StreamEvent (decode_stream raw)))"
  by (cases raw) (simp_all add: handle_record_simps Let_def)

text \<open>What a turn of the loop delivers, taken alone.\<close>

definition turn_events :: "turn \<Rightarrow> gpu_event list" where
  "turn_events t = (case t of
     ReadRecord raw \<Rightarrow> (case handle_record raw of Dispatch ev \<Rightarrow> [ev] | _ \<Rightarrow> [])
   | _ \<Rightarrow> [])"

text \<open>
  The read loop hands over the event of every decodable record, in order, whatever failed
  reads and bad records lie between them, up to the first cancellation or closed reader and nothing after it.
\<close>

lemma reader_delivers:
  assumes "\<forall>t \<in> set ts. t \<noteq> CtxDone \<and> t \<noteq> ReadClosed" and "stop \<in> {CtxDone, ReadClosed}"
  shows "reader_loop (ts @ stop # us) = concat (map turn_events ts)"
  using assms(1)
proof (induction ts)
  case Nil
  then show ?case using assms(2) by auto
next
  case (Cons t ts)
  then show ?case by (cases t) (auto simp: turn_events_def split: outcome.splits)
qed

lemma reader_delivers_witness:
  "reader_loop ([ReadError, ReadRecord [9], ReadRecord (2 # replicate 167 0)] @ ReadClosed # [ReadRecord [1]]) =
    [MemallocEvent (decode_memalloc (2 # replicate 167 0))]"
  using reader_delivers [of "[ReadError, ReadRecord [9], ReadRecord (2 # replicate 167 0)]" ReadClosed
      "[ReadRecord [1]]"]
  by (simp add: turn_events_def handle_record_simps Let_def)

end
