(* ===== verification/Wire_Format.thy ===== *)
theory Wire_Format
  imports Watchdog_Probe Go_Events
begin

text \<open>
  The contract between \<open>gpuprint.bpf.c\<close> and the Go loader: a record as a probe fills it decodes to
  the Go struct with the same values, whatever bytes the ring buffer held before.
\<close>

lemmas go_sizes = size_launch_def size_memalloc_def size_memcpy_def size_stream_def

lemma sizes_agree:
  "sizeof gpu_kernel_launch_event_t = size_launch"
  "sizeof gpu_memalloc_event_t = size_memalloc"
  "sizeof gpu_memcpy_event_t = size_memcpy"
  "sizeof gpu_stream_event_t = size_stream"
  by (simp_all add: event_layout go_sizes)

lemma header_fields:
  assumes "event_header T flag pid c e" and "sizeof T \<ge> 168"
    and "offsetof T ''flag'' = 0" "offsetof T ''pid'' = 4" "offsetof T ''comm'' = 8"
  shows "e ! 0 = flag" "u8_at 0 e = flag" "u32_at 4 e = pid" "bslice 8 150 e = c" "e \<noteq> []"
    "length e = sizeof T"
proof -
  have len: "0 < length e" and len': "length e = sizeof T"
    using assms by (auto simp: event_header_def)
  then show "e \<noteq> []" "length e = sizeof T" by auto
  show "u8_at 0 e = flag" "u32_at 4 e = pid" "bslice 8 150 e = c"
    using assms by (simp_all add: event_header_def TASK_COMM_SIZE_def)
  then show "e ! 0 = flag" using u8_at_nth [OF len] by simp
qed

lemma launch_decodes:
  assumes "launch_record pid c (gx, gy, gz) (blx, bly, blz) e"
  shows "\<exists>r. handle_record e = Dispatch (KernelLaunchEvent r) \<and> Pid r = pid \<and> Comm r = c \<and>
    Gridx r = ucast gx \<and> Gridy r = ucast gy \<and> Gridz r = ucast gz \<and>
    Blockx r = ucast blx \<and> Blocky r = ucast bly \<and> Blockz r = ucast blz \<and>
    TotalBlocks r = gx * gy * gz \<and> ThreadsBlock r = blx * bly * blz \<and>
    TotalThreads r = gx * gy * gz * (blx * bly * blz)"
proof -
  have h: "event_header gpu_kernel_launch_event_t EVENT_GPU_KERNEL_LAUNCH pid c e"
    using assms by (simp add: launch_record_def Let_def)
  note f = header_fields [OF h, simplified event_layout, simplified]
  have d: "handle_record e = Dispatch (KernelLaunchEvent (decode_launch e))"
    using f by (simp add: handle_record_simps event_consts Let_def)
  show ?thesis
    by (rule exI [of _ "decode_launch e"])
      (use d f assms in \<open>simp add: decode_launch_fields launch_record_def event_layout Let_def\<close>)
qed

lemma memalloc_decodes:
  assumes "memalloc_record pid c n e"
  shows "\<exists>r. handle_record e = Dispatch (MemallocEvent r) \<and> Pid r = pid \<and> Comm r = c \<and> ByteSize r = n"
proof -
  have h: "event_header gpu_memalloc_event_t EVENT_GPU_MALLOC pid c e"
    using assms by (simp add: memalloc_record_def Let_def)
  note f = header_fields [OF h, simplified event_layout, simplified]
  have d: "handle_record e = Dispatch (MemallocEvent (decode_memalloc e))"
    using f by (simp add: handle_record_simps event_consts Let_def)
  show ?thesis
    by (rule exI [of _ "decode_memalloc e"])
      (use d f assms in \<open>simp add: decode_memalloc_fields memalloc_record_def event_layout Let_def\<close>)
qed

lemma memcpy_decodes:
  assumes "memcpy_record pid c n dir e"
  shows "\<exists>r. handle_record e = Dispatch (MemcpyEvent r) \<and> Pid r = pid \<and> Comm r = c \<and>
    CopySize r = n \<and> Kind r = dir"
proof -
  have h: "event_header gpu_memcpy_event_t EVENT_GPU_MEMCPY pid c e"
    using assms by (simp add: memcpy_record_def Let_def)
  note f = header_fields [OF h, simplified event_layout, simplified]
  have d: "handle_record e = Dispatch (MemcpyEvent (decode_memcpy e))"
    using f by (simp add: handle_record_simps event_consts Let_def)
  show ?thesis
    by (rule exI [of _ "decode_memcpy e"])
      (use d f assms in \<open>simp add: decode_memcpy_fields memcpy_record_def event_layout Let_def\<close>)
qed

lemma stream_decodes:
  assumes "stream_record pid c t0 t1 e"
  shows "\<exists>r. handle_record e = Dispatch (StreamEvent r) \<and> Pid r = pid \<and> Comm r = c \<and>
    StartTime r = t0 \<and> EndTime r = t1 \<and> DeltaNs r = t1 - t0"
proof -
  have h: "event_header gpu_stream_event_t EVENT_GPU_STREAM_SYNC pid c e"
    using assms by (simp add: stream_record_def Let_def)
  note f = header_fields [OF h, simplified event_layout, simplified]
  have d: "handle_record e = Dispatch (StreamEvent (decode_stream e))"
    using f by (simp add: handle_record_simps event_consts Let_def)
  show ?thesis
    by (rule exI [of _ "decode_stream e"])
      (use d f assms in \<open>simp add: decode_stream_fields stream_record_def event_layout Let_def\<close>)
qed

section \<open>Properties\<close>

text \<open>
  C13: A launch probe that gets a ring-buffer slot submits one record, and the loader decodes that record
  to a kernel-launch event of the calling process with the grid and block dimensions of the call and their
  products; the call is counted as a uprobe hit. Without a slot the probe changes nothing.
\<close>

lemma launch_event_decodes:
  assumes "bpf_runtime H kinv view" and "kinv s"
    and "handle_cuLaunchkernel H sp func gx gy gz blx bly s = (r, s')"
  shows "r = 0 \<and> kinv s' \<and>
    (case ringbuf_reserve H (sizeof gpu_kernel_launch_event_t) s of
       None \<Rightarrow> s' = s
     | Some (_, s1) \<Rightarrow>
         (let pid = ucast (drop_bit 32 (v_pid_tgid (view s))); blz = u64_at 0 (probe_read_user H 8 (sp + 8) s1)
          in \<exists>e ev. submitted (view s) pid e (view s') \<and>
            handle_record e = Dispatch (KernelLaunchEvent ev) \<and> Pid ev = pid \<and> comm_field (Comm ev) \<and>
            Gridx ev = ucast gx \<and> Gridy ev = ucast gy \<and> Gridz ev = ucast gz \<and>
            Blockx ev = ucast blx \<and> Blocky ev = ucast bly \<and> Blockz ev = ucast blz \<and>
            TotalBlocks ev = gx * gy * gz \<and> ThreadsBlock ev = blx * bly * blz \<and>
            TotalThreads ev = gx * gy * gz * (blx * bly * blz)))"
  using bpf_runtime.handle_cuLaunchkernel_spec [OF assms] unfolding Let_def
  by (auto split: option.splits dest!: launch_decodes)

lemma launch_event_decodes_witness:
  "\<exists>s' e ev. handle_cuLaunchkernel reference_kernel 0 0 2 3 1 32 4 sample_kernel = (0, s') \<and>
     submitted (ref_view sample_kernel) 42 e (ref_view s') \<and>
     handle_record e = Dispatch (KernelLaunchEvent ev) \<and> Pid ev = 42 \<and> Gridy ev = 3 \<and> TotalBlocks ev = 6"
proof -
  obtain r s' where run: "handle_cuLaunchkernel reference_kernel 0 0 2 3 1 32 4 sample_kernel = (r, s')"
    by fastforce
  have "ringbuf_reserve reference_kernel (sizeof gpu_kernel_launch_event_t) sample_kernel =
    Some (replicate 208 0xAA, sample_kernel)" by (simp add: event_layout sample_reserve)
  with launch_event_decodes [OF rk.bpf_runtime_axioms sample_inv run] run show ?thesis
    by (auto simp: sample_view Let_def)
qed

text \<open>
  An allocation probe that gets a slot submits one record that the loader decodes to an allocation
  event of the calling process with the requested size, and counts a uprobe hit; without a slot it
  changes nothing.
\<close>

lemma memalloc_event_decodes:
  assumes "bpf_runtime H kinv view" and "kinv s" and "handle_cuMemAlloc H devptr n s = (r, s')"
  shows "r = 0 \<and> kinv s' \<and>
    (case ringbuf_reserve H (sizeof gpu_memalloc_event_t) s of
       None \<Rightarrow> s' = s
     | Some _ \<Rightarrow>
         (let pid = ucast (drop_bit 32 (v_pid_tgid (view s)))
          in \<exists>e ev. submitted (view s) pid e (view s') \<and>
            handle_record e = Dispatch (MemallocEvent ev) \<and> Pid ev = pid \<and> comm_field (Comm ev) \<and>
            ByteSize ev = n))"
  using bpf_runtime.handle_cuMemAlloc_spec [OF assms] unfolding Let_def
  by (auto split: option.splits dest!: memalloc_decodes)

lemma memalloc_event_decodes_witness:
  "\<exists>s' e ev. handle_cuMemAlloc reference_kernel 0 4096 sample_kernel = (0, s') \<and>
     submitted (ref_view sample_kernel) 42 e (ref_view s') \<and>
     handle_record e = Dispatch (MemallocEvent ev) \<and> Pid ev = 42 \<and> ByteSize ev = 4096"
proof -
  obtain r s' where run: "handle_cuMemAlloc reference_kernel 0 4096 sample_kernel = (r, s')" by fastforce
  have "ringbuf_reserve reference_kernel (sizeof gpu_memalloc_event_t) sample_kernel =
    Some (replicate 168 0xAA, sample_kernel)" by (simp add: event_layout sample_reserve)
  with memalloc_event_decodes [OF rk.bpf_runtime_axioms sample_inv run] run show ?thesis
    by (auto simp: sample_view Let_def)
qed

text \<open>
  The Go structs have the sizes of the C records: \<open>binary.Read\<close> of a record consumes exactly the
  bytes the probe reserved, padding included.
\<close>

lemma struct_sizes_agree:
  "sizeof gpu_kernel_launch_event_t = size_launch \<and> sizeof gpu_memalloc_event_t = size_memalloc \<and>
   sizeof gpu_memcpy_event_t = size_memcpy \<and> sizeof gpu_stream_event_t = size_stream"
  by (simp add: sizes_agree)

end
