(* ===== verification/Probe_System.thy ===== *)
theory Probe_System
  imports Wire_Format
begin

text \<open>
  The kernel side as a transition system: any probe may fire at any time with any arguments, the
  scheduler may switch to another thread, CPU or later time between probes, and user space may take the
  oldest record. Invariants of the reachable states follow from the effect of each probe, and the
  records submitted in an execution are related to the hit counters of the watchdog map.
\<close>

section \<open>Probe calls and steps\<close>

datatype probe_call =
    LaunchKernel u64 u64 u64 u64 u64 u64 u64
  | MemAlloc u64 u64
  | MemcpyHtoD u64 u64 u64
  | MemcpyDtoH u64 u64 u64
  | MemcpyHtoDAsync u64 u64 u64 u64
  | MemcpyDtoHAsync u64 u64 u64 u64
  | StreamSync u64
  | StreamSyncRet
  | CtxSync
  | CtxSyncRet
  | Ioctl u64
  | ProcessExit

fun run_probe :: "'k bpf \<Rightarrow> core_offsets \<Rightarrow> probe_call \<Rightarrow> 'k \<Rightarrow> int \<times> 'k" where
  "run_probe H R (LaunchKernel sp f gx gy gz blx bly) s = handle_cuLaunchkernel H sp f gx gy gz blx bly s"
| "run_probe H R (MemAlloc p n) s = handle_cuMemAlloc H p n s"
| "run_probe H R (MemcpyHtoD d p n) s = handle_cuMemcpy_htod H d p n s"
| "run_probe H R (MemcpyDtoH d p n) s = handle_cuMemcpy_dtoh H d p n s"
| "run_probe H R (MemcpyHtoDAsync d p n st) s = handle_cuMemcpy_htod_async H d p n st s"
| "run_probe H R (MemcpyDtoHAsync d p n st) s = handle_cuMemcpy_dtohAsync H d p n st s"
| "run_probe H R (StreamSync st) s = handle_cuStreamSync H st s"
| "run_probe H R StreamSyncRet s = handle_cuStreamSynchronize_ret H s"
| "run_probe H R CtxSync s = handle_cuCtxSync H s"
| "run_probe H R CtxSyncRet s = handle_cuCtxSync_ret H s"
| "run_probe H R (Ioctl fd) s = watchdog_ioctl H R fd s"
| "run_probe H R ProcessExit s = handle_process_exit H s"

text \<open>What a context switch leaves alone.\<close>

definition switched :: "kview \<Rightarrow> kview \<Rightarrow> bool" where
  "switched v v' \<longleftrightarrow> v_starts v' = v_starts v \<and> v_watchdog v' = v_watchdog v \<and>
     v_ring v' = v_ring v \<and> v_ncpu v' = v_ncpu v \<and> v_clock v \<le> v_clock v'"

text \<open>
  Executions from \<open>s\<close> to \<open>s'\<close>, with the records submitted on the way and the processes of which
  a thread exited.
\<close>

inductive kexec ::
  "'k bpf \<Rightarrow> core_offsets \<Rightarrow> ('k \<Rightarrow> bool) \<Rightarrow> ('k \<Rightarrow> kview) \<Rightarrow> 'k \<Rightarrow> bytes list \<Rightarrow> u32 set \<Rightarrow> 'k \<Rightarrow> bool"
  for H R kinv view s where
  start: "kinv s \<Longrightarrow> kexec H R kinv view s [] {} s"
| probe: "kexec H R kinv view s log ex s1 \<Longrightarrow> call \<noteq> ProcessExit \<Longrightarrow> run_probe H R call s1 = (r, s2) \<Longrightarrow>
    kexec H R kinv view s (log @ drop (length (v_ring (view s1))) (v_ring (view s2))) ex s2"
| exit: "kexec H R kinv view s log ex s1 \<Longrightarrow> handle_process_exit H s1 = (r, s2) \<Longrightarrow>
    kexec H R kinv view s log (insert (tgid_of (v_pid_tgid (view s1))) ex) s2"
| switch: "kexec H R kinv view s log ex s1 \<Longrightarrow> kinv s2 \<Longrightarrow> switched (view s1) (view s2) \<Longrightarrow>
    kexec H R kinv view s log ex s2"
| consume: "kexec H R kinv view s log ex s1 \<Longrightarrow> ringbuf_read H s1 = Some (e, s2) \<Longrightarrow>
    kexec H R kinv view s log ex s2"

section \<open>Invariants\<close>

text \<open>A record user space will accept; the times of a synchronisation are in order.\<close>

definition good_event :: "gpu_event \<Rightarrow> bool" where
  "good_event ev \<longleftrightarrow> (case ev of
      OtherEvent \<Rightarrow> False
    | StreamEvent r \<Rightarrow> StartTime r \<le> EndTime r \<and> DeltaNs r = EndTime r - StartTime r
    | MemcpyEvent r \<Rightarrow> Kind r = DIR_HTOD \<or> Kind r = DIR_DTOH
    | _ \<Rightarrow> True)"

definition good_record :: "bytes \<Rightarrow> bool" where
  "good_record e \<longleftrightarrow> (\<exists>ev. handle_record e = Dispatch ev \<and> good_event ev)"

text \<open>
  A per-CPU entry carries its creation time in the slot of the CPU that created it; every other
  slot has a zero \<open>first_seen_time\<close>.
\<close>

definition stamped :: "u64 \<Rightarrow> ioctl_watchdog_event_t list \<Rightarrow> bool" where
  "stamped now l \<longleftrightarrow> (\<exists>c < length l. \<exists>t \<le> now.
     map first_seen_time l = (replicate (length l) 0)[c := t])"

definition sys_inv :: "kview \<Rightarrow> bool" where
  "sys_inv v \<longleftrightarrow> (\<forall>tid t. v_starts v tid = Some t \<longrightarrow> t \<le> v_clock v) \<and>
     (\<forall>e \<in> set (v_ring v). good_record e) \<and>
     (\<forall>pid l. v_watchdog v pid = Some l \<longrightarrow> stamped (v_clock v) l)"

definition initial_view :: "kview \<Rightarrow> bool" where
  "initial_view v \<longleftrightarrow> v_starts v = Map.empty \<and> v_watchdog v = Map.empty \<and> v_ring v = []"

lemma sys_inv_initial: "initial_view v \<Longrightarrow> sys_inv v"
  by (simp add: sys_inv_def initial_view_def)

lemma stamped_mono: "stamped now l \<Longrightarrow> now \<le> now' \<Longrightarrow> stamped now' l"
  unfolding stamped_def using order_trans by blast

lemma hit_first_seen [simp]: "first_seen_time (hit h w) = first_seen_time w"
  by (simp add: hit_def)

lemma stamped_hit: "stamped now l \<Longrightarrow> stamped now (l[c := hit h (l ! c)])"
proof (cases "c < length l")
  case True
  assume "stamped now l"
  moreover have "map first_seen_time (l[c := hit h (l ! c)]) = map first_seen_time l"
    using True by (simp add: map_update list_update_same_conv)
  ultimately show ?thesis by (simp add: stamped_def)
qed (simp add: list_update_beyond)

lemma stamped_fresh:
  "c < n \<Longrightarrow> t \<le> now \<Longrightarrow> first_seen_time w = t \<Longrightarrow> stamped now (fresh_percpu n c w)"
  by (auto simp: stamped_def fresh_percpu_def zero_watchdog_def map_update intro!: exI [of _ c])

lemma good_records:
  "launch_record pid c g b e \<Longrightarrow> good_record e"
  "memalloc_record pid c n e \<Longrightarrow> good_record e"
  "memcpy_record pid c n DIR_HTOD e \<Longrightarrow> good_record e"
  "memcpy_record pid c n DIR_DTOH e \<Longrightarrow> good_record e"
  "t0 \<le> t1 \<Longrightarrow> stream_record pid c t0 t1 e \<Longrightarrow> good_record e"
  using launch_decodes [of pid c "fst g" "fst (snd g)" "snd (snd g)" "fst b" "fst (snd b)" "snd (snd b)" e]
    memalloc_decodes [of pid c n e] memcpy_decodes [of pid c n _ e] stream_decodes [of pid c t0 t1 e]
  by (force simp: good_record_def good_event_def)+

lemma sys_inv_clock: "sys_inv v \<Longrightarrow> v_clock v \<le> t \<Longrightarrow> sys_inv (v\<lparr>v_clock := t\<rparr>)"
  unfolding sys_inv_def by simp (meson order_trans stamped_mono)

lemma sys_inv_entry:
  "sys_inv v \<Longrightarrow> stamped (v_clock v) l \<Longrightarrow> sys_inv (v\<lparr>v_watchdog := (v_watchdog v)(pid \<mapsto> l)\<rparr>)"
  by (auto simp: sys_inv_def)

text \<open>A counted hit keeps the invariant.\<close>

lemma sys_inv_counted:
  assumes inv: "sys_inv v" and c: "counted v pid h v'" and cpu: "v_cpu v < v_ncpu v"
  shows "sys_inv v'"
proof (cases "v_watchdog v pid")
  case (Some l)
  with inv have "stamped (v_clock v) l" by (simp add: sys_inv_def)
  from sys_inv_entry [OF inv stamped_hit [OF this]] c Some show ?thesis
    by (simp add: counted_def)
next
  case None
  let ?z = "\<lambda>t. \<lparr>ioctl_hit_count = 0, uprobe_hit_count = 0, first_seen_time = t\<rparr>"
  from c None obtain t where t: "v_clock v \<le> t" and v': "v' = v\<lparr>v_clock := t\<rparr> \<or>
    v' = v\<lparr>v_clock := t, v_watchdog := (v_watchdog v)(pid \<mapsto>
      fresh_percpu (v_ncpu v) (v_cpu v) (hit h (?z t)))\<rparr>"
    by (auto simp: counted_def)
  have "stamped t (fresh_percpu (v_ncpu v) (v_cpu v) (hit h (?z t)))"
    using cpu by (intro stamped_fresh) auto
  with sys_inv_entry [OF sys_inv_clock [OF inv t], of _ pid] sys_inv_clock [OF inv t] v'
  show ?thesis by auto
qed

lemma sys_inv_append:
  "sys_inv v \<Longrightarrow> good_record e \<Longrightarrow> sys_inv (v\<lparr>v_ring := v_ring v @ [e]\<rparr>)"
  by (auto simp: sys_inv_def)

lemma sys_inv_submitted:
  "sys_inv v \<Longrightarrow> good_record e \<Longrightarrow> v_cpu v < v_ncpu v \<Longrightarrow> submitted v pid e v' \<Longrightarrow> sys_inv v'"
  unfolding submitted_def using sys_inv_counted [OF sys_inv_append] by simp

section \<open>The effect of any probe\<close>

text \<open>What one probe other than process exit can do to the observable state.\<close>

definition record_pid :: "bytes \<Rightarrow> u32" where
  "record_pid e = u32_at 4 e"

inductive probe_effect :: "kview \<Rightarrow> kview \<Rightarrow> bool" where
  dropped: "probe_effect v v"
| clock: "v_clock v \<le> t \<Longrightarrow> probe_effect v (v\<lparr>v_clock := t\<rparr>)"
| started: "v_clock v \<le> t \<Longrightarrow>
    probe_effect v (v\<lparr>v_clock := t, v_starts := (v_starts v)(v_pid_tgid v \<mapsto> t)\<rparr>)"
| ioctl: "v_clock v \<le> t \<Longrightarrow> counted (v\<lparr>v_clock := t\<rparr>) (tgid_of (v_pid_tgid v)) IOCTL_HIT v' \<Longrightarrow>
    probe_effect v v'"
| event: "good_record e \<Longrightarrow> record_pid e = tgid_of (v_pid_tgid v) \<Longrightarrow>
    submitted v (tgid_of (v_pid_tgid v)) e v' \<Longrightarrow> probe_effect v v'"
| sync: "v_clock v \<le> t \<Longrightarrow> v_starts v (v_pid_tgid v) = Some t0 \<Longrightarrow>
    stream_record (tgid_of (v_pid_tgid v)) c t0 t e \<Longrightarrow>
    submitted (v\<lparr>v_clock := t, v_starts := (v_starts v)(v_pid_tgid v := None)\<rparr>)
      (tgid_of (v_pid_tgid v)) e v' \<Longrightarrow> probe_effect v v'"

lemma record_pids:
  "launch_record pid c g b e \<Longrightarrow> record_pid e = pid"
  "memalloc_record pid c n e \<Longrightarrow> record_pid e = pid"
  "memcpy_record pid c n dir e \<Longrightarrow> record_pid e = pid"
  "stream_record pid c t0 t1 e \<Longrightarrow> record_pid e = pid"
  by (auto simp: record_pid_def record_defs event_layout Let_def split: prod.splits)

context bpf_runtime
begin

lemma watchdog_ioctl_effect:
  assumes inv: "kinv s" and run: "watchdog_ioctl H R fd s = (r, s')"
  shows "r = 0 \<and> kinv s' \<and> probe_effect (view s) (view s')"
proof -
  obtain t s1 where k: "ktime_get_ns H s = (t, s1)" by fastforce
  note k1 = ktime [OF inv k]
  let ?pid = "tgid_of (v_pid_tgid (view s))"
  obtain r1 s2 where a: "add_to_counter H ?pid IOCTL_HIT s1 = (r1, s2)" by fastforce
  have "r = 0 \<and> (s' = s1 \<or> s' = s2)"
    using run by (auto simp: watchdog_ioctl_def k a pid_tgid [OF inv] Let_def split: if_splits)
  moreover have "probe_effect (view s) (view s1)" using k1 by (auto intro: probe_effect.clock)
  moreover have "kinv s2 \<and> probe_effect (view s) (view s2)"
    using add_to_counter_counted [OF conjunct1 [OF k1] a] k1 by (auto intro: probe_effect.ioctl)
  ultimately show ?thesis using k1 by auto
qed

lemma event_effect:
  assumes "case rv of None \<Rightarrow> s' = s | Some _ \<Rightarrow> \<exists>e c. comm_field c \<and> P c e \<and>
      submitted (view s) (tgid_of (v_pid_tgid (view s))) e (view s')"
    and "\<And>e c. P c e \<Longrightarrow> good_record e \<and> record_pid e = tgid_of (v_pid_tgid (view s))"
  shows "probe_effect (view s) (view s')"
  using assms by (auto split: option.splits intro: probe_effect.dropped probe_effect.event)

lemma sync_start_effect:
  assumes "kinv s" and "handle_cuStreamSync H st s = (r, s')"
  shows "r = 0 \<and> kinv s' \<and> probe_effect (view s) (view s')"
  using handle_cuStreamSync_spec [OF assms]
  by (auto intro: probe_effect.clock probe_effect.started)

lemma sync_ret_effect:
  assumes "kinv s" and "handle_cuStreamSynchronize_ret H s = (r, s')"
  shows "r = 0 \<and> kinv s' \<and> probe_effect (view s) (view s')"
  using handle_cuStreamSynchronize_ret_spec [OF assms]
  by (auto split: option.splits intro: probe_effect.dropped probe_effect.sync)

lemma run_probe_effect:
  assumes inv: "kinv s" and call: "call \<noteq> ProcessExit" and run: "run_probe H R call s = (r, s')"
  shows "r = 0 \<and> kinv s' \<and> probe_effect (view s) (view s')"
proof (cases call)
  case (LaunchKernel sp f gx gy gz blx bly)
  then have run': "handle_cuLaunchkernel H sp f gx gy gz blx bly s = (r, s')" using run by simp
  note spec = handle_cuLaunchkernel_spec [OF inv run']
  have "probe_effect (view s) (view s')"
  proof (cases "ringbuf_reserve H (sizeof gpu_kernel_launch_event_t) s")
    case None
    then show ?thesis using spec by (auto intro: probe_effect.dropped)
  next
    case (Some p)
    then show ?thesis using spec
      by (auto split: prod.splits intro!: probe_effect.event dest: good_records(1) record_pids(1))
  qed
  then show ?thesis using spec by simp
next
  case (MemAlloc p n)
  then have run': "handle_cuMemAlloc H p n s = (r, s')" using run by simp
  note spec = handle_cuMemAlloc_spec [OF inv run']
  then show ?thesis
    by (auto intro: event_effect [where P = "\<lambda>c. memalloc_record (tgid_of (v_pid_tgid (view s))) c n"]
        good_records record_pids)
next
  case (MemcpyHtoD d p n)
  then have run': "handle_cuMemcpy_htod H d p n s = (r, s')" using run by simp
  note spec = handle_cuMemcpy_htod_spec [OF inv run']
  then show ?thesis
    by (auto intro: event_effect [where P = "\<lambda>c. memcpy_record (tgid_of (v_pid_tgid (view s))) c n DIR_HTOD"]
        good_records record_pids)
next
  case (MemcpyHtoDAsync d p n st)
  then have run': "handle_cuMemcpy_htod H d p n s = (r, s')" using run by (simp add: memcpy_async_same)
  note spec = handle_cuMemcpy_htod_spec [OF inv run']
  then show ?thesis
    by (auto intro: event_effect [where P = "\<lambda>c. memcpy_record (tgid_of (v_pid_tgid (view s))) c n DIR_HTOD"]
        good_records record_pids)
next
  case (MemcpyDtoH d p n)
  then have run': "handle_cuMemcpy_dtoh H d p n s = (r, s')" using run by simp
  note spec = handle_cuMemcpy_dtoh_spec [OF inv run']
  then show ?thesis
    by (auto intro: event_effect [where P = "\<lambda>c. memcpy_record (tgid_of (v_pid_tgid (view s))) c n DIR_DTOH"]
        good_records record_pids)
next
  case (MemcpyDtoHAsync d p n st)
  then have run': "handle_cuMemcpy_dtoh H d p n s = (r, s')" using run by (simp add: memcpy_async_same)
  note spec = handle_cuMemcpy_dtoh_spec [OF inv run']
  then show ?thesis
    by (auto intro: event_effect [where P = "\<lambda>c. memcpy_record (tgid_of (v_pid_tgid (view s))) c n DIR_DTOH"]
        good_records record_pids)
next
  case (StreamSync st)
  then show ?thesis using run sync_start_effect [OF inv] by simp
next
  case CtxSync
  then show ?thesis using run sync_start_effect [OF inv] by (simp add: ctx_sync_same(1) [of H 0])
next
  case StreamSyncRet
  then show ?thesis using run sync_ret_effect [OF inv] by simp
next
  case CtxSyncRet
  then show ?thesis using run sync_ret_effect [OF inv] by (simp add: ctx_sync_same(2))
next
  case (Ioctl fd)
  then show ?thesis using run watchdog_ioctl_effect [OF inv] by simp
next
  case ProcessExit
  then show ?thesis using call by simp
qed

end

section \<open>Invariance\<close>

lemma probe_effect_inv:
  assumes "probe_effect v v'" "sys_inv v" "v_cpu v < v_ncpu v"
  shows "sys_inv v'"
  using assms
proof (induction rule: probe_effect.induct)
  case (clock v t)
  then show ?case by (simp add: sys_inv_clock)
next
  case (started v t)
  then show ?case using sys_inv_clock [of v t] by (auto simp: sys_inv_def)
next
  case (ioctl v t v')
  then show ?case using sys_inv_counted [OF sys_inv_clock [OF ioctl(3,1)] ioctl(2)] by simp
next
  case (event e v v')
  then show ?case by (blast intro: sys_inv_submitted)
next
  case (sync v t t0 c e v')
  let ?v = "v\<lparr>v_clock := t, v_starts := (v_starts v)(v_pid_tgid v := None)\<rparr>"
  have "t0 \<le> v_clock v" using sync by (auto simp: sys_inv_def)
  then have "good_record e" using sync by (auto intro: good_records(5) order_trans)
  moreover have "sys_inv ?v" using sys_inv_clock [OF sync(5,1)] by (auto simp: sys_inv_def)
  ultimately show ?case using sync by (auto intro: sys_inv_submitted [of ?v])
qed

lemma switched_inv: "switched v v' \<Longrightarrow> sys_inv v \<Longrightarrow> sys_inv v'"
  unfolding switched_def sys_inv_def by simp (meson order_trans stamped_mono)

context bpf_runtime
begin

lemma kexec_inv:
  assumes "kexec H R kinv view s log ex s'" and "sys_inv (view s)"
  shows "kinv s' \<and> sys_inv (view s')"
  using assms(1)
proof (induction rule: kexec.induct)
  case start
  then show ?case using assms(2) by simp
next
  case (probe log ex s1 call r s2)
  then show ?case using run_probe_effect [of s1 call R r s2]
    by (auto intro: probe_effect_inv cpu_in_range)
next
  case (exit log ex s1 r s2)
  then show ?case using handle_process_exit_spec [of s1 r s2] by (auto simp: sys_inv_def split: if_splits)
next
  case (switch log ex s1 s2)
  then show ?case by (blast intro: switched_inv)
next
  case (consume log ex s1 e s2)
  obtain rest where "view s2 = (view s1)\<lparr>v_ring := rest\<rparr>" "v_ring (view s1) = e # rest" "kinv s2"
    using ringbuf_read [of s1 e s2] consume by auto
  with consume show ?case by (auto simp: sys_inv_def)
qed

end
section \<open>Hit counters account for the submitted records\<close>

definition uprobe_total :: "kview \<Rightarrow> u32 \<Rightarrow> u64" where
  "uprobe_total v pid =
    (case v_watchdog v pid of None \<Rightarrow> 0 | Some l \<Rightarrow> sum_list (map uprobe_hit_count l))"

definition ioctl_total :: "kview \<Rightarrow> u32 \<Rightarrow> u64" where
  "ioctl_total v pid =
    (case v_watchdog v pid of None \<Rightarrow> 0 | Some l \<Rightarrow> sum_list (map ioctl_hit_count l))"

text \<open>The total of the counter that hits of type \<open>h\<close> go to.\<close>

definition hit_total :: "u32 \<Rightarrow> kview \<Rightarrow> u32 \<Rightarrow> u64" where
  "hit_total h v pid = (if h = UPROBE_HIT then uprobe_total v pid else ioctl_total v pid)"

definition records_of :: "u32 \<Rightarrow> bytes list \<Rightarrow> nat" where
  "records_of pid log = length (filter (\<lambda>e. record_pid e = pid) log)"

lemma records_of_simps [simp]:
  "records_of pid [] = 0"
  "records_of pid (xs @ ys) = records_of pid xs + records_of pid ys"
  "records_of pid [e] = (if record_pid e = pid then 1 else 0)"
  by (simp_all add: records_of_def)

lemma sum_uprobe_hit:
  assumes "c < length l"
  shows "sum_list (map uprobe_hit_count (l[c := hit h (l ! c)])) =
    sum_list (map uprobe_hit_count l) + (if h = UPROBE_HIT then 1 else 0)"
  using assms by (simp add: map_update sum_list_update_word hit_def UPROBE_HIT_def IOCTL_HIT_def)

lemma sum_ioctl_hit:
  assumes "c < length l"
  shows "sum_list (map ioctl_hit_count (l[c := hit h (l ! c)])) =
    sum_list (map ioctl_hit_count l) + (if h = IOCTL_HIT then 1 else 0)"
  using assms by (simp add: map_update sum_list_update_word hit_def UPROBE_HIT_def IOCTL_HIT_def)

lemma fresh_sums:
  "sum_list (map uprobe_hit_count (fresh_percpu n c \<lparr>ioctl_hit_count = 0, uprobe_hit_count = 0, first_seen_time = t\<rparr>)) = 0"
  "sum_list (map ioctl_hit_count (fresh_percpu n c \<lparr>ioctl_hit_count = 0, uprobe_hit_count = 0, first_seen_time = t\<rparr>)) = 0"
proof -
  have "(replicate n x)[c := x] = replicate n x" for x :: u64
    by (cases "c < n") (simp_all add: list_update_same_conv list_update_beyond)
  then show
    "sum_list (map uprobe_hit_count (fresh_percpu n c \<lparr>ioctl_hit_count = 0, uprobe_hit_count = 0, first_seen_time = t\<rparr>)) = 0"
    "sum_list (map ioctl_hit_count (fresh_percpu n c \<lparr>ioctl_hit_count = 0, uprobe_hit_count = 0, first_seen_time = t\<rparr>)) = 0"
    unfolding fresh_percpu_def zero_watchdog_def map_update map_replicate by (simp_all add: sum_list_replicate)
qed

lemma hit_total_cong: "v_watchdog v' pid = v_watchdog v pid \<Longrightarrow> hit_total h v' pid = hit_total h v pid"
  by (simp add: hit_total_def uprobe_total_def ioctl_total_def)

text \<open>A hit of type \<open>h\<close> in the slot of a CPU adds one to the total of \<open>h\<close> and nothing to the other.\<close>

lemma hit_total_hit:
  assumes "v_watchdog v p = Some l" and "c < length l" and "h' = UPROBE_HIT \<or> h' = IOCTL_HIT"
  shows "hit_total h' (v\<lparr>v_watchdog := (v_watchdog v)(p \<mapsto> l[c := hit h (l ! c)])\<rparr>) pid =
    hit_total h' v pid + (if p = pid \<and> h = h' then 1 else 0)"
  using assms(1,3) sum_uprobe_hit [OF assms(2), of h] sum_ioctl_hit [OF assms(2), of h]
  by (auto simp: hit_total_def uprobe_total_def ioctl_total_def)

text \<open>A hit of any process changes the total of a process with an entry only if it is its own.\<close>

lemma counted_total:
  assumes "counted v p h v'" "v_watchdog v pid = Some l" "length l = v_ncpu v" "v_cpu v < v_ncpu v"
  shows "v_ring v' = v_ring v \<and> v_watchdog v' pid \<noteq> None \<and>
    uprobe_total v' pid = uprobe_total v pid + (if p = pid \<and> h = UPROBE_HIT then 1 else 0)"
proof (cases "p = pid")
  case True
  then have "v' = v\<lparr>v_watchdog := (v_watchdog v)(pid \<mapsto> l[v_cpu v := hit h (l ! v_cpu v)])\<rparr>"
    using assms by (simp add: counted_def)
  then show ?thesis using assms True by (simp add: uprobe_total_def sum_uprobe_hit)
next
  case False
  then have "v_watchdog v' pid = v_watchdog v pid" and "v_ring v' = v_ring v"
    using assms(1) by (auto simp: counted_def split: option.splits)
  then show ?thesis using assms False by (simp add: uprobe_total_def)
qed

lemma effect_total:
  assumes "probe_effect v v'" "v_watchdog v pid = Some l" "length l = v_ncpu v" "v_cpu v < v_ncpu v"
  shows "v_watchdog v' pid \<noteq> None \<and> (\<exists>new. v_ring v' = v_ring v @ new \<and>
    uprobe_total v' pid = uprobe_total v pid + of_nat (records_of pid new))"
  using assms
proof (induction rule: probe_effect.induct)
  case (ioctl v t v')
  from counted_total [OF ioctl(2), of pid l] ioctl show ?case
    by (auto simp: uprobe_total_def IOCTL_HIT_def UPROBE_HIT_def intro!: exI [of _ "[]"])
next
  case (event e v v')
  from counted_total [OF event(3) [unfolded submitted_def], of pid l] event show ?case
    by (auto simp: uprobe_total_def intro!: exI [of _ "[e]"])
next
  case (sync v t t0 c e v')
  from counted_total [OF sync(4) [unfolded submitted_def], of pid l] sync record_pids(4) [OF sync(3)]
  show ?case by (auto simp: uprobe_total_def intro!: exI [of _ "[e]"])
qed (auto simp: uprobe_total_def intro!: exI [of _ "[]"])

context bpf_runtime
begin

lemma kexec_kinv: "kexec H R kinv view s log ex s' \<Longrightarrow> kinv s'"
proof (induction rule: kexec.induct)
  case (probe log ex s1 call r s2)
  then show ?case using run_probe_effect by blast
next
  case (exit log ex s1 r s2)
  then show ?case using handle_process_exit_spec by blast
next
  case (consume log ex s1 e s2)
  then show ?case using ringbuf_read by blast
qed

text \<open>
  While a process has an entry and none of its threads exits, the total of its uprobe hits grows by
  the number of its records submitted, modulo the counters' width.
\<close>

lemma kexec_total:
  assumes "kexec H R kinv view s log ex s'" and "v_watchdog (view s) pid \<noteq> None" and "pid \<notin> ex"
  shows "v_watchdog (view s') pid \<noteq> None \<and>
    uprobe_total (view s') pid = uprobe_total (view s) pid + of_nat (records_of pid log)"
  using assms(1,3)
proof (induction rule: kexec.induct)
  case start
  then show ?case using assms(2) by simp
next
  case (probe log ex s1 call r s2)
  have inv: "kinv s1" using probe(1) by (rule kexec_kinv)
  have IH: "v_watchdog (view s1) pid \<noteq> None"
    "uprobe_total (view s1) pid = uprobe_total (view s) pid + of_nat (records_of pid log)"
    using probe by auto
  then obtain l where l: "v_watchdog (view s1) pid = Some l" by auto
  have "probe_effect (view s1) (view s2)" using run_probe_effect [OF inv probe(2,3)] by simp
  from effect_total [OF this l percpu_length [OF inv l] cpu_in_range [OF inv]] IH
  show ?case by (auto simp: algebra_simps)
next
  case (exit log ex s1 r s2)
  have inv: "kinv s1" using exit(1) by (rule kexec_kinv)
  from handle_process_exit_spec [OF inv exit(2)] exit show ?case by (auto simp: uprobe_total_def)
next
  case (switch log ex s1 s2)
  then show ?case by (auto simp: uprobe_total_def switched_def)
next
  case (consume log ex s1 e s2)
  have inv: "kinv s1" using consume(1) by (rule kexec_kinv)
  obtain rest where "view s2 = (view s1)\<lparr>v_ring := rest\<rparr>"
    using ringbuf_read [OF inv consume(2)] by auto
  with consume show ?case by (simp add: uprobe_total_def)
qed

text \<open>A total that did not move means that the process submitted nothing.\<close>

lemma kexec_no_hits:
  assumes "kexec H R kinv view s log ex s'" and "v_watchdog (view s) pid \<noteq> None" and "pid \<notin> ex"
    and "uprobe_total (view s') pid = uprobe_total (view s) pid" and "length log < 2 ^ 64"
  shows "\<forall>e \<in> set log. record_pid e \<noteq> pid"
proof -
  have "(of_nat (records_of pid log) :: u64) = 0"
    using kexec_total [OF assms(1-3)] assms(4) by simp
  moreover have "records_of pid log < 2 ^ 64"
    unfolding records_of_def by (rule le_less_trans [OF length_filter_le assms(5)])
  ultimately have "records_of pid log = 0"
    by (auto simp: word_of_nat_eq_0_iff dest: dvd_imp_le)
  then show ?thesis by (auto simp: records_of_def filter_empty_conv)
qed

end
section \<open>Properties\<close>

text \<open>
  Each of the four copy probes, synchronous or asynchronous, that gets a slot submits one record
  that the loader decodes to a copy event of the calling process with the size of the call and the
  direction of the probe, and counts a uprobe hit; without a slot it changes nothing.
\<close>

lemma memcpy_event_decodes:
  assumes "bpf_runtime H kinv view" and "kinv s" and "run_probe H R call s = (r, s')"
    and "call \<in> {MemcpyHtoD d p n, MemcpyHtoDAsync d p n st} \<and> dir = types_DIR_HTOD \<or>
      call \<in> {MemcpyDtoH d p n, MemcpyDtoHAsync d p n st} \<and> dir = types_DIR_DTOH"
  shows "r = 0 \<and> kinv s' \<and>
    (case ringbuf_reserve H (sizeof gpu_memcpy_event_t) s of
       None \<Rightarrow> s' = s
     | Some _ \<Rightarrow>
         (let pid = ucast (drop_bit 32 (v_pid_tgid (view s)))
          in \<exists>e ev. submitted (view s) pid e (view s') \<and>
            handle_record e = Dispatch (MemcpyEvent ev) \<and> Pid ev = pid \<and> comm_field (Comm ev) \<and>
            CopySize ev = n \<and> uint (Kind ev) = dir))"
proof -
  have "handle_cuMemcpy_htod H d p n s = (r, s') \<and> dir = 0 \<or>
    handle_cuMemcpy_dtoh H d p n s = (r, s') \<and> dir = 1"
    using assms(3,4) by (auto simp: memcpy_async_same types_consts)
  then show ?thesis
  proof (elim disjE conjE)
    assume run: "handle_cuMemcpy_htod H d p n s = (r, s')" and dir: "dir = 0"
    from bpf_runtime.handle_cuMemcpy_htod_spec [OF assms(1,2) run] dir show ?thesis
      unfolding Let_def by (auto simp: DIR_HTOD_def split: option.splits dest!: memcpy_decodes)
  next
    assume run: "handle_cuMemcpy_dtoh H d p n s = (r, s')" and dir: "dir = 1"
    from bpf_runtime.handle_cuMemcpy_dtoh_spec [OF assms(1,2) run] dir show ?thesis
      unfolding Let_def by (auto simp: DIR_DTOH_def split: option.splits dest!: memcpy_decodes)
  qed
qed

lemma memcpy_event_decodes_witness:
  "\<exists>s' e ev. run_probe reference_kernel sample_offsets (MemcpyDtoHAsync 1 2 512 3) sample_kernel = (0, s') \<and>
     submitted (ref_view sample_kernel) 42 e (ref_view s') \<and>
     handle_record e = Dispatch (MemcpyEvent ev) \<and> Pid ev = 42 \<and> CopySize ev = 512 \<and> uint (Kind ev) = 1"
proof -
  obtain r s' where run: "run_probe reference_kernel sample_offsets (MemcpyDtoHAsync 1 2 512 3) sample_kernel = (r, s')"
    by fastforce
  have "ringbuf_reserve reference_kernel (sizeof gpu_memcpy_event_t) sample_kernel =
    Some (replicate 176 0xAA, sample_kernel)" by (simp add: event_layout sample_reserve)
  with memcpy_event_decodes [OF rk.bpf_runtime_axioms sample_inv run, of 1 2 512 3 1] run show ?thesis
    by (auto simp: sample_view Let_def types_consts)
qed

text \<open>
  The programs of the synchronisations; and what may happen between the entry of a synchronisation of thread \<open>tid\<close>
  and its return: programs of other threads, programs of this thread other than those of a synchronisation (the driver
  issues ioctls while it waits), context switches, exits and reads of the ring buffer.
\<close>

fun is_sync :: "probe_call \<Rightarrow> bool" where
  "is_sync (StreamSync st) = True"
| "is_sync StreamSyncRet = True"
| "is_sync CtxSync = True"
| "is_sync CtxSyncRet = True"
| "is_sync _ = False"

inductive meanwhile ::
  "'k bpf \<Rightarrow> core_offsets \<Rightarrow> ('k \<Rightarrow> bool) \<Rightarrow> ('k \<Rightarrow> kview) \<Rightarrow> u64 \<Rightarrow> 'k \<Rightarrow> 'k \<Rightarrow> bool"
  for H R kinv view tid s where
  none: "kinv s \<Longrightarrow> meanwhile H R kinv view tid s s"
| probe: "meanwhile H R kinv view tid s s1 \<Longrightarrow> v_pid_tgid (view s1) \<noteq> tid \<or> \<not> is_sync call \<Longrightarrow>
    run_probe H R call s1 = (r, s2) \<Longrightarrow> meanwhile H R kinv view tid s s2"
| switch: "meanwhile H R kinv view tid s s1 \<Longrightarrow> kinv s2 \<Longrightarrow> switched (view s1) (view s2) \<Longrightarrow>
    meanwhile H R kinv view tid s s2"
| consume: "meanwhile H R kinv view tid s s1 \<Longrightarrow> ringbuf_read H s1 = Some (e, s2) \<Longrightarrow>
    meanwhile H R kinv view tid s s2"

lemma counted_starts: "counted v pid h v' \<Longrightarrow> v_starts v' = v_starts v \<and> v_clock v \<le> v_clock v'"
  by (auto simp: counted_def split: option.splits)

lemma submitted_starts: "submitted v pid e v' \<Longrightarrow> v_starts v' = v_starts v \<and> v_clock v \<le> v_clock v'"
  using counted_starts by (fastforce simp: submitted_def)

lemma effect_starts:
  assumes "probe_effect v v'"
  shows "v_clock v \<le> v_clock v' \<and> (tid \<noteq> v_pid_tgid v \<longrightarrow> v_starts v' tid = v_starts v tid)"
  using assms
proof (induction rule: probe_effect.induct)
  case (ioctl v t v')
  then show ?case using counted_starts [OF ioctl(2)] by (auto intro: order_trans)
next
  case (event e v v')
  then show ?case using submitted_starts [OF event(3)] by simp
next
  case (sync v t t0 c e v')
  then show ?case using submitted_starts [OF sync(4)] by (auto intro: order_trans)
qed auto

context bpf_runtime
begin

lemma unsync_starts:
  assumes inv: "kinv s" and call: "\<not> is_sync call" and run: "run_probe H R call s = (r, s')"
  shows "v_starts (view s') = v_starts (view s)"
proof (cases call)
  case (LaunchKernel sp f gx gy gz blx bly)
  then show ?thesis using run handle_cuLaunchkernel_spec [OF inv, of sp f gx gy gz blx bly r s']
    by (auto dest!: submitted_starts split: option.splits)
next
  case (MemAlloc p n)
  then show ?thesis using run handle_cuMemAlloc_spec [OF inv, of p n r s']
    by (auto dest!: submitted_starts split: option.splits)
next
  case (MemcpyHtoD d p n)
  then show ?thesis using run handle_cuMemcpy_htod_spec [OF inv, of d p n r s']
    by (auto dest!: submitted_starts split: option.splits)
next
  case (MemcpyHtoDAsync d p n st)
  then show ?thesis using run handle_cuMemcpy_htod_spec [OF inv, of d p n r s']
    by (auto simp: memcpy_async_same dest!: submitted_starts split: option.splits)
next
  case (MemcpyDtoH d p n)
  then show ?thesis using run handle_cuMemcpy_dtoh_spec [OF inv, of d p n r s']
    by (auto dest!: submitted_starts split: option.splits)
next
  case (MemcpyDtoHAsync d p n st)
  then show ?thesis using run handle_cuMemcpy_dtoh_spec [OF inv, of d p n r s']
    by (auto simp: memcpy_async_same dest!: submitted_starts split: option.splits)
next
  case (Ioctl fd)
  then show ?thesis using run watchdog_ioctl_device [OF inv, of R fd r s']
    by (auto dest!: counted_starts split: if_splits)
next
  case ProcessExit
  then show ?thesis using run handle_process_exit_spec [OF inv, of r s'] by auto
qed (use call in simp_all)

lemma meanwhile_starts:
  assumes "meanwhile H R kinv view tid s s'"
  shows "kinv s' \<and> v_starts (view s') tid = v_starts (view s) tid \<and> v_clock (view s) \<le> v_clock (view s')"
  using assms
proof (induction rule: meanwhile.induct)
  case (probe s1 call r s2)
  show ?case
  proof (cases "call = ProcessExit")
    case True
    then show ?thesis using probe handle_process_exit_spec [of s1 r s2] by auto
  next
    case False
    have "kinv s2 \<and> probe_effect (view s1) (view s2)" using run_probe_effect [OF _ False probe(3)] probe.IH by simp
    moreover have "v_starts (view s2) tid = v_starts (view s1) tid"
      using probe(2) unsync_starts [OF _ _ probe(3)] effect_starts [of "view s1" "view s2" tid] probe.IH calculation by auto
    ultimately show ?thesis using effect_starts [of "view s1" "view s2" tid] probe.IH by (auto intro: order_trans)
  qed
next
  case (switch s1 s2)
  then show ?case by (auto simp: switched_def intro: order_trans)
next
  case (consume s1 e s2)
  then obtain rest where "view s2 = (view s1)\<lparr>v_ring := rest\<rparr>" "kinv s2" using ringbuf_read [of s1 e s2] by auto
  with consume show ?case by simp
qed simp

end



text \<open>A state in which process 42 already has an entry, and an execution of one probe from it.\<close>

definition entry_kernel :: kstate where
  "entry_kernel = sample_kernel\<lparr>k_watchdog := [(42, [zero_watchdog\<lparr>first_seen_time := 900\<rparr>, zero_watchdog])]\<rparr>"

lemma entry_inv [simp]: "ref_inv entry_kernel"
  by (simp add: ref_inv_def entry_kernel_def sample_kernel_def)

lemma entry_view:
  "ref_view entry_kernel = \<lparr>v_pid_tgid = 42 * 2 ^ 32 + 43, v_clock = 1000, v_cpu = 0, v_ncpu = 2,
     v_starts = Map.empty,
     v_watchdog = [42 \<mapsto> [zero_watchdog\<lparr>first_seen_time := 900\<rparr>, zero_watchdog]], v_ring = []\<rparr>"
  by (simp add: ref_view_def entry_kernel_def sample_kernel_def)

lemma kexec_one:
  "kinv s \<Longrightarrow> call \<noteq> ProcessExit \<Longrightarrow> run_probe H R call s = (r, s') \<Longrightarrow>
    kexec H R kinv view s (drop (length (v_ring (view s))) (v_ring (view s'))) {} s'"
  using kexec.probe [of H R kinv view s "[]" "{}" s call r s'] kexec.start [of kinv s H R view] by simp

lemma entry_exec:
  "\<exists>s' e. kexec reference_kernel sample_offsets ref_inv ref_view entry_kernel [e] {} s' \<and> record_pid e = 42"
proof -
  obtain r s' where run: "handle_cuMemAlloc reference_kernel 0 64 entry_kernel = (r, s')" by fastforce
  have "ringbuf_reserve reference_kernel (sizeof gpu_memalloc_event_t) entry_kernel =
    Some (replicate 168 0xAA, entry_kernel)"
    by (simp add: event_layout reference_kernel_def ref_ringbuf_reserve_def entry_kernel_def
        sample_kernel_def ring_used_def record_cost_def align_up_def gpu_ringbuf_max_entries_def)
  with rk.handle_cuMemAlloc_spec [OF entry_inv run] obtain e c where
    e: "memalloc_record 42 c 64 e" "submitted (ref_view entry_kernel) 42 e (ref_view s')"
    by (auto simp: entry_view)
  then have "v_ring (ref_view s') = [e]" by (simp add: submitted_def counted_def entry_view)
  moreover have "kexec reference_kernel sample_offsets ref_inv ref_view entry_kernel
      (drop (length (v_ring (ref_view entry_kernel))) (v_ring (ref_view s'))) {} s'"
    by (rule kexec_one [where call = "MemAlloc 0 64" and r = r]) (simp_all add: run)
  ultimately show ?thesis using record_pids(2) [OF e(1)] by (auto simp: entry_view)
qed

text \<open>
  C9: In every execution of the probes, the scheduler and the consumer from an empty state, every
  unread record is one the loader decodes to an event (a synchronisation with its times in order, a
  copy with a known direction), no stored start lies in the future, and every watchdog entry carries
  its creation time on one CPU and zero on the others.
\<close>

lemma reachable_states_good:
  assumes "bpf_runtime H kinv view" and "kexec H R kinv view s recs ex s'" and "initial_view (view s)"
  shows "kinv s' \<and> (\<forall>e \<in> set (v_ring (view s')). \<exists>ev. handle_record e = Dispatch ev \<and> good_event ev) \<and>
    (\<forall>tid t. v_starts (view s') tid = Some t \<longrightarrow> t \<le> v_clock (view s')) \<and>
    (\<forall>pid l. v_watchdog (view s') pid = Some l \<longrightarrow> stamped (v_clock (view s')) l)"
  using bpf_runtime.kexec_inv [OF assms(1,2) sys_inv_initial [OF assms(3)]]
  by (auto simp: sys_inv_def good_record_def)

lemma reachable_states_good_witness:
  "\<exists>s' e. kexec reference_kernel sample_offsets ref_inv ref_view sample_kernel [e] {} s' \<and>
     e \<in> set (v_ring (ref_view s')) \<and> (\<exists>ev. handle_record e = Dispatch ev \<and> good_event ev)"
proof -
  obtain r s' where run: "handle_cuMemAlloc reference_kernel 0 64 sample_kernel = (r, s')" by fastforce
  have "ringbuf_reserve reference_kernel (sizeof gpu_memalloc_event_t) sample_kernel =
    Some (replicate 168 0xAA, sample_kernel)" by (simp add: event_layout sample_reserve)
  with rk.handle_cuMemAlloc_spec [OF sample_inv run] obtain e where
    "submitted (ref_view sample_kernel) 42 e (ref_view s')" by (auto simp: sample_view)
  then have ring: "v_ring (ref_view s') = [e]"
    by (auto simp: submitted_def counted_def sample_view split: option.splits)
  have "kexec reference_kernel sample_offsets ref_inv ref_view sample_kernel
      (drop (length (v_ring (ref_view sample_kernel))) (v_ring (ref_view s'))) {} s'"
    by (rule kexec_one [where call = "MemAlloc 0 64" and r = r]) (simp_all add: run)
  then have ex: "kexec reference_kernel sample_offsets ref_inv ref_view sample_kernel [e] {} s'"
    by (simp add: ring sample_view)
  have "initial_view (ref_view sample_kernel)" by (simp add: initial_view_def sample_view)
  from reachable_states_good [OF rk.bpf_runtime_axioms ex this]
  have "\<exists>ev. handle_record e = Dispatch ev \<and> good_event ev" by (simp add: ring)
  with ex ring show ?thesis by (intro exI [of _ s'] exI [of _ e]) simp
qed

text \<open>
  C12: Over any execution in which a process has a watchdog entry and none of its threads exits, the
  entry stays and the sum of its uprobe hits over the CPUs grows by exactly the number of records its
  driver calls submitted, on 64 bits.
\<close>

lemma uprobe_hits_account:
  assumes "bpf_runtime H kinv view" and "kexec H R kinv view s recs ex s'"
    and "v_watchdog (view s) pid \<noteq> None" and "pid \<notin> ex"
  shows "v_watchdog (view s') pid \<noteq> None \<and>
    uprobe_total (view s') pid = uprobe_total (view s) pid + of_nat (records_of pid recs)"
  by (rule bpf_runtime.kexec_total [OF assms])

lemma uprobe_hits_account_witness:
  "\<exists>s' e. kexec reference_kernel sample_offsets ref_inv ref_view entry_kernel [e] {} s' \<and>
     uprobe_total (ref_view s') 42 = 1"
proof -
  obtain s' e where ex: "kexec reference_kernel sample_offsets ref_inv ref_view entry_kernel [e] {} s'"
    "record_pid e = 42" using entry_exec by blast
  from uprobe_hits_account [OF rk.bpf_runtime_axioms ex(1), of 42] ex show ?thesis
    by (auto simp: entry_view uprobe_total_def zero_watchdog_def)
qed

text \<open>
  A hit of an existing entry adds one to the counter of its type in the current CPU's slot; the
  other counter, the creation time, the other CPUs and the other processes keep their values.
\<close>

lemma hit_is_exact:
  assumes "bpf_runtime H kinv view" and "kinv s" and "v_watchdog (view s) pid = Some l"
    and "h \<in> {UPROBE_HIT, IOCTL_HIT}" and "add_to_counter H pid h s = (r, s')"
  shows "r = 0 \<and> kinv s' \<and> (let c = v_cpu (view s); w = l ! c in
    view s' = (view s)\<lparr>v_watchdog := (v_watchdog (view s))(pid \<mapsto> l[c := w\<lparr>
      uprobe_hit_count := uprobe_hit_count w + (if h = UPROBE_HIT then 1 else 0),
      ioctl_hit_count := ioctl_hit_count w + (if h = IOCTL_HIT then 1 else 0)\<rparr>])\<rparr>)"
  using bpf_runtime.add_to_counter_present [OF assms(1,2,3,5)] assms(4)
  by (auto simp: hit_def UPROBE_HIT_def IOCTL_HIT_def Let_def)

lemma hit_is_exact_witness:
  "v_watchdog (ref_view (snd (add_to_counter reference_kernel 42 IOCTL_HIT entry_kernel))) 42 =
     Some [\<lparr>ioctl_hit_count = 1, uprobe_hit_count = 0, first_seen_time = 900\<rparr>, zero_watchdog]"
  using hit_is_exact [OF rk.bpf_runtime_axioms entry_inv, of 42 _ IOCTL_HIT
      "fst (add_to_counter reference_kernel 42 IOCTL_HIT entry_kernel)"]
  by (simp add: entry_view Let_def zero_watchdog_def IOCTL_HIT_def UPROBE_HIT_def)

end
