(* ===== verification/Kernel_Files.thy ===== *)
theory Kernel_Files
  imports C_Layout Event_Types
begin

text \<open>
  The types of \<open>vmlinux.h\<close> behind an open file: the descriptor tables (\<open>files_struct\<close>, \<open>fdtable\<close>),
  \<open>file\<close>, \<open>inode\<close> and every type they contain by value, member for member. A definition has the name
  of the C type behind its tag (\<open>struct_\<close>, \<open>union_\<close>, \<open>typedef_\<close>, \<open>enum_\<close>). A pointer names what it
  points to (\<open>()\<close> is a function). Collection \<open>kernel_layout\<close> holds the size and alignment of every type.
\<close>

named_theorems kernel_layout \<open>sizes and alignments of the kernel types\<close>

lemma align_up_eval:
  "align_up 1 n = n"
  "align_up (Suc 0) n = n"
  "align_up (Suc (Suc 0)) n = (n + 1) div 2 * 2"
  "align_up (numeral k) n = (n + pred_numeral k) div numeral k * numeral k"
proof -
  have "n + numeral k - 1 = n + pred_numeral k" by (simp add: numeral_eq_Suc)
  then show "align_up (numeral k) n = (n + pred_numeral k) div numeral k * numeral k"
    by (simp only: align_up_def)
  show "align_up (Suc (Suc 0)) n = (n + 1) div 2 * 2" by (simp add: align_up_def numeral_2_eq_2)
qed (simp_all add: align_up_def)

lemmas kernel_eval = offsetof_def align_up_eval bytes_of_bits_def Let_def

abbreviation c_enum :: ctype where "c_enum \<equiv> Scalar 4"

definition typedef_umode_t :: ctype where
  "typedef_umode_t = Scalar 2"

lemma typedef_umode_t_layout [kernel_layout]:
  "sizeof typedef_umode_t = 2" "alignof typedef_umode_t = 2"
  by (simp_all add: typedef_umode_t_def kernel_eval kernel_layout)

definition typedef___kernel_uid32_t :: ctype where
  "typedef___kernel_uid32_t = Scalar 4"

lemma typedef___kernel_uid32_t_layout [kernel_layout]:
  "sizeof typedef___kernel_uid32_t = 4" "alignof typedef___kernel_uid32_t = 4"
  by (simp_all add: typedef___kernel_uid32_t_def kernel_eval kernel_layout)

definition typedef_uid_t :: ctype where
  "typedef_uid_t = typedef___kernel_uid32_t"

lemma typedef_uid_t_layout [kernel_layout]:
  "sizeof typedef_uid_t = 4" "alignof typedef_uid_t = 4"
  by (simp_all add: typedef_uid_t_def kernel_eval kernel_layout)

definition typedef_kuid_t :: ctype where
  "typedef_kuid_t = Struct [
    Member ''val'' typedef_uid_t]"

lemma typedef_kuid_t_layout [kernel_layout]:
  "sizeof typedef_kuid_t = 4" "alignof typedef_kuid_t = 4"
  by (simp_all add: typedef_kuid_t_def kernel_eval kernel_layout)

definition struct_list_head :: ctype where
  "struct_list_head = Struct [
    Member ''next'' (Ptr ''struct list_head''), Member ''prev'' (Ptr ''struct list_head'')]"

lemma struct_list_head_layout [kernel_layout]:
  "sizeof struct_list_head = 16" "alignof struct_list_head = 8"
  by (simp_all add: struct_list_head_def kernel_eval kernel_layout)

definition typedef___kernel_gid32_t :: ctype where
  "typedef___kernel_gid32_t = Scalar 4"

lemma typedef___kernel_gid32_t_layout [kernel_layout]:
  "sizeof typedef___kernel_gid32_t = 4" "alignof typedef___kernel_gid32_t = 4"
  by (simp_all add: typedef___kernel_gid32_t_def kernel_eval kernel_layout)

definition typedef_gid_t :: ctype where
  "typedef_gid_t = typedef___kernel_gid32_t"

lemma typedef_gid_t_layout [kernel_layout]:
  "sizeof typedef_gid_t = 4" "alignof typedef_gid_t = 4"
  by (simp_all add: typedef_gid_t_def kernel_eval kernel_layout)

definition typedef_kgid_t :: ctype where
  "typedef_kgid_t = Struct [
    Member ''val'' typedef_gid_t]"

lemma typedef_kgid_t_layout [kernel_layout]:
  "sizeof typedef_kgid_t = 4" "alignof typedef_kgid_t = 4"
  by (simp_all add: typedef_kgid_t_def kernel_eval kernel_layout)

definition typedef___u32 :: ctype where
  "typedef___u32 = Scalar 4"

lemma typedef___u32_layout [kernel_layout]:
  "sizeof typedef___u32 = 4" "alignof typedef___u32 = 4"
  by (simp_all add: typedef___u32_def kernel_eval kernel_layout)

definition typedef_u32 :: ctype where
  "typedef_u32 = typedef___u32"

lemma typedef_u32_layout [kernel_layout]:
  "sizeof typedef_u32 = 4" "alignof typedef_u32 = 4"
  by (simp_all add: typedef_u32_def kernel_eval kernel_layout)

definition typedef___kernel_dev_t :: ctype where
  "typedef___kernel_dev_t = typedef_u32"

lemma typedef___kernel_dev_t_layout [kernel_layout]:
  "sizeof typedef___kernel_dev_t = 4" "alignof typedef___kernel_dev_t = 4"
  by (simp_all add: typedef___kernel_dev_t_def kernel_eval kernel_layout)

definition typedef_dev_t :: ctype where
  "typedef_dev_t = typedef___kernel_dev_t"

lemma typedef_dev_t_layout [kernel_layout]:
  "sizeof typedef_dev_t = 4" "alignof typedef_dev_t = 4"
  by (simp_all add: typedef_dev_t_def kernel_eval kernel_layout)

definition typedef___kernel_loff_t :: ctype where
  "typedef___kernel_loff_t = Scalar 8"

lemma typedef___kernel_loff_t_layout [kernel_layout]:
  "sizeof typedef___kernel_loff_t = 8" "alignof typedef___kernel_loff_t = 8"
  by (simp_all add: typedef___kernel_loff_t_def kernel_eval kernel_layout)

definition typedef_loff_t :: ctype where
  "typedef_loff_t = typedef___kernel_loff_t"

lemma typedef_loff_t_layout [kernel_layout]:
  "sizeof typedef_loff_t = 8" "alignof typedef_loff_t = 8"
  by (simp_all add: typedef_loff_t_def kernel_eval kernel_layout)

definition typedef___s64 :: ctype where
  "typedef___s64 = Scalar 8"

lemma typedef___s64_layout [kernel_layout]:
  "sizeof typedef___s64 = 8" "alignof typedef___s64 = 8"
  by (simp_all add: typedef___s64_def kernel_eval kernel_layout)

definition typedef_time64_t :: ctype where
  "typedef_time64_t = typedef___s64"

lemma typedef_time64_t_layout [kernel_layout]:
  "sizeof typedef_time64_t = 8" "alignof typedef_time64_t = 8"
  by (simp_all add: typedef_time64_t_def kernel_eval kernel_layout)

definition struct_timespec64 :: ctype where
  "struct_timespec64 = Struct [
    Member ''tv_sec'' typedef_time64_t, Member ''tv_nsec'' (Scalar 8)]"

lemma struct_timespec64_layout [kernel_layout]:
  "sizeof struct_timespec64 = 16" "alignof struct_timespec64 = 8"
  by (simp_all add: struct_timespec64_def kernel_eval kernel_layout)

definition typedef_atomic_t :: ctype where
  "typedef_atomic_t = Struct [
    Member ''counter'' (Scalar 4)]"

lemma typedef_atomic_t_layout [kernel_layout]:
  "sizeof typedef_atomic_t = 4" "alignof typedef_atomic_t = 4"
  by (simp_all add: typedef_atomic_t_def kernel_eval kernel_layout)

definition typedef___u8 :: ctype where
  "typedef___u8 = Scalar 1"

lemma typedef___u8_layout [kernel_layout]:
  "sizeof typedef___u8 = 1" "alignof typedef___u8 = 1"
  by (simp_all add: typedef___u8_def kernel_eval kernel_layout)

definition typedef_u8 :: ctype where
  "typedef_u8 = typedef___u8"

lemma typedef_u8_layout [kernel_layout]:
  "sizeof typedef_u8 = 1" "alignof typedef_u8 = 1"
  by (simp_all add: typedef_u8_def kernel_eval kernel_layout)

definition typedef___u16 :: ctype where
  "typedef___u16 = Scalar 2"

lemma typedef___u16_layout [kernel_layout]:
  "sizeof typedef___u16 = 2" "alignof typedef___u16 = 2"
  by (simp_all add: typedef___u16_def kernel_eval kernel_layout)

definition typedef_u16 :: ctype where
  "typedef_u16 = typedef___u16"

lemma typedef_u16_layout [kernel_layout]:
  "sizeof typedef_u16 = 2" "alignof typedef_u16 = 2"
  by (simp_all add: typedef_u16_def kernel_eval kernel_layout)

definition struct_qspinlock :: ctype where
  "struct_qspinlock = Struct [
    Member '''' (Union [Member ''val'' typedef_atomic_t,
      Member '''' (Struct [Member ''locked'' typedef_u8, Member ''pending'' typedef_u8]),
      Member '''' (Struct [Member ''locked_pending'' typedef_u16, Member ''tail'' typedef_u16])])]"

lemma struct_qspinlock_layout [kernel_layout]:
  "sizeof struct_qspinlock = 4" "alignof struct_qspinlock = 4"
  by (simp_all add: struct_qspinlock_def kernel_eval kernel_layout)

definition typedef_arch_spinlock_t :: ctype where
  "typedef_arch_spinlock_t = struct_qspinlock"

lemma typedef_arch_spinlock_t_layout [kernel_layout]:
  "sizeof typedef_arch_spinlock_t = 4" "alignof typedef_arch_spinlock_t = 4"
  by (simp_all add: typedef_arch_spinlock_t_def kernel_eval kernel_layout)

definition struct_raw_spinlock :: ctype where
  "struct_raw_spinlock = Struct [
    Member ''raw_lock'' typedef_arch_spinlock_t]"

lemma struct_raw_spinlock_layout [kernel_layout]:
  "sizeof struct_raw_spinlock = 4" "alignof struct_raw_spinlock = 4"
  by (simp_all add: struct_raw_spinlock_def kernel_eval kernel_layout)

definition struct_spinlock :: ctype where
  "struct_spinlock = Struct [
    Member '''' (Union [Member ''rlock'' struct_raw_spinlock])]"

lemma struct_spinlock_layout [kernel_layout]:
  "sizeof struct_spinlock = 4" "alignof struct_spinlock = 4"
  by (simp_all add: struct_spinlock_def kernel_eval kernel_layout)

definition typedef_spinlock_t :: ctype where
  "typedef_spinlock_t = struct_spinlock"

lemma typedef_spinlock_t_layout [kernel_layout]:
  "sizeof typedef_spinlock_t = 4" "alignof typedef_spinlock_t = 4"
  by (simp_all add: typedef_spinlock_t_def kernel_eval kernel_layout)

definition typedef___u64 :: ctype where
  "typedef___u64 = Scalar 8"

lemma typedef___u64_layout [kernel_layout]:
  "sizeof typedef___u64 = 8" "alignof typedef___u64 = 8"
  by (simp_all add: typedef___u64_def kernel_eval kernel_layout)

definition typedef_u64 :: ctype where
  "typedef_u64 = typedef___u64"

lemma typedef_u64_layout [kernel_layout]:
  "sizeof typedef_u64 = 8" "alignof typedef_u64 = 8"
  by (simp_all add: typedef_u64_def kernel_eval kernel_layout)

definition typedef_blkcnt_t :: ctype where
  "typedef_blkcnt_t = typedef_u64"

lemma typedef_blkcnt_t_layout [kernel_layout]:
  "sizeof typedef_blkcnt_t = 8" "alignof typedef_blkcnt_t = 8"
  by (simp_all add: typedef_blkcnt_t_def kernel_eval kernel_layout)

definition typedef_s64 :: ctype where
  "typedef_s64 = typedef___s64"

lemma typedef_s64_layout [kernel_layout]:
  "sizeof typedef_s64 = 8" "alignof typedef_s64 = 8"
  by (simp_all add: typedef_s64_def kernel_eval kernel_layout)

definition typedef_atomic64_t :: ctype where
  "typedef_atomic64_t = Struct [
    Member ''counter'' typedef_s64]"

lemma typedef_atomic64_t_layout [kernel_layout]:
  "sizeof typedef_atomic64_t = 8" "alignof typedef_atomic64_t = 8"
  by (simp_all add: typedef_atomic64_t_def kernel_eval kernel_layout)

definition typedef_atomic_long_t :: ctype where
  "typedef_atomic_long_t = typedef_atomic64_t"

lemma typedef_atomic_long_t_layout [kernel_layout]:
  "sizeof typedef_atomic_long_t = 8" "alignof typedef_atomic_long_t = 8"
  by (simp_all add: typedef_atomic_long_t_def kernel_eval kernel_layout)

definition struct_optimistic_spin_queue :: ctype where
  "struct_optimistic_spin_queue = Struct [
    Member ''tail'' typedef_atomic_t]"

lemma struct_optimistic_spin_queue_layout [kernel_layout]:
  "sizeof struct_optimistic_spin_queue = 4" "alignof struct_optimistic_spin_queue = 4"
  by (simp_all add: struct_optimistic_spin_queue_def kernel_eval kernel_layout)

definition typedef_raw_spinlock_t :: ctype where
  "typedef_raw_spinlock_t = struct_raw_spinlock"

lemma typedef_raw_spinlock_t_layout [kernel_layout]:
  "sizeof typedef_raw_spinlock_t = 4" "alignof typedef_raw_spinlock_t = 4"
  by (simp_all add: typedef_raw_spinlock_t_def kernel_eval kernel_layout)

definition struct_rw_semaphore :: ctype where
  "struct_rw_semaphore = Struct [
    Member ''count'' typedef_atomic_long_t, Member ''owner'' typedef_atomic_long_t,
    Member ''osq'' struct_optimistic_spin_queue, Member ''wait_lock'' typedef_raw_spinlock_t,
    Member ''wait_list'' struct_list_head]"

lemma struct_rw_semaphore_layout [kernel_layout]:
  "sizeof struct_rw_semaphore = 40" "alignof struct_rw_semaphore = 8"
  by (simp_all add: struct_rw_semaphore_def kernel_eval kernel_layout)

definition struct_hlist_node :: ctype where
  "struct_hlist_node = Struct [
    Member ''next'' (Ptr ''struct hlist_node''), Member ''pprev'' (Ptr ''struct hlist_node *'')]"

lemma struct_hlist_node_layout [kernel_layout]:
  "sizeof struct_hlist_node = 16" "alignof struct_hlist_node = 8"
  by (simp_all add: struct_hlist_node_def kernel_eval kernel_layout)

definition struct_hlist_head :: ctype where
  "struct_hlist_head = Struct [
    Member ''first'' (Ptr ''struct hlist_node'')]"

lemma struct_hlist_head_layout [kernel_layout]:
  "sizeof struct_hlist_head = 8" "alignof struct_hlist_head = 8"
  by (simp_all add: struct_hlist_head_def kernel_eval kernel_layout)

definition struct_callback_head :: ctype where
  "struct_callback_head = Struct [
    Member ''next'' (Ptr ''struct callback_head''), Member ''func'' (Ptr ''()'')]"

lemma struct_callback_head_layout [kernel_layout]:
  "sizeof struct_callback_head = 16" "alignof struct_callback_head = 8"
  by (simp_all add: struct_callback_head_def kernel_eval kernel_layout)

definition typedef_gfp_t :: ctype where
  "typedef_gfp_t = Scalar 4"

lemma typedef_gfp_t_layout [kernel_layout]:
  "sizeof typedef_gfp_t = 4" "alignof typedef_gfp_t = 4"
  by (simp_all add: typedef_gfp_t_def kernel_eval kernel_layout)

definition struct_xarray :: ctype where
  "struct_xarray = Struct [
    Member ''xa_lock'' typedef_spinlock_t, Member ''xa_flags'' typedef_gfp_t,
    Member ''xa_head'' (Ptr ''void'')]"

lemma struct_xarray_layout [kernel_layout]:
  "sizeof struct_xarray = 16" "alignof struct_xarray = 8"
  by (simp_all add: struct_xarray_def kernel_eval kernel_layout)

definition struct_rb_root :: ctype where
  "struct_rb_root = Struct [
    Member ''rb_node'' (Ptr ''struct rb_node'')]"

lemma struct_rb_root_layout [kernel_layout]:
  "sizeof struct_rb_root = 8" "alignof struct_rb_root = 8"
  by (simp_all add: struct_rb_root_def kernel_eval kernel_layout)

definition struct_rb_root_cached :: ctype where
  "struct_rb_root_cached = Struct [
    Member ''rb_root'' struct_rb_root, Member ''rb_leftmost'' (Ptr ''struct rb_node'')]"

lemma struct_rb_root_cached_layout [kernel_layout]:
  "sizeof struct_rb_root_cached = 16" "alignof struct_rb_root_cached = 8"
  by (simp_all add: struct_rb_root_cached_def kernel_eval kernel_layout)

definition typedef_errseq_t :: ctype where
  "typedef_errseq_t = typedef_u32"

lemma typedef_errseq_t_layout [kernel_layout]:
  "sizeof typedef_errseq_t = 4" "alignof typedef_errseq_t = 4"
  by (simp_all add: typedef_errseq_t_def kernel_eval kernel_layout)

definition struct_address_space :: ctype where
  "struct_address_space = Struct [
    Member ''host'' (Ptr ''struct inode''), Member ''i_pages'' struct_xarray,
    Member ''invalidate_lock'' struct_rw_semaphore, Member ''gfp_mask'' typedef_gfp_t,
    Member ''i_mmap_writable'' typedef_atomic_t, Member ''i_mmap'' struct_rb_root_cached,
    Member ''nrpages'' (Scalar 8), Member ''writeback_index'' (Scalar 8),
    Member ''a_ops'' (Ptr ''struct address_space_operations''), Member ''flags'' (Scalar 8),
    Member ''i_mmap_rwsem'' struct_rw_semaphore, Member ''wb_err'' typedef_errseq_t,
    Member ''private_lock'' typedef_spinlock_t, Member ''private_list'' struct_list_head,
    Member ''private_data'' (Ptr ''void'')]"

lemma struct_address_space_layout [kernel_layout]:
  "sizeof struct_address_space = 192" "alignof struct_address_space = 8"
  by (simp_all add: struct_address_space_def kernel_eval kernel_layout)

definition struct_inode :: ctype where
  "struct_inode = Struct [
    Member ''i_mode'' typedef_umode_t, Member ''i_opflags'' (Scalar 2), Member ''i_uid'' typedef_kuid_t,
    Member ''i_lru'' struct_list_head, Member ''i_gid'' typedef_kgid_t, Member ''i_flags'' (Scalar 4),
    Member ''i_acl'' (Ptr ''struct posix_acl''), Member ''i_default_acl'' (Ptr ''struct posix_acl''),
    Member ''i_op'' (Ptr ''struct inode_operations''), Member ''i_sb'' (Ptr ''struct super_block''),
    Member ''i_mapping'' (Ptr ''struct address_space''), Member ''i_security'' (Ptr ''void''),
    Member ''i_ino'' (Scalar 8),
    Member '''' (Union [Member ''i_nlink'' (Scalar 4), Member ''__i_nlink'' (Scalar 4)]),
    Member ''i_rdev'' typedef_dev_t, Member ''i_size'' typedef_loff_t,
    Member ''i_atime'' struct_timespec64, Member ''i_mtime'' struct_timespec64,
    Member ''__i_ctime'' struct_timespec64, Member ''i_lock'' typedef_spinlock_t,
    Member ''i_bytes'' (Scalar 2), Member ''i_blkbits'' typedef_u8, Member ''i_write_hint'' typedef_u8,
    Member ''i_blocks'' typedef_blkcnt_t, Member ''i_state'' (Scalar 8),
    Member ''i_rwsem'' struct_rw_semaphore, Member ''dirtied_when'' (Scalar 8),
    Member ''dirtied_time_when'' (Scalar 8), Member ''i_hash'' struct_hlist_node,
    Member ''i_io_list'' struct_list_head, Member ''i_wb'' (Ptr ''struct bdi_writeback''),
    Member ''i_wb_frn_winner'' (Scalar 4), Member ''i_wb_frn_avg_time'' typedef_u16,
    Member ''i_wb_frn_history'' typedef_u16, Member ''i_sb_list'' struct_list_head,
    Member ''i_wb_list'' struct_list_head,
    Member '''' (Union [Member ''i_dentry'' struct_hlist_head, Member ''i_rcu'' struct_callback_head]),
    Member ''i_version'' typedef_atomic64_t, Member ''i_sequence'' typedef_atomic64_t,
    Member ''i_count'' typedef_atomic_t, Member ''i_dio_count'' typedef_atomic_t,
    Member ''i_writecount'' typedef_atomic_t, Member ''i_readcount'' typedef_atomic_t,
    Member '''' (Union [Member ''i_fop'' (Ptr ''struct file_operations''),
      Member ''free_inode'' (Ptr ''()'')]),
    Member ''i_flctx'' (Ptr ''struct file_lock_context''), Member ''i_data'' struct_address_space,
    Member ''i_devices'' struct_list_head,
    Member '''' (Union [Member ''i_pipe'' (Ptr ''struct pipe_inode_info''),
      Member ''i_cdev'' (Ptr ''struct cdev''), Member ''i_link'' (Ptr ''char''),
      Member ''i_dir_seq'' (Scalar 4)]),
    Member ''i_generation'' typedef___u32, Member ''i_fsnotify_mask'' typedef___u32,
    Member ''i_fsnotify_marks'' (Ptr ''struct fsnotify_mark_connector''),
    Member ''i_private'' (Ptr ''void'')]"

lemma struct_inode_layout [kernel_layout]:
  "sizeof struct_inode = 616" "alignof struct_inode = 8"
  by (simp_all add: struct_inode_def kernel_eval kernel_layout)

definition struct_llist_node :: ctype where
  "struct_llist_node = Struct [
    Member ''next'' (Ptr ''struct llist_node'')]"

lemma struct_llist_node_layout [kernel_layout]:
  "sizeof struct_llist_node = 8" "alignof struct_llist_node = 8"
  by (simp_all add: struct_llist_node_def kernel_eval kernel_layout)

definition typedef_fmode_t :: ctype where
  "typedef_fmode_t = Scalar 4"

lemma typedef_fmode_t_layout [kernel_layout]:
  "sizeof typedef_fmode_t = 4" "alignof typedef_fmode_t = 4"
  by (simp_all add: typedef_fmode_t_def kernel_eval kernel_layout)

definition struct_mutex :: ctype where
  "struct_mutex = Struct [
    Member ''owner'' typedef_atomic_long_t, Member ''wait_lock'' typedef_raw_spinlock_t,
    Member ''osq'' struct_optimistic_spin_queue, Member ''wait_list'' struct_list_head]"

lemma struct_mutex_layout [kernel_layout]:
  "sizeof struct_mutex = 32" "alignof struct_mutex = 8"
  by (simp_all add: struct_mutex_def kernel_eval kernel_layout)

definition struct_qrwlock :: ctype where
  "struct_qrwlock = Struct [
    Member '''' (Union [Member ''cnts'' typedef_atomic_t,
      Member '''' (Struct [Member ''wlocked'' typedef_u8, Member ''__lstate'' (Arr (typedef_u8) 3)])]),
    Member ''wait_lock'' typedef_arch_spinlock_t]"

lemma struct_qrwlock_layout [kernel_layout]:
  "sizeof struct_qrwlock = 8" "alignof struct_qrwlock = 4"
  by (simp_all add: struct_qrwlock_def kernel_eval kernel_layout)

definition typedef_arch_rwlock_t :: ctype where
  "typedef_arch_rwlock_t = struct_qrwlock"

lemma typedef_arch_rwlock_t_layout [kernel_layout]:
  "sizeof typedef_arch_rwlock_t = 8" "alignof typedef_arch_rwlock_t = 4"
  by (simp_all add: typedef_arch_rwlock_t_def kernel_eval kernel_layout)

definition typedef_rwlock_t :: ctype where
  "typedef_rwlock_t = Struct [
    Member ''raw_lock'' typedef_arch_rwlock_t]"

lemma typedef_rwlock_t_layout [kernel_layout]:
  "sizeof typedef_rwlock_t = 8" "alignof typedef_rwlock_t = 4"
  by (simp_all add: typedef_rwlock_t_def kernel_eval kernel_layout)

definition enum_pid_type :: "(string \<times> int) list" where
  "enum_pid_type = [
    (''PIDTYPE_PID'', 0), (''PIDTYPE_TGID'', 1), (''PIDTYPE_PGID'', 2), (''PIDTYPE_SID'', 3),
    (''PIDTYPE_MAX'', 4)]"

definition struct_fown_struct :: ctype where
  "struct_fown_struct = Struct [
    Member ''lock'' typedef_rwlock_t, Member ''pid'' (Ptr ''struct pid''), Member ''pid_type'' c_enum,
    Member ''uid'' typedef_kuid_t, Member ''euid'' typedef_kuid_t, Member ''signum'' (Scalar 4)]"

lemma struct_fown_struct_layout [kernel_layout]:
  "sizeof struct_fown_struct = 32" "alignof struct_fown_struct = 8"
  by (simp_all add: struct_fown_struct_def kernel_eval kernel_layout)

definition struct_file_ra_state :: ctype where
  "struct_file_ra_state = Struct [
    Member ''start'' (Scalar 8), Member ''size'' (Scalar 4), Member ''async_size'' (Scalar 4),
    Member ''ra_pages'' (Scalar 4), Member ''mmap_miss'' (Scalar 4), Member ''prev_pos'' typedef_loff_t]"

lemma struct_file_ra_state_layout [kernel_layout]:
  "sizeof struct_file_ra_state = 32" "alignof struct_file_ra_state = 8"
  by (simp_all add: struct_file_ra_state_def kernel_eval kernel_layout)

definition struct_path :: ctype where
  "struct_path = Struct [
    Member ''mnt'' (Ptr ''struct vfsmount''), Member ''dentry'' (Ptr ''struct dentry'')]"

lemma struct_path_layout [kernel_layout]:
  "sizeof struct_path = 16" "alignof struct_path = 8"
  by (simp_all add: struct_path_def kernel_eval kernel_layout)

definition struct_file :: ctype where
  "struct_file = Struct [
    Member '''' (Union [Member ''f_llist'' struct_llist_node,
      Member ''f_rcuhead'' struct_callback_head, Member ''f_iocb_flags'' (Scalar 4)]),
    Member ''f_lock'' typedef_spinlock_t, Member ''f_mode'' typedef_fmode_t,
    Member ''f_count'' typedef_atomic_long_t, Member ''f_pos_lock'' struct_mutex,
    Member ''f_pos'' typedef_loff_t, Member ''f_flags'' (Scalar 4),
    Member ''f_owner'' struct_fown_struct, Member ''f_cred'' (Ptr ''struct cred''),
    Member ''f_ra'' struct_file_ra_state, Member ''f_path'' struct_path,
    Member ''f_inode'' (Ptr ''struct inode''), Member ''f_op'' (Ptr ''struct file_operations''),
    Member ''f_version'' typedef_u64, Member ''f_security'' (Ptr ''void''),
    Member ''private_data'' (Ptr ''void''), Member ''f_ep'' (Ptr ''struct hlist_head''),
    Member ''f_mapping'' (Ptr ''struct address_space''), Member ''f_wb_err'' typedef_errseq_t,
    Member ''f_sb_err'' typedef_errseq_t]"

lemma struct_file_layout [kernel_layout]:
  "sizeof struct_file = 232" "alignof struct_file = 8"
  by (simp_all add: struct_file_def kernel_eval kernel_layout)

definition struct_fdtable :: ctype where
  "struct_fdtable = Struct [
    Member ''max_fds'' (Scalar 4), Member ''fd'' (Ptr ''struct file *''),
    Member ''close_on_exec'' (Ptr ''long unsigned int''),
    Member ''open_fds'' (Ptr ''long unsigned int''),
    Member ''full_fds_bits'' (Ptr ''long unsigned int''), Member ''rcu'' struct_callback_head]"

lemma struct_fdtable_layout [kernel_layout]:
  "sizeof struct_fdtable = 56" "alignof struct_fdtable = 8"
  by (simp_all add: struct_fdtable_def kernel_eval kernel_layout)

definition typedef_bool :: ctype where
  "typedef_bool = Scalar 1"

lemma typedef_bool_layout [kernel_layout]:
  "sizeof typedef_bool = 1" "alignof typedef_bool = 1"
  by (simp_all add: typedef_bool_def kernel_eval kernel_layout)

definition struct_wait_queue_head :: ctype where
  "struct_wait_queue_head = Struct [
    Member ''lock'' typedef_spinlock_t, Member ''head'' struct_list_head]"

lemma struct_wait_queue_head_layout [kernel_layout]:
  "sizeof struct_wait_queue_head = 24" "alignof struct_wait_queue_head = 8"
  by (simp_all add: struct_wait_queue_head_def kernel_eval kernel_layout)

definition typedef_wait_queue_head_t :: ctype where
  "typedef_wait_queue_head_t = struct_wait_queue_head"

lemma typedef_wait_queue_head_t_layout [kernel_layout]:
  "sizeof typedef_wait_queue_head_t = 24" "alignof typedef_wait_queue_head_t = 8"
  by (simp_all add: typedef_wait_queue_head_t_def kernel_eval kernel_layout)

definition struct_files_struct :: ctype where
  "struct_files_struct = Struct [
    Member ''count'' typedef_atomic_t, Member ''resize_in_progress'' typedef_bool,
    Member ''resize_wait'' typedef_wait_queue_head_t, Member ''fdt'' (Ptr ''struct fdtable''),
    Member ''fdtab'' struct_fdtable, Bits '''' 8 64, Bits '''' 8 64, Bits '''' 8 64, Bits '''' 8 64,
    Member ''file_lock'' typedef_spinlock_t, Member ''next_fd'' (Scalar 4),
    Member ''close_on_exec_init'' (Arr (Scalar 8) 1), Member ''open_fds_init'' (Arr (Scalar 8) 1),
    Member ''full_fds_bits_init'' (Arr (Scalar 8) 1),
    Member ''fd_array'' (Arr (Ptr ''struct file'') 64), Bits '''' 8 64, Bits '''' 8 64, Bits '''' 8 64,
    Bits '''' 8 64]"

lemma struct_files_struct_layout [kernel_layout]:
  "sizeof struct_files_struct = 704" "alignof struct_files_struct = 8"
  by (simp_all add: struct_files_struct_def kernel_eval kernel_layout)

end
