(* ===== verification/Kernel_Task.thy ===== *)
theory Kernel_Task
  imports Kernel_Files
begin

text \<open>
  \<open>task_struct\<close> of \<open>vmlinux.h\<close> with every type it contains by value, the register block
  \<open>pt_regs\<close> the uprobes read their arguments from, and the contexts of the two tracepoints.
\<close>

definition struct_fred_cs :: ctype where
  "struct_fred_cs = Struct [
    Bits ''cs'' 8 16, Bits ''sl'' 8 2, Bits ''wfe'' 8 1]"

lemma struct_fred_cs_layout [kernel_layout]:
  "sizeof struct_fred_cs = 8" "alignof struct_fred_cs = 8"
  by (simp_all add: struct_fred_cs_def kernel_eval kernel_layout)

definition struct_fred_ss :: ctype where
  "struct_fred_ss = Struct [
    Bits ''ss'' 8 16, Bits ''sti'' 8 1, Bits ''swevent'' 8 1, Bits ''nmi'' 8 1, Bits '''' 4 13,
    Bits ''vector'' 8 8, Bits '''' 2 8, Bits ''type'' 8 4, Bits '''' 1 4, Bits ''enclave'' 8 1,
    Bits ''lm'' 8 1, Bits ''nested'' 8 1, Bits '''' 1 1, Bits ''insnlen'' 8 4]"

lemma struct_fred_ss_layout [kernel_layout]:
  "sizeof struct_fred_ss = 8" "alignof struct_fred_ss = 8"
  by (simp_all add: struct_fred_ss_def kernel_eval kernel_layout)

definition struct_pt_regs :: ctype where
  "struct_pt_regs = Struct [
    Member ''r15'' (Scalar 8), Member ''r14'' (Scalar 8), Member ''r13'' (Scalar 8),
    Member ''r12'' (Scalar 8), Member ''bp'' (Scalar 8), Member ''bx'' (Scalar 8),
    Member ''r11'' (Scalar 8), Member ''r10'' (Scalar 8), Member ''r9'' (Scalar 8),
    Member ''r8'' (Scalar 8), Member ''ax'' (Scalar 8), Member ''cx'' (Scalar 8),
    Member ''dx'' (Scalar 8), Member ''si'' (Scalar 8), Member ''di'' (Scalar 8),
    Member ''orig_ax'' (Scalar 8), Member ''ip'' (Scalar 8),
    Member '''' (Union [Member ''cs'' typedef_u16, Member ''csx'' typedef_u64,
      Member ''fred_cs'' struct_fred_cs]),
    Member ''flags'' (Scalar 8), Member ''sp'' (Scalar 8),
    Member '''' (Union [Member ''ss'' typedef_u16, Member ''ssx'' typedef_u64,
      Member ''fred_ss'' struct_fred_ss])]"

lemma struct_pt_regs_layout [kernel_layout]:
  "sizeof struct_pt_regs = 168" "alignof struct_pt_regs = 8"
  by (simp_all add: struct_pt_regs_def kernel_eval kernel_layout)

definition struct_trace_entry :: ctype where
  "struct_trace_entry = Struct [
    Member ''type'' (Scalar 2), Member ''flags'' (Scalar 1), Member ''preempt_count'' (Scalar 1),
    Member ''pid'' (Scalar 4)]"

lemma struct_trace_entry_layout [kernel_layout]:
  "sizeof struct_trace_entry = 8" "alignof struct_trace_entry = 4"
  by (simp_all add: struct_trace_entry_def kernel_eval kernel_layout)

definition struct_trace_event_raw_sys_enter :: ctype where
  "struct_trace_event_raw_sys_enter = Struct [
    Member ''ent'' struct_trace_entry, Member ''id'' (Scalar 8), Member ''args'' (Arr (Scalar 8) 6),
    Member ''__data'' (Arr (Scalar 1) 0)]"

lemma struct_trace_event_raw_sys_enter_layout [kernel_layout]:
  "sizeof struct_trace_event_raw_sys_enter = 64" "alignof struct_trace_event_raw_sys_enter = 8"
  by (simp_all add: struct_trace_event_raw_sys_enter_def kernel_eval kernel_layout)

definition typedef___kernel_pid_t :: ctype where
  "typedef___kernel_pid_t = Scalar 4"

lemma typedef___kernel_pid_t_layout [kernel_layout]:
  "sizeof typedef___kernel_pid_t = 4" "alignof typedef___kernel_pid_t = 4"
  by (simp_all add: typedef___kernel_pid_t_def kernel_eval kernel_layout)

definition typedef_pid_t :: ctype where
  "typedef_pid_t = typedef___kernel_pid_t"

lemma typedef_pid_t_layout [kernel_layout]:
  "sizeof typedef_pid_t = 4" "alignof typedef_pid_t = 4"
  by (simp_all add: typedef_pid_t_def kernel_eval kernel_layout)

definition struct_trace_event_raw_sched_process_template :: ctype where
  "struct_trace_event_raw_sched_process_template = Struct [
    Member ''ent'' struct_trace_entry, Member ''comm'' (Arr (Scalar 1) 16),
    Member ''pid'' typedef_pid_t, Member ''prio'' (Scalar 4), Member ''__data'' (Arr (Scalar 1) 0)]"

lemma struct_trace_event_raw_sched_process_template_layout [kernel_layout]:
  "sizeof struct_trace_event_raw_sched_process_template = 32" "alignof struct_trace_event_raw_sched_process_template = 4"
  by (simp_all add: struct_trace_event_raw_sched_process_template_def kernel_eval kernel_layout)

definition struct_thread_info :: ctype where
  "struct_thread_info = Struct [
    Member ''flags'' (Scalar 8), Member ''syscall_work'' (Scalar 8), Member ''status'' typedef_u32,
    Member ''cpu'' typedef_u32]"

lemma struct_thread_info_layout [kernel_layout]:
  "sizeof struct_thread_info = 24" "alignof struct_thread_info = 8"
  by (simp_all add: struct_thread_info_def kernel_eval kernel_layout)

definition struct_refcount_struct :: ctype where
  "struct_refcount_struct = Struct [
    Member ''refs'' typedef_atomic_t]"

lemma struct_refcount_struct_layout [kernel_layout]:
  "sizeof struct_refcount_struct = 4" "alignof struct_refcount_struct = 4"
  by (simp_all add: struct_refcount_struct_def kernel_eval kernel_layout)

definition typedef_refcount_t :: ctype where
  "typedef_refcount_t = struct_refcount_struct"

lemma typedef_refcount_t_layout [kernel_layout]:
  "sizeof typedef_refcount_t = 4" "alignof typedef_refcount_t = 4"
  by (simp_all add: typedef_refcount_t_def kernel_eval kernel_layout)

definition struct___call_single_node :: ctype where
  "struct___call_single_node = Struct [
    Member ''llist'' struct_llist_node,
    Member '''' (Union [Member ''u_flags'' (Scalar 4), Member ''a_flags'' typedef_atomic_t]),
    Member ''src'' typedef_u16, Member ''dst'' typedef_u16]"

lemma struct___call_single_node_layout [kernel_layout]:
  "sizeof struct___call_single_node = 16" "alignof struct___call_single_node = 8"
  by (simp_all add: struct___call_single_node_def kernel_eval kernel_layout)

definition struct_load_weight :: ctype where
  "struct_load_weight = Struct [
    Member ''weight'' (Scalar 8), Member ''inv_weight'' typedef_u32]"

lemma struct_load_weight_layout [kernel_layout]:
  "sizeof struct_load_weight = 16" "alignof struct_load_weight = 8"
  by (simp_all add: struct_load_weight_def kernel_eval kernel_layout)

definition struct_rb_node :: ctype where
  "struct_rb_node = Struct [
    Member ''__rb_parent_color'' (Scalar 8), Member ''rb_right'' (Ptr ''struct rb_node''),
    Member ''rb_left'' (Ptr ''struct rb_node'')]"

lemma struct_rb_node_layout [kernel_layout]:
  "sizeof struct_rb_node = 24" "alignof struct_rb_node = 8"
  by (simp_all add: struct_rb_node_def kernel_eval kernel_layout)

definition struct_util_est :: ctype where
  "struct_util_est = Struct [
    Member ''enqueued'' (Scalar 4), Member ''ewma'' (Scalar 4)]"

lemma struct_util_est_layout [kernel_layout]:
  "sizeof struct_util_est = 8" "alignof struct_util_est = 4"
  by (simp_all add: struct_util_est_def kernel_eval kernel_layout)

definition struct_sched_avg :: ctype where
  "struct_sched_avg = Struct [
    Member ''last_update_time'' typedef_u64, Member ''load_sum'' typedef_u64,
    Member ''runnable_sum'' typedef_u64, Member ''util_sum'' typedef_u32,
    Member ''period_contrib'' typedef_u32, Member ''load_avg'' (Scalar 8),
    Member ''runnable_avg'' (Scalar 8), Member ''util_avg'' (Scalar 8),
    Member ''util_est'' struct_util_est]"

lemma struct_sched_avg_layout [kernel_layout]:
  "sizeof struct_sched_avg = 64" "alignof struct_sched_avg = 8"
  by (simp_all add: struct_sched_avg_def kernel_eval kernel_layout)

definition struct_sched_entity :: ctype where
  "struct_sched_entity = Struct [
    Member ''load'' struct_load_weight, Member ''run_node'' struct_rb_node,
    Member ''deadline'' typedef_u64, Member ''min_deadline'' typedef_u64,
    Member ''group_node'' struct_list_head, Member ''on_rq'' (Scalar 4),
    Member ''exec_start'' typedef_u64, Member ''sum_exec_runtime'' typedef_u64,
    Member ''prev_sum_exec_runtime'' typedef_u64, Member ''vruntime'' typedef_u64,
    Member ''vlag'' typedef_s64, Member ''slice'' typedef_u64, Member ''nr_migrations'' typedef_u64,
    Member ''depth'' (Scalar 4), Member ''parent'' (Ptr ''struct sched_entity''),
    Member ''cfs_rq'' (Ptr ''struct cfs_rq''), Member ''my_q'' (Ptr ''struct cfs_rq''),
    Member ''runnable_weight'' (Scalar 8), Bits '''' 8 64, Bits '''' 8 64,
    Member ''avg'' struct_sched_avg]"

lemma struct_sched_entity_layout [kernel_layout]:
  "sizeof struct_sched_entity = 256" "alignof struct_sched_entity = 8"
  by (simp_all add: struct_sched_entity_def kernel_eval kernel_layout)

definition struct_sched_rt_entity :: ctype where
  "struct_sched_rt_entity = Struct [
    Member ''run_list'' struct_list_head, Member ''timeout'' (Scalar 8),
    Member ''watchdog_stamp'' (Scalar 8), Member ''time_slice'' (Scalar 4), Member ''on_rq'' (Scalar 2),
    Member ''on_list'' (Scalar 2), Member ''back'' (Ptr ''struct sched_rt_entity'')]"

lemma struct_sched_rt_entity_layout [kernel_layout]:
  "sizeof struct_sched_rt_entity = 48" "alignof struct_sched_rt_entity = 8"
  by (simp_all add: struct_sched_rt_entity_def kernel_eval kernel_layout)

definition typedef_ktime_t :: ctype where
  "typedef_ktime_t = typedef_s64"

lemma typedef_ktime_t_layout [kernel_layout]:
  "sizeof typedef_ktime_t = 8" "alignof typedef_ktime_t = 8"
  by (simp_all add: typedef_ktime_t_def kernel_eval kernel_layout)

definition struct_timerqueue_node :: ctype where
  "struct_timerqueue_node = Struct [
    Member ''node'' struct_rb_node, Member ''expires'' typedef_ktime_t]"

lemma struct_timerqueue_node_layout [kernel_layout]:
  "sizeof struct_timerqueue_node = 32" "alignof struct_timerqueue_node = 8"
  by (simp_all add: struct_timerqueue_node_def kernel_eval kernel_layout)

definition struct_hrtimer :: ctype where
  "struct_hrtimer = Struct [
    Member ''node'' struct_timerqueue_node, Member ''_softexpires'' typedef_ktime_t,
    Member ''function'' (Ptr ''()''), Member ''base'' (Ptr ''struct hrtimer_clock_base''),
    Member ''state'' typedef_u8, Member ''is_rel'' typedef_u8, Member ''is_soft'' typedef_u8,
    Member ''is_hard'' typedef_u8]"

lemma struct_hrtimer_layout [kernel_layout]:
  "sizeof struct_hrtimer = 64" "alignof struct_hrtimer = 8"
  by (simp_all add: struct_hrtimer_def kernel_eval kernel_layout)

definition struct_sched_dl_entity :: ctype where
  "struct_sched_dl_entity = Struct [
    Member ''rb_node'' struct_rb_node, Member ''dl_runtime'' typedef_u64,
    Member ''dl_deadline'' typedef_u64, Member ''dl_period'' typedef_u64, Member ''dl_bw'' typedef_u64,
    Member ''dl_density'' typedef_u64, Member ''runtime'' typedef_s64, Member ''deadline'' typedef_u64,
    Member ''flags'' (Scalar 4), Bits ''dl_throttled'' 4 1, Bits ''dl_yielded'' 4 1,
    Bits ''dl_non_contending'' 4 1, Bits ''dl_overrun'' 4 1, Member ''dl_timer'' struct_hrtimer,
    Member ''inactive_timer'' struct_hrtimer, Member ''pi_se'' (Ptr ''struct sched_dl_entity'')]"

lemma struct_sched_dl_entity_layout [kernel_layout]:
  "sizeof struct_sched_dl_entity = 224" "alignof struct_sched_dl_entity = 8"
  by (simp_all add: struct_sched_dl_entity_def kernel_eval kernel_layout)

definition struct_sched_statistics :: ctype where
  "struct_sched_statistics = Struct [
    Member ''wait_start'' typedef_u64, Member ''wait_max'' typedef_u64,
    Member ''wait_count'' typedef_u64, Member ''wait_sum'' typedef_u64,
    Member ''iowait_count'' typedef_u64, Member ''iowait_sum'' typedef_u64,
    Member ''sleep_start'' typedef_u64, Member ''sleep_max'' typedef_u64,
    Member ''sum_sleep_runtime'' typedef_s64, Member ''block_start'' typedef_u64,
    Member ''block_max'' typedef_u64, Member ''sum_block_runtime'' typedef_s64,
    Member ''exec_max'' typedef_s64, Member ''slice_max'' typedef_u64,
    Member ''nr_migrations_cold'' typedef_u64, Member ''nr_failed_migrations_affine'' typedef_u64,
    Member ''nr_failed_migrations_running'' typedef_u64,
    Member ''nr_failed_migrations_hot'' typedef_u64, Member ''nr_forced_migrations'' typedef_u64,
    Member ''nr_wakeups'' typedef_u64, Member ''nr_wakeups_sync'' typedef_u64,
    Member ''nr_wakeups_migrate'' typedef_u64, Member ''nr_wakeups_local'' typedef_u64,
    Member ''nr_wakeups_remote'' typedef_u64, Member ''nr_wakeups_affine'' typedef_u64,
    Member ''nr_wakeups_affine_attempts'' typedef_u64, Member ''nr_wakeups_passive'' typedef_u64,
    Member ''nr_wakeups_idle'' typedef_u64, Bits '''' 8 64, Bits '''' 8 64, Bits '''' 8 64,
    Bits '''' 8 64]"

lemma struct_sched_statistics_layout [kernel_layout]:
  "sizeof struct_sched_statistics = 256" "alignof struct_sched_statistics = 8"
  by (simp_all add: struct_sched_statistics_def kernel_eval kernel_layout)

definition struct_cpumask :: ctype where
  "struct_cpumask = Struct [
    Member ''bits'' (Arr (Scalar 8) 128)]"

lemma struct_cpumask_layout [kernel_layout]:
  "sizeof struct_cpumask = 1024" "alignof struct_cpumask = 8"
  by (simp_all add: struct_cpumask_def kernel_eval kernel_layout)

definition typedef_cpumask_t :: ctype where
  "typedef_cpumask_t = struct_cpumask"

lemma typedef_cpumask_t_layout [kernel_layout]:
  "sizeof typedef_cpumask_t = 1024" "alignof typedef_cpumask_t = 8"
  by (simp_all add: typedef_cpumask_t_def kernel_eval kernel_layout)

definition union_rcu_special :: ctype where
  "union_rcu_special = Union [
    Member ''b'' (Struct [Member ''blocked'' typedef_u8, Member ''need_qs'' typedef_u8,
      Member ''exp_hint'' typedef_u8, Member ''need_mb'' typedef_u8]),
    Member ''s'' typedef_u32]"

lemma union_rcu_special_layout [kernel_layout]:
  "sizeof union_rcu_special = 4" "alignof union_rcu_special = 4"
  by (simp_all add: union_rcu_special_def kernel_eval kernel_layout)

definition struct_sched_info :: ctype where
  "struct_sched_info = Struct [
    Member ''pcount'' (Scalar 8), Member ''run_delay'' (Scalar 8), Member ''last_arrival'' (Scalar 8),
    Member ''last_queued'' (Scalar 8)]"

lemma struct_sched_info_layout [kernel_layout]:
  "sizeof struct_sched_info = 32" "alignof struct_sched_info = 8"
  by (simp_all add: struct_sched_info_def kernel_eval kernel_layout)

definition struct_plist_node :: ctype where
  "struct_plist_node = Struct [
    Member ''prio'' (Scalar 4), Member ''prio_list'' struct_list_head,
    Member ''node_list'' struct_list_head]"

lemma struct_plist_node_layout [kernel_layout]:
  "sizeof struct_plist_node = 40" "alignof struct_plist_node = 8"
  by (simp_all add: struct_plist_node_def kernel_eval kernel_layout)

definition typedef___kernel_clockid_t :: ctype where
  "typedef___kernel_clockid_t = Scalar 4"

lemma typedef___kernel_clockid_t_layout [kernel_layout]:
  "sizeof typedef___kernel_clockid_t = 4" "alignof typedef___kernel_clockid_t = 4"
  by (simp_all add: typedef___kernel_clockid_t_def kernel_eval kernel_layout)

definition typedef_clockid_t :: ctype where
  "typedef_clockid_t = typedef___kernel_clockid_t"

lemma typedef_clockid_t_layout [kernel_layout]:
  "sizeof typedef_clockid_t = 4" "alignof typedef_clockid_t = 4"
  by (simp_all add: typedef_clockid_t_def kernel_eval kernel_layout)

definition enum_timespec_type :: "(string \<times> int) list" where
  "enum_timespec_type = [
    (''TT_NONE'', 0), (''TT_NATIVE'', 1), (''TT_COMPAT'', 2)]"

definition struct_restart_block :: ctype where
  "struct_restart_block = Struct [
    Member ''arch_data'' (Scalar 8), Member ''fn'' (Ptr ''()''),
    Member '''' (Union [Member ''futex'' (Struct [Member ''uaddr'' (Ptr ''u32''),
      Member ''val'' typedef_u32, Member ''flags'' typedef_u32, Member ''bitset'' typedef_u32,
      Member ''time'' typedef_u64, Member ''uaddr2'' (Ptr ''u32'')]),
      Member ''nanosleep'' (Struct [Member ''clockid'' typedef_clockid_t, Member ''type'' c_enum,
      Member '''' (Union [Member ''rmtp'' (Ptr ''struct __kernel_timespec''),
      Member ''compat_rmtp'' (Ptr ''struct old_timespec32'')]), Member ''expires'' typedef_u64]),
      Member ''poll'' (Struct [Member ''ufds'' (Ptr ''struct pollfd''), Member ''nfds'' (Scalar 4),
      Member ''has_timeout'' (Scalar 4), Member ''tv_sec'' (Scalar 8), Member ''tv_nsec'' (Scalar 8)])])]"

lemma struct_restart_block_layout [kernel_layout]:
  "sizeof struct_restart_block = 56" "alignof struct_restart_block = 8"
  by (simp_all add: struct_restart_block_def kernel_eval kernel_layout)

definition struct_prev_cputime :: ctype where
  "struct_prev_cputime = Struct [
    Member ''utime'' typedef_u64, Member ''stime'' typedef_u64, Member ''lock'' typedef_raw_spinlock_t]"

lemma struct_prev_cputime_layout [kernel_layout]:
  "sizeof struct_prev_cputime = 24" "alignof struct_prev_cputime = 8"
  by (simp_all add: struct_prev_cputime_def kernel_eval kernel_layout)

definition struct_timerqueue_head :: ctype where
  "struct_timerqueue_head = Struct [
    Member ''rb_root'' struct_rb_root_cached]"

lemma struct_timerqueue_head_layout [kernel_layout]:
  "sizeof struct_timerqueue_head = 16" "alignof struct_timerqueue_head = 8"
  by (simp_all add: struct_timerqueue_head_def kernel_eval kernel_layout)

definition struct_posix_cputimer_base :: ctype where
  "struct_posix_cputimer_base = Struct [
    Member ''nextevt'' typedef_u64, Member ''tqhead'' struct_timerqueue_head]"

lemma struct_posix_cputimer_base_layout [kernel_layout]:
  "sizeof struct_posix_cputimer_base = 24" "alignof struct_posix_cputimer_base = 8"
  by (simp_all add: struct_posix_cputimer_base_def kernel_eval kernel_layout)

definition struct_posix_cputimers :: ctype where
  "struct_posix_cputimers = Struct [
    Member ''bases'' (Arr (struct_posix_cputimer_base) 3), Member ''timers_active'' (Scalar 4),
    Member ''expiry_active'' (Scalar 4)]"

lemma struct_posix_cputimers_layout [kernel_layout]:
  "sizeof struct_posix_cputimers = 80" "alignof struct_posix_cputimers = 8"
  by (simp_all add: struct_posix_cputimers_def kernel_eval kernel_layout)

definition struct_posix_cputimers_work :: ctype where
  "struct_posix_cputimers_work = Struct [
    Member ''work'' struct_callback_head, Member ''mutex'' struct_mutex, Member ''scheduled'' (Scalar 4)]"

lemma struct_posix_cputimers_work_layout [kernel_layout]:
  "sizeof struct_posix_cputimers_work = 56" "alignof struct_posix_cputimers_work = 8"
  by (simp_all add: struct_posix_cputimers_work_def kernel_eval kernel_layout)

definition struct_sysv_sem :: ctype where
  "struct_sysv_sem = Struct [
    Member ''undo_list'' (Ptr ''struct sem_undo_list'')]"

lemma struct_sysv_sem_layout [kernel_layout]:
  "sizeof struct_sysv_sem = 8" "alignof struct_sysv_sem = 8"
  by (simp_all add: struct_sysv_sem_def kernel_eval kernel_layout)

definition struct_sysv_shm :: ctype where
  "struct_sysv_shm = Struct [
    Member ''shm_clist'' struct_list_head]"

lemma struct_sysv_shm_layout [kernel_layout]:
  "sizeof struct_sysv_shm = 16" "alignof struct_sysv_shm = 8"
  by (simp_all add: struct_sysv_shm_def kernel_eval kernel_layout)

definition typedef_sigset_t :: ctype where
  "typedef_sigset_t = Struct [
    Member ''sig'' (Arr (Scalar 8) 1)]"

lemma typedef_sigset_t_layout [kernel_layout]:
  "sizeof typedef_sigset_t = 8" "alignof typedef_sigset_t = 8"
  by (simp_all add: typedef_sigset_t_def kernel_eval kernel_layout)

definition struct_sigpending :: ctype where
  "struct_sigpending = Struct [
    Member ''list'' struct_list_head, Member ''signal'' typedef_sigset_t]"

lemma struct_sigpending_layout [kernel_layout]:
  "sizeof struct_sigpending = 24" "alignof struct_sigpending = 8"
  by (simp_all add: struct_sigpending_def kernel_eval kernel_layout)

definition typedef___kernel_ulong_t :: ctype where
  "typedef___kernel_ulong_t = Scalar 8"

lemma typedef___kernel_ulong_t_layout [kernel_layout]:
  "sizeof typedef___kernel_ulong_t = 8" "alignof typedef___kernel_ulong_t = 8"
  by (simp_all add: typedef___kernel_ulong_t_def kernel_eval kernel_layout)

definition typedef___kernel_size_t :: ctype where
  "typedef___kernel_size_t = typedef___kernel_ulong_t"

lemma typedef___kernel_size_t_layout [kernel_layout]:
  "sizeof typedef___kernel_size_t = 8" "alignof typedef___kernel_size_t = 8"
  by (simp_all add: typedef___kernel_size_t_def kernel_eval kernel_layout)

definition typedef_size_t :: ctype where
  "typedef_size_t = typedef___kernel_size_t"

lemma typedef_size_t_layout [kernel_layout]:
  "sizeof typedef_size_t = 8" "alignof typedef_size_t = 8"
  by (simp_all add: typedef_size_t_def kernel_eval kernel_layout)

definition struct_seccomp :: ctype where
  "struct_seccomp = Struct [
    Member ''mode'' (Scalar 4), Member ''filter_count'' typedef_atomic_t,
    Member ''filter'' (Ptr ''struct seccomp_filter'')]"

lemma struct_seccomp_layout [kernel_layout]:
  "sizeof struct_seccomp = 16" "alignof struct_seccomp = 8"
  by (simp_all add: struct_seccomp_def kernel_eval kernel_layout)

definition struct_syscall_user_dispatch :: ctype where
  "struct_syscall_user_dispatch = Struct [
    Member ''selector'' (Ptr ''char''), Member ''offset'' (Scalar 8), Member ''len'' (Scalar 8),
    Member ''on_dispatch'' typedef_bool]"

lemma struct_syscall_user_dispatch_layout [kernel_layout]:
  "sizeof struct_syscall_user_dispatch = 32" "alignof struct_syscall_user_dispatch = 8"
  by (simp_all add: struct_syscall_user_dispatch_def kernel_eval kernel_layout)

definition struct_wake_q_node :: ctype where
  "struct_wake_q_node = Struct [
    Member ''next'' (Ptr ''struct wake_q_node'')]"

lemma struct_wake_q_node_layout [kernel_layout]:
  "sizeof struct_wake_q_node = 8" "alignof struct_wake_q_node = 8"
  by (simp_all add: struct_wake_q_node_def kernel_eval kernel_layout)

definition struct_task_io_accounting :: ctype where
  "struct_task_io_accounting = Struct [
    Member ''rchar'' typedef_u64, Member ''wchar'' typedef_u64, Member ''syscr'' typedef_u64,
    Member ''syscw'' typedef_u64, Member ''read_bytes'' typedef_u64, Member ''write_bytes'' typedef_u64,
    Member ''cancelled_write_bytes'' typedef_u64]"

lemma struct_task_io_accounting_layout [kernel_layout]:
  "sizeof struct_task_io_accounting = 56" "alignof struct_task_io_accounting = 8"
  by (simp_all add: struct_task_io_accounting_def kernel_eval kernel_layout)

definition typedef_nodemask_t :: ctype where
  "typedef_nodemask_t = Struct [
    Member ''bits'' (Arr (Scalar 8) 16)]"

lemma typedef_nodemask_t_layout [kernel_layout]:
  "sizeof typedef_nodemask_t = 128" "alignof typedef_nodemask_t = 8"
  by (simp_all add: typedef_nodemask_t_def kernel_eval kernel_layout)

definition struct_seqcount :: ctype where
  "struct_seqcount = Struct [
    Member ''sequence'' (Scalar 4)]"

lemma struct_seqcount_layout [kernel_layout]:
  "sizeof struct_seqcount = 4" "alignof struct_seqcount = 4"
  by (simp_all add: struct_seqcount_def kernel_eval kernel_layout)

definition typedef_seqcount_t :: ctype where
  "typedef_seqcount_t = struct_seqcount"

lemma typedef_seqcount_t_layout [kernel_layout]:
  "sizeof typedef_seqcount_t = 4" "alignof typedef_seqcount_t = 4"
  by (simp_all add: typedef_seqcount_t_def kernel_eval kernel_layout)

definition struct_seqcount_spinlock :: ctype where
  "struct_seqcount_spinlock = Struct [
    Member ''seqcount'' typedef_seqcount_t]"

lemma struct_seqcount_spinlock_layout [kernel_layout]:
  "sizeof struct_seqcount_spinlock = 4" "alignof struct_seqcount_spinlock = 4"
  by (simp_all add: struct_seqcount_spinlock_def kernel_eval kernel_layout)

definition typedef_seqcount_spinlock_t :: ctype where
  "typedef_seqcount_spinlock_t = struct_seqcount_spinlock"

lemma typedef_seqcount_spinlock_t_layout [kernel_layout]:
  "sizeof typedef_seqcount_spinlock_t = 4" "alignof typedef_seqcount_spinlock_t = 4"
  by (simp_all add: typedef_seqcount_spinlock_t_def kernel_eval kernel_layout)

definition struct_arch_tlbflush_unmap_batch :: ctype where
  "struct_arch_tlbflush_unmap_batch = Struct [
    Member ''cpumask'' struct_cpumask]"

lemma struct_arch_tlbflush_unmap_batch_layout [kernel_layout]:
  "sizeof struct_arch_tlbflush_unmap_batch = 1024" "alignof struct_arch_tlbflush_unmap_batch = 8"
  by (simp_all add: struct_arch_tlbflush_unmap_batch_def kernel_eval kernel_layout)

definition struct_tlbflush_unmap_batch :: ctype where
  "struct_tlbflush_unmap_batch = Struct [
    Member ''arch'' struct_arch_tlbflush_unmap_batch, Member ''flush_required'' typedef_bool,
    Member ''writable'' typedef_bool]"

lemma struct_tlbflush_unmap_batch_layout [kernel_layout]:
  "sizeof struct_tlbflush_unmap_batch = 1032" "alignof struct_tlbflush_unmap_batch = 8"
  by (simp_all add: struct_tlbflush_unmap_batch_def kernel_eval kernel_layout)

definition struct_page_frag :: ctype where
  "struct_page_frag = Struct [
    Member ''page'' (Ptr ''struct page''), Member ''offset'' typedef___u32,
    Member ''size'' typedef___u32]"

lemma struct_page_frag_layout [kernel_layout]:
  "sizeof struct_page_frag = 16" "alignof struct_page_frag = 8"
  by (simp_all add: struct_page_frag_def kernel_eval kernel_layout)

definition struct_latency_record :: ctype where
  "struct_latency_record = Struct [
    Member ''backtrace'' (Arr (Scalar 8) 12), Member ''count'' (Scalar 4), Member ''time'' (Scalar 8),
    Member ''max'' (Scalar 8)]"

lemma struct_latency_record_layout [kernel_layout]:
  "sizeof struct_latency_record = 120" "alignof struct_latency_record = 8"
  by (simp_all add: struct_latency_record_def kernel_eval kernel_layout)

definition struct_kmap_ctrl :: ctype where
  "struct_kmap_ctrl = Struct []"

lemma struct_kmap_ctrl_layout [kernel_layout]:
  "sizeof struct_kmap_ctrl = 0" "alignof struct_kmap_ctrl = 1"
  by (simp_all add: struct_kmap_ctrl_def kernel_eval kernel_layout)

definition struct_timer_list :: ctype where
  "struct_timer_list = Struct [
    Member ''entry'' struct_hlist_node, Member ''expires'' (Scalar 8), Member ''function'' (Ptr ''()''),
    Member ''flags'' typedef_u32]"

lemma struct_timer_list_layout [kernel_layout]:
  "sizeof struct_timer_list = 40" "alignof struct_timer_list = 8"
  by (simp_all add: struct_timer_list_def kernel_eval kernel_layout)

definition struct_llist_head :: ctype where
  "struct_llist_head = Struct [
    Member ''first'' (Ptr ''struct llist_node'')]"

lemma struct_llist_head_layout [kernel_layout]:
  "sizeof struct_llist_head = 8" "alignof struct_llist_head = 8"
  by (simp_all add: struct_llist_head_def kernel_eval kernel_layout)

definition struct_desc_struct :: ctype where
  "struct_desc_struct = Struct [
    Member ''limit0'' typedef_u16, Member ''base0'' typedef_u16, Bits ''base1'' 2 8, Bits ''type'' 2 4,
    Bits ''s'' 2 1, Bits ''dpl'' 2 2, Bits ''p'' 2 1, Bits ''limit1'' 2 4, Bits ''avl'' 2 1,
    Bits ''l'' 2 1, Bits ''d'' 2 1, Bits ''g'' 2 1, Bits ''base2'' 2 8]"

lemma struct_desc_struct_layout [kernel_layout]:
  "sizeof struct_desc_struct = 8" "alignof struct_desc_struct = 2"
  by (simp_all add: struct_desc_struct_def kernel_eval kernel_layout)

definition struct_fpu_state_perm :: ctype where
  "struct_fpu_state_perm = Struct [
    Member ''__state_perm'' typedef_u64, Member ''__state_size'' (Scalar 4),
    Member ''__user_state_size'' (Scalar 4)]"

lemma struct_fpu_state_perm_layout [kernel_layout]:
  "sizeof struct_fpu_state_perm = 16" "alignof struct_fpu_state_perm = 8"
  by (simp_all add: struct_fpu_state_perm_def kernel_eval kernel_layout)

definition struct_fregs_state :: ctype where
  "struct_fregs_state = Struct [
    Member ''cwd'' typedef_u32, Member ''swd'' typedef_u32, Member ''twd'' typedef_u32,
    Member ''fip'' typedef_u32, Member ''fcs'' typedef_u32, Member ''foo'' typedef_u32,
    Member ''fos'' typedef_u32, Member ''st_space'' (Arr (typedef_u32) 20),
    Member ''status'' typedef_u32]"

lemma struct_fregs_state_layout [kernel_layout]:
  "sizeof struct_fregs_state = 112" "alignof struct_fregs_state = 4"
  by (simp_all add: struct_fregs_state_def kernel_eval kernel_layout)

definition struct_fxregs_state :: ctype where
  "struct_fxregs_state = Struct [
    Member ''cwd'' typedef_u16, Member ''swd'' typedef_u16, Member ''twd'' typedef_u16,
    Member ''fop'' typedef_u16,
    Member '''' (Union [Member '''' (Struct [Member ''rip'' typedef_u64, Member ''rdp'' typedef_u64]),
      Member '''' (Struct [Member ''fip'' typedef_u32, Member ''fcs'' typedef_u32,
      Member ''foo'' typedef_u32, Member ''fos'' typedef_u32])]),
    Member ''mxcsr'' typedef_u32, Member ''mxcsr_mask'' typedef_u32,
    Member ''st_space'' (Arr (typedef_u32) 32), Member ''xmm_space'' (Arr (typedef_u32) 64),
    Member ''padding'' (Arr (typedef_u32) 12),
    Member '''' (Union [Member ''padding1'' (Arr (typedef_u32) 12),
      Member ''sw_reserved'' (Arr (typedef_u32) 12)])]"

lemma struct_fxregs_state_layout [kernel_layout]:
  "sizeof struct_fxregs_state = 512" "alignof struct_fxregs_state = 8"
  by (simp_all add: struct_fxregs_state_def kernel_eval kernel_layout)

definition struct_swregs_state :: ctype where
  "struct_swregs_state = Struct [
    Member ''cwd'' typedef_u32, Member ''swd'' typedef_u32, Member ''twd'' typedef_u32,
    Member ''fip'' typedef_u32, Member ''fcs'' typedef_u32, Member ''foo'' typedef_u32,
    Member ''fos'' typedef_u32, Member ''st_space'' (Arr (typedef_u32) 20), Member ''ftop'' typedef_u8,
    Member ''changed'' typedef_u8, Member ''lookahead'' typedef_u8, Member ''no_update'' typedef_u8,
    Member ''rm'' typedef_u8, Member ''alimit'' typedef_u8,
    Member ''info'' (Ptr ''struct math_emu_info''), Member ''entry_eip'' typedef_u32]"

lemma struct_swregs_state_layout [kernel_layout]:
  "sizeof struct_swregs_state = 136" "alignof struct_swregs_state = 8"
  by (simp_all add: struct_swregs_state_def kernel_eval kernel_layout)

definition struct_xstate_header :: ctype where
  "struct_xstate_header = Struct [
    Member ''xfeatures'' typedef_u64, Member ''xcomp_bv'' typedef_u64,
    Member ''reserved'' (Arr (typedef_u64) 6)]"

lemma struct_xstate_header_layout [kernel_layout]:
  "sizeof struct_xstate_header = 64" "alignof struct_xstate_header = 8"
  by (simp_all add: struct_xstate_header_def kernel_eval kernel_layout)

definition struct_xregs_state :: ctype where
  "struct_xregs_state = Struct [
    Member ''i387'' struct_fxregs_state, Member ''header'' struct_xstate_header,
    Member ''extended_state_area'' (Arr (typedef_u8) 0)]"

lemma struct_xregs_state_layout [kernel_layout]:
  "sizeof struct_xregs_state = 576" "alignof struct_xregs_state = 8"
  by (simp_all add: struct_xregs_state_def kernel_eval kernel_layout)

definition union_fpregs_state :: ctype where
  "union_fpregs_state = Union [
    Member ''fsave'' struct_fregs_state, Member ''fxsave'' struct_fxregs_state,
    Member ''soft'' struct_swregs_state, Member ''xsave'' struct_xregs_state,
    Member ''__padding'' (Arr (typedef_u8) 4096)]"

lemma union_fpregs_state_layout [kernel_layout]:
  "sizeof union_fpregs_state = 4096" "alignof union_fpregs_state = 8"
  by (simp_all add: union_fpregs_state_def kernel_eval kernel_layout)

definition struct_fpstate :: ctype where
  "struct_fpstate = Struct [
    Member ''size'' (Scalar 4), Member ''user_size'' (Scalar 4), Member ''xfeatures'' typedef_u64,
    Member ''user_xfeatures'' typedef_u64, Member ''xfd'' typedef_u64, Bits ''is_valloc'' 4 1,
    Bits ''is_guest'' 4 1, Bits ''is_confidential'' 4 1, Bits ''in_use'' 4 1, Bits '''' 8 64,
    Bits '''' 8 64, Bits '''' 8 64, Member ''regs'' union_fpregs_state]"

lemma struct_fpstate_layout [kernel_layout]:
  "sizeof struct_fpstate = 4160" "alignof struct_fpstate = 8"
  by (simp_all add: struct_fpstate_def kernel_eval kernel_layout)

definition struct_fpu :: ctype where
  "struct_fpu = Struct [
    Member ''last_cpu'' (Scalar 4), Member ''avx512_timestamp'' (Scalar 8),
    Member ''fpstate'' (Ptr ''struct fpstate''), Member ''__task_fpstate'' (Ptr ''struct fpstate''),
    Member ''perm'' struct_fpu_state_perm, Member ''guest_perm'' struct_fpu_state_perm,
    Member ''__fpstate'' struct_fpstate]"

lemma struct_fpu_layout [kernel_layout]:
  "sizeof struct_fpu = 4224" "alignof struct_fpu = 8"
  by (simp_all add: struct_fpu_def kernel_eval kernel_layout)

definition struct_thread_struct :: ctype where
  "struct_thread_struct = Struct [
    Member ''tls_array'' (Arr (struct_desc_struct) 3), Member ''sp'' (Scalar 8),
    Member ''es'' (Scalar 2), Member ''ds'' (Scalar 2), Member ''fsindex'' (Scalar 2),
    Member ''gsindex'' (Scalar 2), Member ''fsbase'' (Scalar 8), Member ''gsbase'' (Scalar 8),
    Member ''ptrace_bps'' (Arr (Ptr ''struct perf_event'') 4), Member ''virtual_dr6'' (Scalar 8),
    Member ''ptrace_dr7'' (Scalar 8), Member ''cr2'' (Scalar 8), Member ''trap_nr'' (Scalar 8),
    Member ''error_code'' (Scalar 8), Member ''io_bitmap'' (Ptr ''struct io_bitmap''),
    Member ''iopl_emul'' (Scalar 8), Bits ''iopl_warn'' 4 1, Member ''pkru'' typedef_u32,
    Bits '''' 8 64, Bits '''' 8 64, Bits '''' 8 64, Bits '''' 8 64, Bits '''' 8 64,
    Member ''fpu'' struct_fpu]"

lemma struct_thread_struct_layout [kernel_layout]:
  "sizeof struct_thread_struct = 4416" "alignof struct_thread_struct = 8"
  by (simp_all add: struct_thread_struct_def kernel_eval kernel_layout)

definition struct_task_struct_members_1 :: "member list" where
  "struct_task_struct_members_1 = [
    Member ''thread_info'' struct_thread_info, Member ''__state'' (Scalar 4),
    Member ''stack'' (Ptr ''void''), Member ''usage'' typedef_refcount_t, Member ''flags'' (Scalar 4),
    Member ''ptrace'' (Scalar 4), Member ''on_cpu'' (Scalar 4),
    Member ''wake_entry'' struct___call_single_node, Member ''wakee_flips'' (Scalar 4),
    Member ''wakee_flip_decay_ts'' (Scalar 8), Member ''last_wakee'' (Ptr ''struct task_struct''),
    Member ''recent_used_cpu'' (Scalar 4), Member ''wake_cpu'' (Scalar 4), Member ''on_rq'' (Scalar 4),
    Member ''prio'' (Scalar 4), Member ''static_prio'' (Scalar 4), Member ''normal_prio'' (Scalar 4),
    Member ''rt_priority'' (Scalar 4), Member ''se'' struct_sched_entity,
    Member ''rt'' struct_sched_rt_entity, Member ''dl'' struct_sched_dl_entity,
    Member ''sched_class'' (Ptr ''struct sched_class''),
    Member ''sched_task_group'' (Ptr ''struct task_group''), Bits '''' 8 64, Bits '''' 8 64,
    Bits '''' 8 64, Bits '''' 8 64, Member ''stats'' struct_sched_statistics,
    Member ''preempt_notifiers'' struct_hlist_head, Member ''btrace_seq'' (Scalar 4),
    Member ''policy'' (Scalar 4), Member ''nr_cpus_allowed'' (Scalar 4),
    Member ''cpus_ptr'' (Ptr ''cpumask_t''), Member ''user_cpus_ptr'' (Ptr ''cpumask_t''),
    Member ''cpus_mask'' typedef_cpumask_t, Member ''migration_pending'' (Ptr ''void''),
    Member ''migration_disabled'' (Scalar 2), Member ''migration_flags'' (Scalar 2),
    Member ''rcu_read_lock_nesting'' (Scalar 4), Member ''rcu_read_unlock_special'' union_rcu_special,
    Member ''rcu_node_entry'' struct_list_head, Member ''rcu_blocked_node'' (Ptr ''struct rcu_node''),
    Member ''rcu_tasks_nvcsw'' (Scalar 8), Member ''rcu_tasks_holdout'' typedef_u8,
    Member ''rcu_tasks_idx'' typedef_u8, Member ''rcu_tasks_idle_cpu'' (Scalar 4),
    Member ''rcu_tasks_holdout_list'' struct_list_head, Member ''rcu_tasks_exit_cpu'' (Scalar 4),
    Member ''rcu_tasks_exit_list'' struct_list_head, Member ''trc_reader_nesting'' (Scalar 4),
    Member ''trc_ipi_to_cpu'' (Scalar 4), Member ''trc_reader_special'' union_rcu_special,
    Member ''trc_holdout_list'' struct_list_head, Member ''trc_blkd_node'' struct_list_head,
    Member ''trc_blkd_cpu'' (Scalar 4), Member ''sched_info'' struct_sched_info,
    Member ''tasks'' struct_list_head, Member ''pushable_tasks'' struct_plist_node,
    Member ''pushable_dl_tasks'' struct_rb_node, Member ''mm'' (Ptr ''struct mm_struct''),
    Member ''active_mm'' (Ptr ''struct mm_struct''), Member ''exit_state'' (Scalar 4),
    Member ''exit_code'' (Scalar 4), Member ''exit_signal'' (Scalar 4),
    Member ''pdeath_signal'' (Scalar 4), Member ''jobctl'' (Scalar 8),
    Member ''personality'' (Scalar 4), Bits ''sched_reset_on_fork'' 4 1,
    Bits ''sched_contributes_to_load'' 4 1, Bits ''sched_migrated'' 4 1, Bits ''sched_task_hot'' 4 1,
    Bits '''' 8 28, Bits ''sched_remote_wakeup'' 4 1, Bits ''in_execve'' 4 1, Bits ''in_iowait'' 4 1,
    Bits ''restore_sigmask'' 4 1, Bits ''in_user_fault'' 4 1, Bits ''no_cgroup_migration'' 4 1,
    Bits ''frozen'' 4 1, Bits ''use_memdelay'' 4 1, Bits ''in_memstall'' 4 1, Bits ''in_eventfd'' 4 1,
    Bits ''pasid_activated'' 4 1, Bits ''reported_split_lock'' 4 1, Bits ''in_thrashing'' 4 1,
    Member ''atomic_flags'' (Scalar 8), Member ''restart_block'' struct_restart_block,
    Member ''pid'' typedef_pid_t, Member ''tgid'' typedef_pid_t, Member ''stack_canary'' (Scalar 8),
    Member ''real_parent'' (Ptr ''struct task_struct''), Member ''parent'' (Ptr ''struct task_struct''),
    Member ''children'' struct_list_head, Member ''sibling'' struct_list_head,
    Member ''group_leader'' (Ptr ''struct task_struct''), Member ''ptraced'' struct_list_head,
    Member ''ptrace_entry'' struct_list_head, Member ''thread_pid'' (Ptr ''struct pid''),
    Member ''pid_links'' (Arr (struct_hlist_node) 4), Member ''thread_group'' struct_list_head,
    Member ''thread_node'' struct_list_head, Member ''vfork_done'' (Ptr ''struct completion''),
    Member ''set_child_tid'' (Ptr ''int''), Member ''clear_child_tid'' (Ptr ''int''),
    Member ''worker_private'' (Ptr ''void''), Member ''utime'' typedef_u64,
    Member ''stime'' typedef_u64, Member ''gtime'' typedef_u64,
    Member ''prev_cputime'' struct_prev_cputime, Member ''nvcsw'' (Scalar 8),
    Member ''nivcsw'' (Scalar 8), Member ''start_time'' typedef_u64,
    Member ''start_boottime'' typedef_u64, Member ''min_flt'' (Scalar 8), Member ''maj_flt'' (Scalar 8),
    Member ''posix_cputimers'' struct_posix_cputimers,
    Member ''posix_cputimers_work'' struct_posix_cputimers_work,
    Member ''ptracer_cred'' (Ptr ''struct cred''), Member ''real_cred'' (Ptr ''struct cred''),
    Member ''cred'' (Ptr ''struct cred''), Member ''cached_requested_key'' (Ptr ''struct key''),
    Member ''comm'' (Arr (Scalar 1) 16)]"

definition struct_task_struct_members_2 :: "member list" where
  "struct_task_struct_members_2 = [
    Member ''nameidata'' (Ptr ''struct nameidata''), Member ''sysvsem'' struct_sysv_sem,
    Member ''sysvshm'' struct_sysv_shm, Member ''last_switch_count'' (Scalar 8),
    Member ''last_switch_time'' (Scalar 8), Member ''fs'' (Ptr ''struct fs_struct''),
    Member ''files'' (Ptr ''struct files_struct''), Member ''io_uring'' (Ptr ''struct io_uring_task''),
    Member ''nsproxy'' (Ptr ''struct nsproxy''), Member ''signal'' (Ptr ''struct signal_struct''),
    Member ''sighand'' (Ptr ''struct sighand_struct''), Member ''blocked'' typedef_sigset_t,
    Member ''real_blocked'' typedef_sigset_t, Member ''saved_sigmask'' typedef_sigset_t,
    Member ''pending'' struct_sigpending, Member ''sas_ss_sp'' (Scalar 8),
    Member ''sas_ss_size'' typedef_size_t, Member ''sas_ss_flags'' (Scalar 4),
    Member ''task_works'' (Ptr ''struct callback_head''),
    Member ''audit_context'' (Ptr ''struct audit_context''), Member ''loginuid'' typedef_kuid_t,
    Member ''sessionid'' (Scalar 4), Member ''seccomp'' struct_seccomp,
    Member ''syscall_dispatch'' struct_syscall_user_dispatch, Member ''parent_exec_id'' typedef_u64,
    Member ''self_exec_id'' typedef_u64, Member ''alloc_lock'' typedef_spinlock_t,
    Member ''pi_lock'' typedef_raw_spinlock_t, Member ''wake_q'' struct_wake_q_node,
    Member ''pi_waiters'' struct_rb_root_cached, Member ''pi_top_task'' (Ptr ''struct task_struct''),
    Member ''pi_blocked_on'' (Ptr ''struct rt_mutex_waiter''), Member ''journal_info'' (Ptr ''void''),
    Member ''bio_list'' (Ptr ''struct bio_list''), Member ''plug'' (Ptr ''struct blk_plug''),
    Member ''reclaim_state'' (Ptr ''struct reclaim_state''),
    Member ''io_context'' (Ptr ''struct io_context''),
    Member ''capture_control'' (Ptr ''struct capture_control''), Member ''ptrace_message'' (Scalar 8),
    Member ''last_siginfo'' (Ptr ''kernel_siginfo_t''), Member ''ioac'' struct_task_io_accounting,
    Member ''psi_flags'' (Scalar 4), Member ''acct_rss_mem1'' typedef_u64,
    Member ''acct_vm_mem1'' typedef_u64, Member ''acct_timexpd'' typedef_u64,
    Member ''mems_allowed'' typedef_nodemask_t, Member ''mems_allowed_seq'' typedef_seqcount_spinlock_t,
    Member ''cpuset_mem_spread_rotor'' (Scalar 4), Member ''cpuset_slab_spread_rotor'' (Scalar 4),
    Member ''cgroups'' (Ptr ''struct css_set''), Member ''cg_list'' struct_list_head,
    Member ''robust_list'' (Ptr ''struct robust_list_head''),
    Member ''compat_robust_list'' (Ptr ''struct compat_robust_list_head''),
    Member ''pi_state_list'' struct_list_head,
    Member ''pi_state_cache'' (Ptr ''struct futex_pi_state''), Member ''futex_exit_mutex'' struct_mutex,
    Member ''futex_state'' (Scalar 4), Member ''perf_event_ctxp'' (Ptr ''struct perf_event_context''),
    Member ''perf_event_mutex'' struct_mutex, Member ''perf_event_list'' struct_list_head,
    Member ''preempt_disable_ip'' (Scalar 8), Member ''mempolicy'' (Ptr ''struct mempolicy''),
    Member ''il_prev'' (Scalar 2), Member ''pref_node_fork'' (Scalar 2),
    Member ''rseq'' (Ptr ''struct rseq''), Member ''rseq_len'' typedef_u32,
    Member ''rseq_sig'' typedef_u32, Member ''rseq_event_mask'' (Scalar 8),
    Member ''mm_cid'' (Scalar 4), Member ''last_mm_cid'' (Scalar 4),
    Member ''migrate_from_cpu'' (Scalar 4), Member ''mm_cid_active'' (Scalar 4),
    Member ''cid_work'' struct_callback_head, Member ''tlb_ubc'' struct_tlbflush_unmap_batch,
    Member ''splice_pipe'' (Ptr ''struct pipe_inode_info''), Member ''task_frag'' struct_page_frag,
    Member ''delays'' (Ptr ''struct task_delay_info''), Member ''nr_dirtied'' (Scalar 4),
    Member ''nr_dirtied_pause'' (Scalar 4), Member ''dirty_paused_when'' (Scalar 8),
    Member ''latency_record_count'' (Scalar 4),
    Member ''latency_record'' (Arr (struct_latency_record) 32), Member ''timer_slack_ns'' typedef_u64,
    Member ''default_timer_slack_ns'' typedef_u64, Member ''curr_ret_stack'' (Scalar 4),
    Member ''curr_ret_depth'' (Scalar 4), Member ''ret_stack'' (Ptr ''struct ftrace_ret_stack''),
    Member ''ftrace_timestamp'' (Scalar 8), Member ''trace_overrun'' typedef_atomic_t,
    Member ''tracing_graph_pause'' typedef_atomic_t, Member ''trace_recursion'' (Scalar 8),
    Member ''memcg_in_oom'' (Ptr ''struct mem_cgroup''), Member ''memcg_oom_gfp_mask'' typedef_gfp_t,
    Member ''memcg_oom_order'' (Scalar 4), Member ''memcg_nr_pages_over_high'' (Scalar 4),
    Member ''active_memcg'' (Ptr ''struct mem_cgroup''),
    Member ''throttle_disk'' (Ptr ''struct gendisk''), Member ''utask'' (Ptr ''struct uprobe_task''),
    Member ''kmap_ctrl'' struct_kmap_ctrl, Member ''rcu'' struct_callback_head,
    Member ''rcu_users'' typedef_refcount_t, Member ''pagefault_disabled'' (Scalar 4),
    Member ''oom_reaper_list'' (Ptr ''struct task_struct''),
    Member ''oom_reaper_timer'' struct_timer_list, Member ''stack_vm_area'' (Ptr ''struct vm_struct''),
    Member ''stack_refcount'' typedef_refcount_t, Member ''patch_state'' (Scalar 4),
    Member ''security'' (Ptr ''void''), Member ''bpf_storage'' (Ptr ''struct bpf_local_storage''),
    Member ''bpf_ctx'' (Ptr ''struct bpf_run_ctx''), Member ''mce_vaddr'' (Ptr ''void''),
    Member ''mce_kflags'' typedef___u64, Member ''mce_addr'' typedef_u64, Bits ''mce_ripv'' 8 1,
    Bits ''mce_whole_page'' 8 1, Bits ''__mce_reserved'' 8 62,
    Member ''mce_kill_me'' struct_callback_head, Member ''mce_count'' (Scalar 4),
    Member ''kretprobe_instances'' struct_llist_head, Member ''rethooks'' struct_llist_head,
    Member ''l1d_flush_kill'' struct_callback_head,
    Member ''user_event_mm'' (Ptr ''struct user_event_mm''), Bits '''' 8 64,
    Member ''thread'' struct_thread_struct]"

definition struct_task_struct :: ctype where
  "struct_task_struct = Struct (struct_task_struct_members_1 @ struct_task_struct_members_2)"

lemma struct_task_struct_layout [kernel_layout]:
  "sizeof struct_task_struct = 13440" "alignof struct_task_struct = 8"
  by (simp_all add: struct_task_struct_def struct_task_struct_members_1_def struct_task_struct_members_2_def kernel_eval kernel_layout)

end
