(* ===== verification/Kernel_Objects.thy ===== *)
theory Kernel_Objects
  imports Kernel_Task
begin

text \<open>
  The objects of \<open>vmlinux.h\<close> that tasks, files and inodes point to.
\<close>

definition typedef_lockdep_map_p :: ctype where
  "typedef_lockdep_map_p = Struct []"

lemma typedef_lockdep_map_p_layout [kernel_layout]:
  "sizeof typedef_lockdep_map_p = 0" "alignof typedef_lockdep_map_p = 1"
  by (simp_all add: typedef_lockdep_map_p_def kernel_eval kernel_layout)

definition struct_maple_tree :: ctype where
  "struct_maple_tree = Struct [
    Member '''' (Union [Member ''ma_lock'' typedef_spinlock_t,
      Member ''ma_external_lock'' typedef_lockdep_map_p]),
    Member ''ma_flags'' (Scalar 4), Member ''ma_root'' (Ptr ''void'')]"

lemma struct_maple_tree_layout [kernel_layout]:
  "sizeof struct_maple_tree = 16" "alignof struct_maple_tree = 8"
  by (simp_all add: struct_maple_tree_def kernel_eval kernel_layout)

definition struct_percpu_counter :: ctype where
  "struct_percpu_counter = Struct [
    Member ''lock'' typedef_raw_spinlock_t, Member ''count'' typedef_s64,
    Member ''list'' struct_list_head, Member ''counters'' (Ptr ''s32'')]"

lemma struct_percpu_counter_layout [kernel_layout]:
  "sizeof struct_percpu_counter = 40" "alignof struct_percpu_counter = 8"
  by (simp_all add: struct_percpu_counter_def kernel_eval kernel_layout)

definition typedef___s16 :: ctype where
  "typedef___s16 = Scalar 2"

lemma typedef___s16_layout [kernel_layout]:
  "sizeof typedef___s16 = 2" "alignof typedef___s16 = 2"
  by (simp_all add: typedef___s16_def kernel_eval kernel_layout)

definition typedef_s16 :: ctype where
  "typedef_s16 = typedef___s16"

lemma typedef_s16_layout [kernel_layout]:
  "sizeof typedef_s16 = 2" "alignof typedef_s16 = 2"
  by (simp_all add: typedef_s16_def kernel_eval kernel_layout)

definition typedef_mm_context_t :: ctype where
  "typedef_mm_context_t = Struct [
    Member ''ctx_id'' typedef_u64, Member ''tlb_gen'' typedef_atomic64_t,
    Member ''next_trim_cpumask'' (Scalar 8), Member ''ldt_usr_sem'' struct_rw_semaphore,
    Member ''ldt'' (Ptr ''struct ldt_struct''), Member ''flags'' (Scalar 8),
    Member ''lock'' struct_mutex, Member ''vdso'' (Ptr ''void''),
    Member ''vdso_image'' (Ptr ''struct vdso_image''), Member ''perf_rdpmc_allowed'' typedef_atomic_t,
    Member ''pkey_allocation_map'' typedef_u16, Member ''execute_only_pkey'' typedef_s16]"

lemma typedef_mm_context_t_layout [kernel_layout]:
  "sizeof typedef_mm_context_t = 136" "alignof typedef_mm_context_t = 8"
  by (simp_all add: typedef_mm_context_t_def kernel_eval kernel_layout)

definition struct_uprobes_state :: ctype where
  "struct_uprobes_state = Struct [
    Member ''xol_area'' (Ptr ''struct xol_area'')]"

lemma struct_uprobes_state_layout [kernel_layout]:
  "sizeof struct_uprobes_state = 8" "alignof struct_uprobes_state = 8"
  by (simp_all add: struct_uprobes_state_def kernel_eval kernel_layout)

definition typedef_work_func_t :: ctype where
  "typedef_work_func_t = Ptr ''()''"

lemma typedef_work_func_t_layout [kernel_layout]:
  "sizeof typedef_work_func_t = 8" "alignof typedef_work_func_t = 8"
  by (simp_all add: typedef_work_func_t_def kernel_eval kernel_layout)

definition struct_work_struct :: ctype where
  "struct_work_struct = Struct [
    Member ''data'' typedef_atomic_long_t, Member ''entry'' struct_list_head,
    Member ''func'' typedef_work_func_t]"

lemma struct_work_struct_layout [kernel_layout]:
  "sizeof struct_work_struct = 32" "alignof struct_work_struct = 8"
  by (simp_all add: struct_work_struct_def kernel_eval kernel_layout)

definition struct_mm_struct :: ctype where
  "struct_mm_struct = Struct [
    Member '''' (Struct [Member '''' (Struct [Member ''mm_count'' typedef_atomic_t, Bits '''' 8 64,
      Bits '''' 8 64, Bits '''' 8 64, Bits '''' 8 64, Bits '''' 8 64, Bits '''' 8 64, Bits '''' 8 64]),
      Member ''mm_mt'' struct_maple_tree, Member ''get_unmapped_area'' (Ptr ''()''),
      Member ''mmap_base'' (Scalar 8), Member ''mmap_legacy_base'' (Scalar 8),
      Member ''mmap_compat_base'' (Scalar 8), Member ''mmap_compat_legacy_base'' (Scalar 8),
      Member ''task_size'' (Scalar 8), Member ''pgd'' (Ptr ''pgd_t''),
      Member ''membarrier_state'' typedef_atomic_t, Member ''mm_users'' typedef_atomic_t,
      Member ''pcpu_cid'' (Ptr ''struct mm_cid''), Member ''mm_cid_next_scan'' (Scalar 8),
      Member ''pgtables_bytes'' typedef_atomic_long_t, Member ''map_count'' (Scalar 4),
      Member ''page_table_lock'' typedef_spinlock_t, Member ''mmap_lock'' struct_rw_semaphore,
      Member ''mmlist'' struct_list_head, Member ''mm_lock_seq'' (Scalar 4),
      Member ''hiwater_rss'' (Scalar 8), Member ''hiwater_vm'' (Scalar 8),
      Member ''total_vm'' (Scalar 8), Member ''locked_vm'' (Scalar 8),
      Member ''pinned_vm'' typedef_atomic64_t, Member ''data_vm'' (Scalar 8),
      Member ''exec_vm'' (Scalar 8), Member ''stack_vm'' (Scalar 8), Member ''def_flags'' (Scalar 8),
      Member ''write_protect_seq'' typedef_seqcount_t, Member ''arg_lock'' typedef_spinlock_t,
      Member ''start_code'' (Scalar 8), Member ''end_code'' (Scalar 8),
      Member ''start_data'' (Scalar 8), Member ''end_data'' (Scalar 8),
      Member ''start_brk'' (Scalar 8), Member ''brk'' (Scalar 8), Member ''start_stack'' (Scalar 8),
      Member ''arg_start'' (Scalar 8), Member ''arg_end'' (Scalar 8), Member ''env_start'' (Scalar 8),
      Member ''env_end'' (Scalar 8), Member ''saved_auxv'' (Arr (Scalar 8) 52),
      Member ''rss_stat'' (Arr (struct_percpu_counter) 4),
      Member ''binfmt'' (Ptr ''struct linux_binfmt''), Member ''context'' typedef_mm_context_t,
      Member ''flags'' (Scalar 8), Member ''ioctx_lock'' typedef_spinlock_t,
      Member ''ioctx_table'' (Ptr ''struct kioctx_table''),
      Member ''owner'' (Ptr ''struct task_struct''),
      Member ''user_ns'' (Ptr ''struct user_namespace''), Member ''exe_file'' (Ptr ''struct file''),
      Member ''notifier_subscriptions'' (Ptr ''struct mmu_notifier_subscriptions''),
      Member ''tlb_flush_pending'' typedef_atomic_t, Member ''tlb_flush_batched'' typedef_atomic_t,
      Member ''uprobes_state'' struct_uprobes_state, Member ''hugetlb_usage'' typedef_atomic_long_t,
      Member ''async_put_work'' struct_work_struct, Member ''pasid'' typedef_u32,
      Member ''ksm_merging_pages'' (Scalar 8), Member ''ksm_rmap_items'' (Scalar 8),
      Member ''ksm_zero_pages'' typedef_atomic_long_t, Bits '''' 8 64]),
    Member ''cpu_bitmap'' (Arr (Scalar 8) 0)]"

lemma struct_mm_struct_layout [kernel_layout]:
  "sizeof struct_mm_struct = 1280" "alignof struct_mm_struct = 8"
  by (simp_all add: struct_mm_struct_def kernel_eval kernel_layout)

definition typedef_kernel_cap_t :: ctype where
  "typedef_kernel_cap_t = Struct [
    Member ''val'' typedef_u64]"

lemma typedef_kernel_cap_t_layout [kernel_layout]:
  "sizeof typedef_kernel_cap_t = 8" "alignof typedef_kernel_cap_t = 8"
  by (simp_all add: typedef_kernel_cap_t_def kernel_eval kernel_layout)

definition struct_cred :: ctype where
  "struct_cred = Struct [
    Member ''usage'' typedef_atomic_long_t, Member ''uid'' typedef_kuid_t,
    Member ''gid'' typedef_kgid_t, Member ''suid'' typedef_kuid_t, Member ''sgid'' typedef_kgid_t,
    Member ''euid'' typedef_kuid_t, Member ''egid'' typedef_kgid_t, Member ''fsuid'' typedef_kuid_t,
    Member ''fsgid'' typedef_kgid_t, Member ''securebits'' (Scalar 4),
    Member ''cap_inheritable'' typedef_kernel_cap_t, Member ''cap_permitted'' typedef_kernel_cap_t,
    Member ''cap_effective'' typedef_kernel_cap_t, Member ''cap_bset'' typedef_kernel_cap_t,
    Member ''cap_ambient'' typedef_kernel_cap_t, Member ''jit_keyring'' (Scalar 1),
    Member ''session_keyring'' (Ptr ''struct key''), Member ''process_keyring'' (Ptr ''struct key''),
    Member ''thread_keyring'' (Ptr ''struct key''), Member ''request_key_auth'' (Ptr ''struct key''),
    Member ''security'' (Ptr ''void''), Member ''user'' (Ptr ''struct user_struct''),
    Member ''user_ns'' (Ptr ''struct user_namespace''), Member ''ucounts'' (Ptr ''struct ucounts''),
    Member ''group_info'' (Ptr ''struct group_info''),
    Member '''' (Union [Member ''non_rcu'' (Scalar 4), Member ''rcu'' struct_callback_head])]"

lemma struct_cred_layout [kernel_layout]:
  "sizeof struct_cred = 184" "alignof struct_cred = 8"
  by (simp_all add: struct_cred_def kernel_eval kernel_layout)

definition struct_cpu_itimer :: ctype where
  "struct_cpu_itimer = Struct [
    Member ''expires'' typedef_u64, Member ''incr'' typedef_u64]"

lemma struct_cpu_itimer_layout [kernel_layout]:
  "sizeof struct_cpu_itimer = 16" "alignof struct_cpu_itimer = 8"
  by (simp_all add: struct_cpu_itimer_def kernel_eval kernel_layout)

definition struct_task_cputime_atomic :: ctype where
  "struct_task_cputime_atomic = Struct [
    Member ''utime'' typedef_atomic64_t, Member ''stime'' typedef_atomic64_t,
    Member ''sum_exec_runtime'' typedef_atomic64_t]"

lemma struct_task_cputime_atomic_layout [kernel_layout]:
  "sizeof struct_task_cputime_atomic = 24" "alignof struct_task_cputime_atomic = 8"
  by (simp_all add: struct_task_cputime_atomic_def kernel_eval kernel_layout)

definition struct_thread_group_cputimer :: ctype where
  "struct_thread_group_cputimer = Struct [
    Member ''cputime_atomic'' struct_task_cputime_atomic]"

lemma struct_thread_group_cputimer_layout [kernel_layout]:
  "sizeof struct_thread_group_cputimer = 24" "alignof struct_thread_group_cputimer = 8"
  by (simp_all add: struct_thread_group_cputimer_def kernel_eval kernel_layout)

definition typedef_seqlock_t :: ctype where
  "typedef_seqlock_t = Struct [
    Member ''seqcount'' typedef_seqcount_spinlock_t, Member ''lock'' typedef_spinlock_t]"

lemma typedef_seqlock_t_layout [kernel_layout]:
  "sizeof typedef_seqlock_t = 8" "alignof typedef_seqlock_t = 4"
  by (simp_all add: typedef_seqlock_t_def kernel_eval kernel_layout)

definition struct_rlimit :: ctype where
  "struct_rlimit = Struct [
    Member ''rlim_cur'' typedef___kernel_ulong_t, Member ''rlim_max'' typedef___kernel_ulong_t]"

lemma struct_rlimit_layout [kernel_layout]:
  "sizeof struct_rlimit = 16" "alignof struct_rlimit = 8"
  by (simp_all add: struct_rlimit_def kernel_eval kernel_layout)

definition struct_pacct_struct :: ctype where
  "struct_pacct_struct = Struct [
    Member ''ac_flag'' (Scalar 4), Member ''ac_exitcode'' (Scalar 8), Member ''ac_mem'' (Scalar 8),
    Member ''ac_utime'' typedef_u64, Member ''ac_stime'' typedef_u64, Member ''ac_minflt'' (Scalar 8),
    Member ''ac_majflt'' (Scalar 8)]"

lemma struct_pacct_struct_layout [kernel_layout]:
  "sizeof struct_pacct_struct = 56" "alignof struct_pacct_struct = 8"
  by (simp_all add: struct_pacct_struct_def kernel_eval kernel_layout)

definition struct_signal_struct :: ctype where
  "struct_signal_struct = Struct [
    Member ''sigcnt'' typedef_refcount_t, Member ''live'' typedef_atomic_t,
    Member ''nr_threads'' (Scalar 4), Member ''quick_threads'' (Scalar 4),
    Member ''thread_head'' struct_list_head, Member ''wait_chldexit'' typedef_wait_queue_head_t,
    Member ''curr_target'' (Ptr ''struct task_struct''), Member ''shared_pending'' struct_sigpending,
    Member ''multiprocess'' struct_hlist_head, Member ''group_exit_code'' (Scalar 4),
    Member ''notify_count'' (Scalar 4), Member ''group_exec_task'' (Ptr ''struct task_struct''),
    Member ''group_stop_count'' (Scalar 4), Member ''flags'' (Scalar 4),
    Member ''core_state'' (Ptr ''struct core_state''), Bits ''is_child_subreaper'' 4 1,
    Bits ''has_child_subreaper'' 4 1, Member ''next_posix_timer_id'' (Scalar 4),
    Member ''posix_timers'' struct_list_head, Member ''real_timer'' struct_hrtimer,
    Member ''it_real_incr'' typedef_ktime_t, Member ''it'' (Arr (struct_cpu_itimer) 2),
    Member ''cputimer'' struct_thread_group_cputimer, Member ''posix_cputimers'' struct_posix_cputimers,
    Member ''pids'' (Arr (Ptr ''struct pid'') 4), Member ''tty_old_pgrp'' (Ptr ''struct pid''),
    Member ''leader'' (Scalar 4), Member ''tty'' (Ptr ''struct tty_struct''),
    Member ''stats_lock'' typedef_seqlock_t, Member ''utime'' typedef_u64, Member ''stime'' typedef_u64,
    Member ''cutime'' typedef_u64, Member ''cstime'' typedef_u64, Member ''gtime'' typedef_u64,
    Member ''cgtime'' typedef_u64, Member ''prev_cputime'' struct_prev_cputime,
    Member ''nvcsw'' (Scalar 8), Member ''nivcsw'' (Scalar 8), Member ''cnvcsw'' (Scalar 8),
    Member ''cnivcsw'' (Scalar 8), Member ''min_flt'' (Scalar 8), Member ''maj_flt'' (Scalar 8),
    Member ''cmin_flt'' (Scalar 8), Member ''cmaj_flt'' (Scalar 8), Member ''inblock'' (Scalar 8),
    Member ''oublock'' (Scalar 8), Member ''cinblock'' (Scalar 8), Member ''coublock'' (Scalar 8),
    Member ''maxrss'' (Scalar 8), Member ''cmaxrss'' (Scalar 8),
    Member ''ioac'' struct_task_io_accounting, Member ''sum_sched_runtime'' (Scalar 8),
    Member ''rlim'' (Arr (struct_rlimit) 16), Member ''pacct'' struct_pacct_struct,
    Member ''stats'' (Ptr ''struct taskstats''), Member ''audit_tty'' (Scalar 4),
    Member ''tty_audit_buf'' (Ptr ''struct tty_audit_buf''), Member ''oom_flag_origin'' typedef_bool,
    Member ''oom_score_adj'' (Scalar 2), Member ''oom_score_adj_min'' (Scalar 2),
    Member ''oom_mm'' (Ptr ''struct mm_struct''), Member ''cred_guard_mutex'' struct_mutex,
    Member ''exec_update_lock'' struct_rw_semaphore]"

lemma struct_signal_struct_layout [kernel_layout]:
  "sizeof struct_signal_struct = 1096" "alignof struct_signal_struct = 8"
  by (simp_all add: struct_signal_struct_def kernel_eval kernel_layout)

definition typedef___sighandler_t :: ctype where
  "typedef___sighandler_t = Ptr ''__signalfn_t''"

lemma typedef___sighandler_t_layout [kernel_layout]:
  "sizeof typedef___sighandler_t = 8" "alignof typedef___sighandler_t = 8"
  by (simp_all add: typedef___sighandler_t_def kernel_eval kernel_layout)

definition typedef___sigrestore_t :: ctype where
  "typedef___sigrestore_t = Ptr ''__restorefn_t''"

lemma typedef___sigrestore_t_layout [kernel_layout]:
  "sizeof typedef___sigrestore_t = 8" "alignof typedef___sigrestore_t = 8"
  by (simp_all add: typedef___sigrestore_t_def kernel_eval kernel_layout)

definition struct_sigaction :: ctype where
  "struct_sigaction = Struct [
    Member ''sa_handler'' typedef___sighandler_t, Member ''sa_flags'' (Scalar 8),
    Member ''sa_restorer'' typedef___sigrestore_t, Member ''sa_mask'' typedef_sigset_t]"

lemma struct_sigaction_layout [kernel_layout]:
  "sizeof struct_sigaction = 32" "alignof struct_sigaction = 8"
  by (simp_all add: struct_sigaction_def kernel_eval kernel_layout)

definition struct_k_sigaction :: ctype where
  "struct_k_sigaction = Struct [
    Member ''sa'' struct_sigaction]"

lemma struct_k_sigaction_layout [kernel_layout]:
  "sizeof struct_k_sigaction = 32" "alignof struct_k_sigaction = 8"
  by (simp_all add: struct_k_sigaction_def kernel_eval kernel_layout)

definition struct_sighand_struct :: ctype where
  "struct_sighand_struct = Struct [
    Member ''siglock'' typedef_spinlock_t, Member ''count'' typedef_refcount_t,
    Member ''signalfd_wqh'' typedef_wait_queue_head_t, Member ''action'' (Arr (struct_k_sigaction) 64)]"

lemma struct_sighand_struct_layout [kernel_layout]:
  "sizeof struct_sighand_struct = 2080" "alignof struct_sighand_struct = 8"
  by (simp_all add: struct_sighand_struct_def kernel_eval kernel_layout)

definition struct_hlist_bl_node :: ctype where
  "struct_hlist_bl_node = Struct [
    Member ''next'' (Ptr ''struct hlist_bl_node''), Member ''pprev'' (Ptr ''struct hlist_bl_node *'')]"

lemma struct_hlist_bl_node_layout [kernel_layout]:
  "sizeof struct_hlist_bl_node = 16" "alignof struct_hlist_bl_node = 8"
  by (simp_all add: struct_hlist_bl_node_def kernel_eval kernel_layout)

definition struct_qstr :: ctype where
  "struct_qstr = Struct [
    Member '''' (Union [Member '''' (Struct [Member ''hash'' typedef_u32, Member ''len'' typedef_u32]),
      Member ''hash_len'' typedef_u64]),
    Member ''name'' (Ptr ''unsigned char'')]"

lemma struct_qstr_layout [kernel_layout]:
  "sizeof struct_qstr = 16" "alignof struct_qstr = 8"
  by (simp_all add: struct_qstr_def kernel_eval kernel_layout)

definition struct_lockref :: ctype where
  "struct_lockref = Struct [
    Member '''' (Union [Member ''lock_count'' typedef___u64,
      Member '''' (Struct [Member ''lock'' typedef_spinlock_t, Member ''count'' (Scalar 4)])])]"

lemma struct_lockref_layout [kernel_layout]:
  "sizeof struct_lockref = 8" "alignof struct_lockref = 8"
  by (simp_all add: struct_lockref_def kernel_eval kernel_layout)

definition struct_dentry :: ctype where
  "struct_dentry = Struct [
    Member ''d_flags'' (Scalar 4), Member ''d_seq'' typedef_seqcount_spinlock_t,
    Member ''d_hash'' struct_hlist_bl_node, Member ''d_parent'' (Ptr ''struct dentry''),
    Member ''d_name'' struct_qstr, Member ''d_inode'' (Ptr ''struct inode''),
    Member ''d_iname'' (Arr (Scalar 1) 32), Member ''d_lockref'' struct_lockref,
    Member ''d_op'' (Ptr ''struct dentry_operations''), Member ''d_sb'' (Ptr ''struct super_block''),
    Member ''d_time'' (Scalar 8), Member ''d_fsdata'' (Ptr ''void''),
    Member '''' (Union [Member ''d_lru'' struct_list_head, Member ''d_wait'' (Ptr ''wait_queue_head_t'')]),
    Member ''d_child'' struct_list_head, Member ''d_subdirs'' struct_list_head,
    Member ''d_u'' (Union [Member ''d_alias'' struct_hlist_node,
      Member ''d_in_lookup_hash'' struct_hlist_bl_node, Member ''d_rcu'' struct_callback_head])]"

lemma struct_dentry_layout [kernel_layout]:
  "sizeof struct_dentry = 192" "alignof struct_dentry = 8"
  by (simp_all add: struct_dentry_def kernel_eval kernel_layout)

definition struct_hlist_bl_head :: ctype where
  "struct_hlist_bl_head = Struct [
    Member ''first'' (Ptr ''struct hlist_bl_node'')]"

lemma struct_hlist_bl_head_layout [kernel_layout]:
  "sizeof struct_hlist_bl_head = 8" "alignof struct_hlist_bl_head = 8"
  by (simp_all add: struct_hlist_bl_head_def kernel_eval kernel_layout)

definition typedef_qsize_t :: ctype where
  "typedef_qsize_t = Scalar 8"

lemma typedef_qsize_t_layout [kernel_layout]:
  "sizeof typedef_qsize_t = 8" "alignof typedef_qsize_t = 8"
  by (simp_all add: typedef_qsize_t_def kernel_eval kernel_layout)

definition struct_mem_dqinfo :: ctype where
  "struct_mem_dqinfo = Struct [
    Member ''dqi_format'' (Ptr ''struct quota_format_type''), Member ''dqi_fmt_id'' (Scalar 4),
    Member ''dqi_dirty_list'' struct_list_head, Member ''dqi_flags'' (Scalar 8),
    Member ''dqi_bgrace'' (Scalar 4), Member ''dqi_igrace'' (Scalar 4),
    Member ''dqi_max_spc_limit'' typedef_qsize_t, Member ''dqi_max_ino_limit'' typedef_qsize_t,
    Member ''dqi_priv'' (Ptr ''void'')]"

lemma struct_mem_dqinfo_layout [kernel_layout]:
  "sizeof struct_mem_dqinfo = 72" "alignof struct_mem_dqinfo = 8"
  by (simp_all add: struct_mem_dqinfo_def kernel_eval kernel_layout)

definition struct_quota_info :: ctype where
  "struct_quota_info = Struct [
    Member ''flags'' (Scalar 4), Member ''dqio_sem'' struct_rw_semaphore,
    Member ''files'' (Arr (Ptr ''struct inode'') 3), Member ''info'' (Arr (struct_mem_dqinfo) 3),
    Member ''ops'' (Arr (Ptr ''struct quota_format_ops'') 3)]"

lemma struct_quota_info_layout [kernel_layout]:
  "sizeof struct_quota_info = 312" "alignof struct_quota_info = 8"
  by (simp_all add: struct_quota_info_def kernel_eval kernel_layout)

definition struct_rcu_sync :: ctype where
  "struct_rcu_sync = Struct [
    Member ''gp_state'' (Scalar 4), Member ''gp_count'' (Scalar 4),
    Member ''gp_wait'' typedef_wait_queue_head_t, Member ''cb_head'' struct_callback_head]"

lemma struct_rcu_sync_layout [kernel_layout]:
  "sizeof struct_rcu_sync = 48" "alignof struct_rcu_sync = 8"
  by (simp_all add: struct_rcu_sync_def kernel_eval kernel_layout)

definition struct_rcuwait :: ctype where
  "struct_rcuwait = Struct [
    Member ''task'' (Ptr ''struct task_struct'')]"

lemma struct_rcuwait_layout [kernel_layout]:
  "sizeof struct_rcuwait = 8" "alignof struct_rcuwait = 8"
  by (simp_all add: struct_rcuwait_def kernel_eval kernel_layout)

definition struct_percpu_rw_semaphore :: ctype where
  "struct_percpu_rw_semaphore = Struct [
    Member ''rss'' struct_rcu_sync, Member ''read_count'' (Ptr ''unsigned int''),
    Member ''writer'' struct_rcuwait, Member ''waiters'' typedef_wait_queue_head_t,
    Member ''block'' typedef_atomic_t]"

lemma struct_percpu_rw_semaphore_layout [kernel_layout]:
  "sizeof struct_percpu_rw_semaphore = 96" "alignof struct_percpu_rw_semaphore = 8"
  by (simp_all add: struct_percpu_rw_semaphore_def kernel_eval kernel_layout)

definition struct_sb_writers :: ctype where
  "struct_sb_writers = Struct [
    Member ''frozen'' (Scalar 2), Member ''freeze_holders'' (Scalar 2),
    Member ''rw_sem'' (Arr (struct_percpu_rw_semaphore) 3)]"

lemma struct_sb_writers_layout [kernel_layout]:
  "sizeof struct_sb_writers = 296" "alignof struct_sb_writers = 8"
  by (simp_all add: struct_sb_writers_def kernel_eval kernel_layout)

definition typedef_uuid_t :: ctype where
  "typedef_uuid_t = Struct [
    Member ''b'' (Arr (typedef___u8) 16)]"

lemma typedef_uuid_t_layout [kernel_layout]:
  "sizeof typedef_uuid_t = 16" "alignof typedef_uuid_t = 1"
  by (simp_all add: typedef_uuid_t_def kernel_eval kernel_layout)

definition struct_shrinker :: ctype where
  "struct_shrinker = Struct [
    Member ''count_objects'' (Ptr ''()''), Member ''scan_objects'' (Ptr ''()''),
    Member ''batch'' (Scalar 8), Member ''seeks'' (Scalar 4), Member ''flags'' (Scalar 4),
    Member ''list'' struct_list_head, Member ''id'' (Scalar 4),
    Member ''nr_deferred'' (Ptr ''atomic_long_t'')]"

lemma struct_shrinker_layout [kernel_layout]:
  "sizeof struct_shrinker = 64" "alignof struct_shrinker = 8"
  by (simp_all add: struct_shrinker_def kernel_eval kernel_layout)

definition struct_list_lru :: ctype where
  "struct_list_lru = Struct [
    Member ''node'' (Ptr ''struct list_lru_node''), Member ''list'' struct_list_head,
    Member ''shrinker_id'' (Scalar 4), Member ''memcg_aware'' typedef_bool, Member ''xa'' struct_xarray]"

lemma struct_list_lru_layout [kernel_layout]:
  "sizeof struct_list_lru = 48" "alignof struct_list_lru = 8"
  by (simp_all add: struct_list_lru_def kernel_eval kernel_layout)

definition struct_super_block :: ctype where
  "struct_super_block = Struct [
    Member ''s_list'' struct_list_head, Member ''s_dev'' typedef_dev_t,
    Member ''s_blocksize_bits'' (Scalar 1), Member ''s_blocksize'' (Scalar 8),
    Member ''s_maxbytes'' typedef_loff_t, Member ''s_type'' (Ptr ''struct file_system_type''),
    Member ''s_op'' (Ptr ''struct super_operations''),
    Member ''dq_op'' (Ptr ''struct dquot_operations''), Member ''s_qcop'' (Ptr ''struct quotactl_ops''),
    Member ''s_export_op'' (Ptr ''struct export_operations''), Member ''s_flags'' (Scalar 8),
    Member ''s_iflags'' (Scalar 8), Member ''s_magic'' (Scalar 8),
    Member ''s_root'' (Ptr ''struct dentry''), Member ''s_umount'' struct_rw_semaphore,
    Member ''s_count'' (Scalar 4), Member ''s_active'' typedef_atomic_t,
    Member ''s_security'' (Ptr ''void''), Member ''s_xattr'' (Ptr ''struct xattr_handler *''),
    Member ''s_roots'' struct_hlist_bl_head, Member ''s_mounts'' struct_list_head,
    Member ''s_bdev'' (Ptr ''struct block_device''),
    Member ''s_bdev_handle'' (Ptr ''struct bdev_handle''),
    Member ''s_bdi'' (Ptr ''struct backing_dev_info''), Member ''s_mtd'' (Ptr ''struct mtd_info''),
    Member ''s_instances'' struct_hlist_node, Member ''s_quota_types'' (Scalar 4),
    Member ''s_dquot'' struct_quota_info, Member ''s_writers'' struct_sb_writers,
    Member ''s_fs_info'' (Ptr ''void''), Member ''s_time_gran'' typedef_u32,
    Member ''s_time_min'' typedef_time64_t, Member ''s_time_max'' typedef_time64_t,
    Member ''s_fsnotify_mask'' typedef___u32,
    Member ''s_fsnotify_marks'' (Ptr ''struct fsnotify_mark_connector''),
    Member ''s_id'' (Arr (Scalar 1) 32), Member ''s_uuid'' typedef_uuid_t,
    Member ''s_max_links'' (Scalar 4), Member ''s_vfs_rename_mutex'' struct_mutex,
    Member ''s_subtype'' (Ptr ''char''), Member ''s_d_op'' (Ptr ''struct dentry_operations''),
    Member ''s_shrink'' struct_shrinker, Member ''s_remove_count'' typedef_atomic_long_t,
    Member ''s_fsnotify_connectors'' typedef_atomic_long_t, Member ''s_readonly_remount'' (Scalar 4),
    Member ''s_wb_err'' typedef_errseq_t, Member ''s_dio_done_wq'' (Ptr ''struct workqueue_struct''),
    Member ''s_pins'' struct_hlist_head, Member ''s_user_ns'' (Ptr ''struct user_namespace''),
    Member ''s_dentry_lru'' struct_list_lru, Member ''s_inode_lru'' struct_list_lru,
    Member ''rcu'' struct_callback_head, Member ''destroy_work'' struct_work_struct,
    Member ''s_sync_lock'' struct_mutex, Member ''s_stack_depth'' (Scalar 4), Bits '''' 8 64,
    Bits '''' 8 64, Bits '''' 8 64, Bits '''' 8 64, Member ''s_inode_list_lock'' typedef_spinlock_t,
    Member ''s_inodes'' struct_list_head, Member ''s_inode_wblist_lock'' typedef_spinlock_t,
    Member ''s_inodes_wb'' struct_list_head, Bits '''' 8 64, Bits '''' 8 64]"

lemma struct_super_block_layout [kernel_layout]:
  "sizeof struct_super_block = 1408" "alignof struct_super_block = 8"
  by (simp_all add: struct_super_block_def kernel_eval kernel_layout)

definition struct_file_operations :: ctype where
  "struct_file_operations = Struct [
    Member ''owner'' (Ptr ''struct module''), Member ''llseek'' (Ptr ''()''),
    Member ''read'' (Ptr ''()''), Member ''write'' (Ptr ''()''), Member ''read_iter'' (Ptr ''()''),
    Member ''write_iter'' (Ptr ''()''), Member ''iopoll'' (Ptr ''()''),
    Member ''iterate_shared'' (Ptr ''()''), Member ''poll'' (Ptr ''()''),
    Member ''unlocked_ioctl'' (Ptr ''()''), Member ''compat_ioctl'' (Ptr ''()''),
    Member ''mmap'' (Ptr ''()''), Member ''mmap_supported_flags'' (Scalar 8),
    Member ''open'' (Ptr ''()''), Member ''flush'' (Ptr ''()''), Member ''release'' (Ptr ''()''),
    Member ''fsync'' (Ptr ''()''), Member ''fasync'' (Ptr ''()''), Member ''lock'' (Ptr ''()''),
    Member ''get_unmapped_area'' (Ptr ''()''), Member ''check_flags'' (Ptr ''()''),
    Member ''flock'' (Ptr ''()''), Member ''splice_write'' (Ptr ''()''),
    Member ''splice_read'' (Ptr ''()''), Member ''splice_eof'' (Ptr ''()''),
    Member ''setlease'' (Ptr ''()''), Member ''fallocate'' (Ptr ''()''),
    Member ''show_fdinfo'' (Ptr ''()''), Member ''copy_file_range'' (Ptr ''()''),
    Member ''remap_file_range'' (Ptr ''()''), Member ''fadvise'' (Ptr ''()''),
    Member ''uring_cmd'' (Ptr ''()''), Member ''uring_cmd_iopoll'' (Ptr ''()'')]"

lemma struct_file_operations_layout [kernel_layout]:
  "sizeof struct_file_operations = 264" "alignof struct_file_operations = 8"
  by (simp_all add: struct_file_operations_def kernel_eval kernel_layout)

definition struct_inode_operations :: ctype where
  "struct_inode_operations = Struct [
    Member ''lookup'' (Ptr ''()''), Member ''get_link'' (Ptr ''()''),
    Member ''permission'' (Ptr ''()''), Member ''get_inode_acl'' (Ptr ''()''),
    Member ''readlink'' (Ptr ''()''), Member ''create'' (Ptr ''()''), Member ''link'' (Ptr ''()''),
    Member ''unlink'' (Ptr ''()''), Member ''symlink'' (Ptr ''()''), Member ''mkdir'' (Ptr ''()''),
    Member ''rmdir'' (Ptr ''()''), Member ''mknod'' (Ptr ''()''), Member ''rename'' (Ptr ''()''),
    Member ''setattr'' (Ptr ''()''), Member ''getattr'' (Ptr ''()''), Member ''listxattr'' (Ptr ''()''),
    Member ''fiemap'' (Ptr ''()''), Member ''update_time'' (Ptr ''()''),
    Member ''atomic_open'' (Ptr ''()''), Member ''tmpfile'' (Ptr ''()''),
    Member ''get_acl'' (Ptr ''()''), Member ''set_acl'' (Ptr ''()''),
    Member ''fileattr_set'' (Ptr ''()''), Member ''fileattr_get'' (Ptr ''()''),
    Member ''get_offset_ctx'' (Ptr ''()''), Bits '''' 8 64, Bits '''' 8 64, Bits '''' 8 64,
    Bits '''' 8 64, Bits '''' 8 64, Bits '''' 8 64, Bits '''' 8 64]"

lemma struct_inode_operations_layout [kernel_layout]:
  "sizeof struct_inode_operations = 256" "alignof struct_inode_operations = 8"
  by (simp_all add: struct_inode_operations_def kernel_eval kernel_layout)

definition struct_super_operations :: ctype where
  "struct_super_operations = Struct [
    Member ''alloc_inode'' (Ptr ''()''), Member ''destroy_inode'' (Ptr ''()''),
    Member ''free_inode'' (Ptr ''()''), Member ''dirty_inode'' (Ptr ''()''),
    Member ''write_inode'' (Ptr ''()''), Member ''drop_inode'' (Ptr ''()''),
    Member ''evict_inode'' (Ptr ''()''), Member ''put_super'' (Ptr ''()''),
    Member ''sync_fs'' (Ptr ''()''), Member ''freeze_super'' (Ptr ''()''),
    Member ''freeze_fs'' (Ptr ''()''), Member ''thaw_super'' (Ptr ''()''),
    Member ''unfreeze_fs'' (Ptr ''()''), Member ''statfs'' (Ptr ''()''),
    Member ''remount_fs'' (Ptr ''()''), Member ''umount_begin'' (Ptr ''()''),
    Member ''show_options'' (Ptr ''()''), Member ''show_devname'' (Ptr ''()''),
    Member ''show_path'' (Ptr ''()''), Member ''show_stats'' (Ptr ''()''),
    Member ''quota_read'' (Ptr ''()''), Member ''quota_write'' (Ptr ''()''),
    Member ''get_dquots'' (Ptr ''()''), Member ''nr_cached_objects'' (Ptr ''()''),
    Member ''free_cached_objects'' (Ptr ''()''), Member ''shutdown'' (Ptr ''()'')]"

lemma struct_super_operations_layout [kernel_layout]:
  "sizeof struct_super_operations = 208" "alignof struct_super_operations = 8"
  by (simp_all add: struct_super_operations_def kernel_eval kernel_layout)

definition struct_dentry_operations :: ctype where
  "struct_dentry_operations = Struct [
    Member ''d_revalidate'' (Ptr ''()''), Member ''d_weak_revalidate'' (Ptr ''()''),
    Member ''d_hash'' (Ptr ''()''), Member ''d_compare'' (Ptr ''()''), Member ''d_delete'' (Ptr ''()''),
    Member ''d_init'' (Ptr ''()''), Member ''d_release'' (Ptr ''()''), Member ''d_prune'' (Ptr ''()''),
    Member ''d_iput'' (Ptr ''()''), Member ''d_dname'' (Ptr ''()''),
    Member ''d_automount'' (Ptr ''()''), Member ''d_manage'' (Ptr ''()''),
    Member ''d_real'' (Ptr ''()''), Bits '''' 8 64, Bits '''' 8 64, Bits '''' 8 64]"

lemma struct_dentry_operations_layout [kernel_layout]:
  "sizeof struct_dentry_operations = 128" "alignof struct_dentry_operations = 8"
  by (simp_all add: struct_dentry_operations_def kernel_eval kernel_layout)

definition struct_upid :: ctype where
  "struct_upid = Struct [
    Member ''nr'' (Scalar 4), Member ''ns'' (Ptr ''struct pid_namespace'')]"

lemma struct_upid_layout [kernel_layout]:
  "sizeof struct_upid = 16" "alignof struct_upid = 8"
  by (simp_all add: struct_upid_def kernel_eval kernel_layout)

definition struct_pid :: ctype where
  "struct_pid = Struct [
    Member ''count'' typedef_refcount_t, Member ''level'' (Scalar 4),
    Member ''lock'' typedef_spinlock_t, Member ''tasks'' (Arr (struct_hlist_head) 4),
    Member ''inodes'' struct_hlist_head, Member ''wait_pidfd'' typedef_wait_queue_head_t,
    Member ''rcu'' struct_callback_head, Member ''numbers'' (Arr (struct_upid) 0)]"

lemma struct_pid_layout [kernel_layout]:
  "sizeof struct_pid = 96" "alignof struct_pid = 8"
  by (simp_all add: struct_pid_def kernel_eval kernel_layout)

definition struct_nsproxy :: ctype where
  "struct_nsproxy = Struct [
    Member ''count'' typedef_refcount_t, Member ''uts_ns'' (Ptr ''struct uts_namespace''),
    Member ''ipc_ns'' (Ptr ''struct ipc_namespace''), Member ''mnt_ns'' (Ptr ''struct mnt_namespace''),
    Member ''pid_ns_for_children'' (Ptr ''struct pid_namespace''),
    Member ''net_ns'' (Ptr ''struct net''), Member ''time_ns'' (Ptr ''struct time_namespace''),
    Member ''time_ns_for_children'' (Ptr ''struct time_namespace''),
    Member ''cgroup_ns'' (Ptr ''struct cgroup_namespace'')]"

lemma struct_nsproxy_layout [kernel_layout]:
  "sizeof struct_nsproxy = 72" "alignof struct_nsproxy = 8"
  by (simp_all add: struct_nsproxy_def kernel_eval kernel_layout)

definition struct_fs_struct :: ctype where
  "struct_fs_struct = Struct [
    Member ''users'' (Scalar 4), Member ''lock'' typedef_spinlock_t,
    Member ''seq'' typedef_seqcount_spinlock_t, Member ''umask'' (Scalar 4),
    Member ''in_exec'' (Scalar 4), Member ''root'' struct_path, Member ''pwd'' struct_path]"

lemma struct_fs_struct_layout [kernel_layout]:
  "sizeof struct_fs_struct = 56" "alignof struct_fs_struct = 8"
  by (simp_all add: struct_fs_struct_def kernel_eval kernel_layout)

definition struct_address_space_operations :: ctype where
  "struct_address_space_operations = Struct [
    Member ''writepage'' (Ptr ''()''), Member ''read_folio'' (Ptr ''()''),
    Member ''writepages'' (Ptr ''()''), Member ''dirty_folio'' (Ptr ''()''),
    Member ''readahead'' (Ptr ''()''), Member ''write_begin'' (Ptr ''()''),
    Member ''write_end'' (Ptr ''()''), Member ''bmap'' (Ptr ''()''),
    Member ''invalidate_folio'' (Ptr ''()''), Member ''release_folio'' (Ptr ''()''),
    Member ''free_folio'' (Ptr ''()''), Member ''direct_IO'' (Ptr ''()''),
    Member ''migrate_folio'' (Ptr ''()''), Member ''launder_folio'' (Ptr ''()''),
    Member ''is_partially_uptodate'' (Ptr ''()''), Member ''is_dirty_writeback'' (Ptr ''()''),
    Member ''error_remove_page'' (Ptr ''()''), Member ''swap_activate'' (Ptr ''()''),
    Member ''swap_deactivate'' (Ptr ''()''), Member ''swap_rw'' (Ptr ''()'')]"

lemma struct_address_space_operations_layout [kernel_layout]:
  "sizeof struct_address_space_operations = 160" "alignof struct_address_space_operations = 8"
  by (simp_all add: struct_address_space_operations_def kernel_eval kernel_layout)

definition struct_vfsmount :: ctype where
  "struct_vfsmount = Struct [
    Member ''mnt_root'' (Ptr ''struct dentry''), Member ''mnt_sb'' (Ptr ''struct super_block''),
    Member ''mnt_flags'' (Scalar 4), Member ''mnt_idmap'' (Ptr ''struct mnt_idmap'')]"

lemma struct_vfsmount_layout [kernel_layout]:
  "sizeof struct_vfsmount = 32" "alignof struct_vfsmount = 8"
  by (simp_all add: struct_vfsmount_def kernel_eval kernel_layout)

definition struct_kref :: ctype where
  "struct_kref = Struct [
    Member ''refcount'' typedef_refcount_t]"

lemma struct_kref_layout [kernel_layout]:
  "sizeof struct_kref = 4" "alignof struct_kref = 4"
  by (simp_all add: struct_kref_def kernel_eval kernel_layout)

definition struct_kobject :: ctype where
  "struct_kobject = Struct [
    Member ''name'' (Ptr ''char''), Member ''entry'' struct_list_head,
    Member ''parent'' (Ptr ''struct kobject''), Member ''kset'' (Ptr ''struct kset''),
    Member ''ktype'' (Ptr ''struct kobj_type''), Member ''sd'' (Ptr ''struct kernfs_node''),
    Member ''kref'' struct_kref, Bits ''state_initialized'' 4 1, Bits ''state_in_sysfs'' 4 1,
    Bits ''state_add_uevent_sent'' 4 1, Bits ''state_remove_uevent_sent'' 4 1,
    Bits ''uevent_suppress'' 4 1]"

lemma struct_kobject_layout [kernel_layout]:
  "sizeof struct_kobject = 64" "alignof struct_kobject = 8"
  by (simp_all add: struct_kobject_def kernel_eval kernel_layout)

definition struct_cdev :: ctype where
  "struct_cdev = Struct [
    Member ''kobj'' struct_kobject, Member ''owner'' (Ptr ''struct module''),
    Member ''ops'' (Ptr ''struct file_operations''), Member ''list'' struct_list_head,
    Member ''dev'' typedef_dev_t, Member ''count'' (Scalar 4)]"

lemma struct_cdev_layout [kernel_layout]:
  "sizeof struct_cdev = 104" "alignof struct_cdev = 8"
  by (simp_all add: struct_cdev_def kernel_eval kernel_layout)

definition struct_css_set :: ctype where
  "struct_css_set = Struct [
    Member ''subsys'' (Arr (Ptr ''struct cgroup_subsys_state'') 13),
    Member ''refcount'' typedef_refcount_t, Member ''dom_cset'' (Ptr ''struct css_set''),
    Member ''dfl_cgrp'' (Ptr ''struct cgroup''), Member ''nr_tasks'' (Scalar 4),
    Member ''tasks'' struct_list_head, Member ''mg_tasks'' struct_list_head,
    Member ''dying_tasks'' struct_list_head, Member ''task_iters'' struct_list_head,
    Member ''e_cset_node'' (Arr (struct_list_head) 13), Member ''threaded_csets'' struct_list_head,
    Member ''threaded_csets_node'' struct_list_head, Member ''hlist'' struct_hlist_node,
    Member ''cgrp_links'' struct_list_head, Member ''mg_src_preload_node'' struct_list_head,
    Member ''mg_dst_preload_node'' struct_list_head, Member ''mg_node'' struct_list_head,
    Member ''mg_src_cgrp'' (Ptr ''struct cgroup''), Member ''mg_dst_cgrp'' (Ptr ''struct cgroup''),
    Member ''mg_dst_cset'' (Ptr ''struct css_set''), Member ''dead'' typedef_bool,
    Member ''callback_head'' struct_callback_head]"

lemma struct_css_set_layout [kernel_layout]:
  "sizeof struct_css_set = 568" "alignof struct_css_set = 8"
  by (simp_all add: struct_css_set_def kernel_eval kernel_layout)

definition typedef_pgprotval_t :: ctype where
  "typedef_pgprotval_t = Scalar 8"

lemma typedef_pgprotval_t_layout [kernel_layout]:
  "sizeof typedef_pgprotval_t = 8" "alignof typedef_pgprotval_t = 8"
  by (simp_all add: typedef_pgprotval_t_def kernel_eval kernel_layout)

definition struct_pgprot :: ctype where
  "struct_pgprot = Struct [
    Member ''pgprot'' typedef_pgprotval_t]"

lemma struct_pgprot_layout [kernel_layout]:
  "sizeof struct_pgprot = 8" "alignof struct_pgprot = 8"
  by (simp_all add: struct_pgprot_def kernel_eval kernel_layout)

definition typedef_pgprot_t :: ctype where
  "typedef_pgprot_t = struct_pgprot"

lemma typedef_pgprot_t_layout [kernel_layout]:
  "sizeof typedef_pgprot_t = 8" "alignof typedef_pgprot_t = 8"
  by (simp_all add: typedef_pgprot_t_def kernel_eval kernel_layout)

definition typedef_vm_flags_t :: ctype where
  "typedef_vm_flags_t = Scalar 8"

lemma typedef_vm_flags_t_layout [kernel_layout]:
  "sizeof typedef_vm_flags_t = 8" "alignof typedef_vm_flags_t = 8"
  by (simp_all add: typedef_vm_flags_t_def kernel_eval kernel_layout)

definition struct_vm_userfaultfd_ctx :: ctype where
  "struct_vm_userfaultfd_ctx = Struct [
    Member ''ctx'' (Ptr ''struct userfaultfd_ctx'')]"

lemma struct_vm_userfaultfd_ctx_layout [kernel_layout]:
  "sizeof struct_vm_userfaultfd_ctx = 8" "alignof struct_vm_userfaultfd_ctx = 8"
  by (simp_all add: struct_vm_userfaultfd_ctx_def kernel_eval kernel_layout)

definition struct_vm_area_struct :: ctype where
  "struct_vm_area_struct = Struct [
    Member '''' (Union [Member '''' (Struct [Member ''vm_start'' (Scalar 8),
      Member ''vm_end'' (Scalar 8)]), Member ''vm_rcu'' struct_callback_head]),
    Member ''vm_mm'' (Ptr ''struct mm_struct''), Member ''vm_page_prot'' typedef_pgprot_t,
    Member '''' (Union [Member ''vm_flags'' typedef_vm_flags_t, Member ''__vm_flags'' typedef_vm_flags_t]),
    Member ''vm_lock_seq'' (Scalar 4), Member ''vm_lock'' (Ptr ''struct vma_lock''),
    Member ''detached'' typedef_bool,
    Member ''shared'' (Struct [Member ''rb'' struct_rb_node, Member ''rb_subtree_last'' (Scalar 8)]),
    Member ''anon_vma_chain'' struct_list_head, Member ''anon_vma'' (Ptr ''struct anon_vma''),
    Member ''vm_ops'' (Ptr ''struct vm_operations_struct''), Member ''vm_pgoff'' (Scalar 8),
    Member ''vm_file'' (Ptr ''struct file''), Member ''vm_private_data'' (Ptr ''void''),
    Member ''swap_readahead_info'' typedef_atomic_long_t,
    Member ''vm_policy'' (Ptr ''struct mempolicy''),
    Member ''vm_userfaultfd_ctx'' struct_vm_userfaultfd_ctx]"

lemma struct_vm_area_struct_layout [kernel_layout]:
  "sizeof struct_vm_area_struct = 176" "alignof struct_vm_area_struct = 8"
  by (simp_all add: struct_vm_area_struct_def kernel_eval kernel_layout)

definition struct_page :: ctype where
  "struct_page = Struct [
    Member ''flags'' (Scalar 8),
    Member '''' (Union [Member '''' (Struct [Member '''' (Union [Member ''lru'' struct_list_head,
      Member '''' (Struct [Member ''__filler'' (Ptr ''void''), Member ''mlock_count'' (Scalar 4)]),
      Member ''buddy_list'' struct_list_head, Member ''pcp_list'' struct_list_head]),
      Member ''mapping'' (Ptr ''struct address_space''),
      Member '''' (Union [Member ''index'' (Scalar 8), Member ''share'' (Scalar 8)]),
      Member ''private'' (Scalar 8)]), Member '''' (Struct [Member ''pp_magic'' (Scalar 8),
      Member ''pp'' (Ptr ''struct page_pool''), Member ''_pp_mapping_pad'' (Scalar 8),
      Member ''dma_addr'' (Scalar 8), Member '''' (Union [Member ''dma_addr_upper'' (Scalar 8),
      Member ''pp_frag_count'' typedef_atomic_long_t])]),
      Member '''' (Struct [Member ''compound_head'' (Scalar 8)]),
      Member '''' (Struct [Member ''pgmap'' (Ptr ''struct dev_pagemap''),
      Member ''zone_device_data'' (Ptr ''void'')]), Member ''callback_head'' struct_callback_head]),
    Member '''' (Union [Member ''_mapcount'' typedef_atomic_t, Member ''page_type'' (Scalar 4)]),
    Member ''_refcount'' typedef_atomic_t, Member ''memcg_data'' (Scalar 8)]"

lemma struct_page_layout [kernel_layout]:
  "sizeof struct_page = 64" "alignof struct_page = 8"
  by (simp_all add: struct_page_def kernel_eval kernel_layout)

definition struct_ratelimit_state :: ctype where
  "struct_ratelimit_state = Struct [
    Member ''lock'' typedef_raw_spinlock_t, Member ''interval'' (Scalar 4), Member ''burst'' (Scalar 4),
    Member ''printed'' (Scalar 4), Member ''missed'' (Scalar 4), Member ''begin'' (Scalar 8),
    Member ''flags'' (Scalar 8)]"

lemma struct_ratelimit_state_layout [kernel_layout]:
  "sizeof struct_ratelimit_state = 40" "alignof struct_ratelimit_state = 8"
  by (simp_all add: struct_ratelimit_state_def kernel_eval kernel_layout)

definition struct_user_struct :: ctype where
  "struct_user_struct = Struct [
    Member ''__count'' typedef_refcount_t, Member ''epoll_watches'' struct_percpu_counter,
    Member ''unix_inflight'' (Scalar 8), Member ''pipe_bufs'' typedef_atomic_long_t,
    Member ''uidhash_node'' struct_hlist_node, Member ''uid'' typedef_kuid_t,
    Member ''locked_vm'' typedef_atomic_long_t, Member ''ratelimit'' struct_ratelimit_state]"

lemma struct_user_struct_layout [kernel_layout]:
  "sizeof struct_user_struct = 136" "alignof struct_user_struct = 8"
  by (simp_all add: struct_user_struct_def kernel_eval kernel_layout)

definition struct_idr :: ctype where
  "struct_idr = Struct [
    Member ''idr_rt'' struct_xarray, Member ''idr_base'' (Scalar 4), Member ''idr_next'' (Scalar 4)]"

lemma struct_idr_layout [kernel_layout]:
  "sizeof struct_idr = 24" "alignof struct_idr = 8"
  by (simp_all add: struct_idr_def kernel_eval kernel_layout)

definition struct_ns_common :: ctype where
  "struct_ns_common = Struct [
    Member ''stashed'' typedef_atomic_long_t, Member ''ops'' (Ptr ''struct proc_ns_operations''),
    Member ''inum'' (Scalar 4), Member ''count'' typedef_refcount_t]"

lemma struct_ns_common_layout [kernel_layout]:
  "sizeof struct_ns_common = 24" "alignof struct_ns_common = 8"
  by (simp_all add: struct_ns_common_def kernel_eval kernel_layout)

definition struct_pid_namespace :: ctype where
  "struct_pid_namespace = Struct [
    Member ''idr'' struct_idr, Member ''rcu'' struct_callback_head, Member ''pid_allocated'' (Scalar 4),
    Member ''child_reaper'' (Ptr ''struct task_struct''),
    Member ''pid_cachep'' (Ptr ''struct kmem_cache''), Member ''level'' (Scalar 4),
    Member ''parent'' (Ptr ''struct pid_namespace''), Member ''bacct'' (Ptr ''struct fs_pin''),
    Member ''user_ns'' (Ptr ''struct user_namespace''), Member ''ucounts'' (Ptr ''struct ucounts''),
    Member ''reboot'' (Scalar 4), Member ''ns'' struct_ns_common,
    Member ''memfd_noexec_scope'' (Scalar 4)]"

lemma struct_pid_namespace_layout [kernel_layout]:
  "sizeof struct_pid_namespace = 144" "alignof struct_pid_namespace = 8"
  by (simp_all add: struct_pid_namespace_def kernel_eval kernel_layout)

definition struct_trace_event :: ctype where
  "struct_trace_event = Struct [
    Member ''node'' struct_hlist_node, Member ''type'' (Scalar 4),
    Member ''funcs'' (Ptr ''struct trace_event_functions'')]"

lemma struct_trace_event_layout [kernel_layout]:
  "sizeof struct_trace_event = 32" "alignof struct_trace_event = 8"
  by (simp_all add: struct_trace_event_def kernel_eval kernel_layout)

definition struct_trace_event_call :: ctype where
  "struct_trace_event_call = Struct [
    Member ''list'' struct_list_head, Member ''class'' (Ptr ''struct trace_event_class''),
    Member '''' (Union [Member ''name'' (Ptr ''char''), Member ''tp'' (Ptr ''struct tracepoint'')]),
    Member ''event'' struct_trace_event, Member ''print_fmt'' (Ptr ''char''),
    Member ''filter'' (Ptr ''struct event_filter''),
    Member '''' (Union [Member ''module'' (Ptr ''void''), Member ''refcnt'' typedef_atomic_t]),
    Member ''data'' (Ptr ''void''), Member ''flags'' (Scalar 4), Member ''perf_refcount'' (Scalar 4),
    Member ''perf_events'' (Ptr ''struct hlist_head''),
    Member ''prog_array'' (Ptr ''struct bpf_prog_array''), Member ''perf_perm'' (Ptr ''()'')]"

lemma struct_trace_event_call_layout [kernel_layout]:
  "sizeof struct_trace_event_call = 128" "alignof struct_trace_event_call = 8"
  by (simp_all add: struct_trace_event_call_def kernel_eval kernel_layout)

definition struct_sched_class :: ctype where
  "struct_sched_class = Struct [
    Member ''enqueue_task'' (Ptr ''()''), Member ''dequeue_task'' (Ptr ''()''),
    Member ''yield_task'' (Ptr ''()''), Member ''yield_to_task'' (Ptr ''()''),
    Member ''wakeup_preempt'' (Ptr ''()''), Member ''pick_next_task'' (Ptr ''()''),
    Member ''put_prev_task'' (Ptr ''()''), Member ''set_next_task'' (Ptr ''()''),
    Member ''balance'' (Ptr ''()''), Member ''select_task_rq'' (Ptr ''()''),
    Member ''pick_task'' (Ptr ''()''), Member ''migrate_task_rq'' (Ptr ''()''),
    Member ''task_woken'' (Ptr ''()''), Member ''set_cpus_allowed'' (Ptr ''()''),
    Member ''rq_online'' (Ptr ''()''), Member ''rq_offline'' (Ptr ''()''),
    Member ''find_lock_rq'' (Ptr ''()''), Member ''task_tick'' (Ptr ''()''),
    Member ''task_fork'' (Ptr ''()''), Member ''task_dead'' (Ptr ''()''),
    Member ''switched_from'' (Ptr ''()''), Member ''switched_to'' (Ptr ''()''),
    Member ''prio_changed'' (Ptr ''()''), Member ''get_rr_interval'' (Ptr ''()''),
    Member ''update_curr'' (Ptr ''()''), Member ''task_change_group'' (Ptr ''()'')]"

lemma struct_sched_class_layout [kernel_layout]:
  "sizeof struct_sched_class = 208" "alignof struct_sched_class = 8"
  by (simp_all add: struct_sched_class_def kernel_eval kernel_layout)

definition struct_io_context :: ctype where
  "struct_io_context = Struct [
    Member ''refcount'' typedef_atomic_long_t, Member ''active_ref'' typedef_atomic_t,
    Member ''ioprio'' (Scalar 2), Member ''lock'' typedef_spinlock_t, Member ''icq_tree'' struct_xarray,
    Member ''icq_hint'' (Ptr ''struct io_cq''), Member ''icq_list'' struct_hlist_head,
    Member ''release_work'' struct_work_struct]"

lemma struct_io_context_layout [kernel_layout]:
  "sizeof struct_io_context = 88" "alignof struct_io_context = 8"
  by (simp_all add: struct_io_context_def kernel_eval kernel_layout)

definition struct_ucounts :: ctype where
  "struct_ucounts = Struct [
    Member ''node'' struct_hlist_node, Member ''ns'' (Ptr ''struct user_namespace''),
    Member ''uid'' typedef_kuid_t, Member ''count'' typedef_atomic_t,
    Member ''ucount'' (Arr (typedef_atomic_long_t) 12),
    Member ''rlimit'' (Arr (typedef_atomic_long_t) 4)]"

lemma struct_ucounts_layout [kernel_layout]:
  "sizeof struct_ucounts = 160" "alignof struct_ucounts = 8"
  by (simp_all add: struct_ucounts_def kernel_eval kernel_layout)

definition struct_uid_gid_extent :: ctype where
  "struct_uid_gid_extent = Struct [
    Member ''first'' typedef_u32, Member ''lower_first'' typedef_u32, Member ''count'' typedef_u32]"

lemma struct_uid_gid_extent_layout [kernel_layout]:
  "sizeof struct_uid_gid_extent = 12" "alignof struct_uid_gid_extent = 4"
  by (simp_all add: struct_uid_gid_extent_def kernel_eval kernel_layout)

definition struct_uid_gid_map :: ctype where
  "struct_uid_gid_map = Struct [
    Member ''nr_extents'' typedef_u32,
    Member '''' (Union [Member ''extent'' (Arr (struct_uid_gid_extent) 5),
      Member '''' (Struct [Member ''forward'' (Ptr ''struct uid_gid_extent''),
      Member ''reverse'' (Ptr ''struct uid_gid_extent'')])])]"

lemma struct_uid_gid_map_layout [kernel_layout]:
  "sizeof struct_uid_gid_map = 72" "alignof struct_uid_gid_map = 8"
  by (simp_all add: struct_uid_gid_map_def kernel_eval kernel_layout)

definition struct_ctl_table_header :: ctype where
  "struct_ctl_table_header = Struct [
    Member '''' (Union [Member '''' (Struct [Member ''ctl_table'' (Ptr ''struct ctl_table''),
      Member ''ctl_table_size'' (Scalar 4), Member ''used'' (Scalar 4), Member ''count'' (Scalar 4),
      Member ''nreg'' (Scalar 4)]), Member ''rcu'' struct_callback_head]),
    Member ''unregistering'' (Ptr ''struct completion''),
    Member ''ctl_table_arg'' (Ptr ''struct ctl_table''),
    Member ''root'' (Ptr ''struct ctl_table_root''), Member ''set'' (Ptr ''struct ctl_table_set''),
    Member ''parent'' (Ptr ''struct ctl_dir''), Member ''node'' (Ptr ''struct ctl_node''),
    Member ''inodes'' struct_hlist_head]"

lemma struct_ctl_table_header_layout [kernel_layout]:
  "sizeof struct_ctl_table_header = 80" "alignof struct_ctl_table_header = 8"
  by (simp_all add: struct_ctl_table_header_def kernel_eval kernel_layout)

definition struct_ctl_dir :: ctype where
  "struct_ctl_dir = Struct [
    Member ''header'' struct_ctl_table_header, Member ''root'' struct_rb_root]"

lemma struct_ctl_dir_layout [kernel_layout]:
  "sizeof struct_ctl_dir = 88" "alignof struct_ctl_dir = 8"
  by (simp_all add: struct_ctl_dir_def kernel_eval kernel_layout)

definition struct_ctl_table_set :: ctype where
  "struct_ctl_table_set = Struct [
    Member ''is_seen'' (Ptr ''()''), Member ''dir'' struct_ctl_dir]"

lemma struct_ctl_table_set_layout [kernel_layout]:
  "sizeof struct_ctl_table_set = 96" "alignof struct_ctl_table_set = 8"
  by (simp_all add: struct_ctl_table_set_def kernel_eval kernel_layout)

definition struct_user_namespace :: ctype where
  "struct_user_namespace = Struct [
    Member ''uid_map'' struct_uid_gid_map, Member ''gid_map'' struct_uid_gid_map,
    Member ''projid_map'' struct_uid_gid_map, Member ''parent'' (Ptr ''struct user_namespace''),
    Member ''level'' (Scalar 4), Member ''owner'' typedef_kuid_t, Member ''group'' typedef_kgid_t,
    Member ''ns'' struct_ns_common, Member ''flags'' (Scalar 8),
    Member ''parent_could_setfcap'' typedef_bool, Member ''keyring_name_list'' struct_list_head,
    Member ''user_keyring_register'' (Ptr ''struct key''), Member ''keyring_sem'' struct_rw_semaphore,
    Member ''work'' struct_work_struct, Member ''set'' struct_ctl_table_set,
    Member ''sysctls'' (Ptr ''struct ctl_table_header''), Member ''ucounts'' (Ptr ''struct ucounts''),
    Member ''ucount_max'' (Arr (Scalar 8) 12), Member ''rlimit_max'' (Arr (Scalar 8) 4)]"

lemma struct_user_namespace_layout [kernel_layout]:
  "sizeof struct_user_namespace = 616" "alignof struct_user_namespace = 8"
  by (simp_all add: struct_user_namespace_def kernel_eval kernel_layout)

definition typedef___s32 :: ctype where
  "typedef___s32 = Scalar 4"

lemma typedef___s32_layout [kernel_layout]:
  "sizeof typedef___s32 = 4" "alignof typedef___s32 = 4"
  by (simp_all add: typedef___s32_def kernel_eval kernel_layout)

definition typedef_s32 :: ctype where
  "typedef_s32 = typedef___s32"

lemma typedef_s32_layout [kernel_layout]:
  "sizeof typedef_s32 = 4" "alignof typedef_s32 = 4"
  by (simp_all add: typedef_s32_def kernel_eval kernel_layout)

definition typedef_int32_t :: ctype where
  "typedef_int32_t = typedef_s32"

lemma typedef_int32_t_layout [kernel_layout]:
  "sizeof typedef_int32_t = 4" "alignof typedef_int32_t = 4"
  by (simp_all add: typedef_int32_t_def kernel_eval kernel_layout)

definition typedef_key_serial_t :: ctype where
  "typedef_key_serial_t = typedef_int32_t"

lemma typedef_key_serial_t_layout [kernel_layout]:
  "sizeof typedef_key_serial_t = 4" "alignof typedef_key_serial_t = 4"
  by (simp_all add: typedef_key_serial_t_def kernel_eval kernel_layout)

definition typedef_uint32_t :: ctype where
  "typedef_uint32_t = typedef_u32"

lemma typedef_uint32_t_layout [kernel_layout]:
  "sizeof typedef_uint32_t = 4" "alignof typedef_uint32_t = 4"
  by (simp_all add: typedef_uint32_t_def kernel_eval kernel_layout)

definition typedef_key_perm_t :: ctype where
  "typedef_key_perm_t = typedef_uint32_t"

lemma typedef_key_perm_t_layout [kernel_layout]:
  "sizeof typedef_key_perm_t = 4" "alignof typedef_key_perm_t = 4"
  by (simp_all add: typedef_key_perm_t_def kernel_eval kernel_layout)

definition struct_keyring_index_key :: ctype where
  "struct_keyring_index_key = Struct [
    Member ''hash'' (Scalar 8),
    Member '''' (Union [Member '''' (Struct [Member ''desc_len'' typedef_u16,
      Member ''desc'' (Arr (Scalar 1) 6)]), Member ''x'' (Scalar 8)]),
    Member ''type'' (Ptr ''struct key_type''), Member ''domain_tag'' (Ptr ''struct key_tag''),
    Member ''description'' (Ptr ''char'')]"

lemma struct_keyring_index_key_layout [kernel_layout]:
  "sizeof struct_keyring_index_key = 40" "alignof struct_keyring_index_key = 8"
  by (simp_all add: struct_keyring_index_key_def kernel_eval kernel_layout)

definition union_key_payload :: ctype where
  "union_key_payload = Union [
    Member ''rcu_data0'' (Ptr ''void''), Member ''data'' (Arr (Ptr ''void'') 4)]"

lemma union_key_payload_layout [kernel_layout]:
  "sizeof union_key_payload = 32" "alignof union_key_payload = 8"
  by (simp_all add: union_key_payload_def kernel_eval kernel_layout)

definition struct_assoc_array :: ctype where
  "struct_assoc_array = Struct [
    Member ''root'' (Ptr ''struct assoc_array_ptr''), Member ''nr_leaves_on_tree'' (Scalar 8)]"

lemma struct_assoc_array_layout [kernel_layout]:
  "sizeof struct_assoc_array = 16" "alignof struct_assoc_array = 8"
  by (simp_all add: struct_assoc_array_def kernel_eval kernel_layout)

definition struct_key :: ctype where
  "struct_key = Struct [
    Member ''usage'' typedef_refcount_t, Member ''serial'' typedef_key_serial_t,
    Member '''' (Union [Member ''graveyard_link'' struct_list_head, Member ''serial_node'' struct_rb_node]),
    Member ''sem'' struct_rw_semaphore, Member ''user'' (Ptr ''struct key_user''),
    Member ''security'' (Ptr ''void''),
    Member '''' (Union [Member ''expiry'' typedef_time64_t, Member ''revoked_at'' typedef_time64_t]),
    Member ''last_used_at'' typedef_time64_t, Member ''uid'' typedef_kuid_t,
    Member ''gid'' typedef_kgid_t, Member ''perm'' typedef_key_perm_t, Member ''quotalen'' (Scalar 2),
    Member ''datalen'' (Scalar 2), Member ''state'' (Scalar 2), Member ''flags'' (Scalar 8),
    Member '''' (Union [Member ''index_key'' struct_keyring_index_key,
      Member '''' (Struct [Member ''hash'' (Scalar 8), Member ''len_desc'' (Scalar 8),
      Member ''type'' (Ptr ''struct key_type''), Member ''domain_tag'' (Ptr ''struct key_tag''),
      Member ''description'' (Ptr ''char'')])]),
    Member '''' (Union [Member ''payload'' union_key_payload,
      Member '''' (Struct [Member ''name_link'' struct_list_head, Member ''keys'' struct_assoc_array])]),
    Member ''restrict_link'' (Ptr ''struct key_restriction'')]"

lemma struct_key_layout [kernel_layout]:
  "sizeof struct_key = 216" "alignof struct_key = 8"
  by (simp_all add: struct_key_def kernel_eval kernel_layout)

definition enum_uprobe_task_state :: "(string \<times> int) list" where
  "enum_uprobe_task_state = [
    (''UTASK_RUNNING'', 0), (''UTASK_SSTEP'', 1), (''UTASK_SSTEP_ACK'', 2), (''UTASK_SSTEP_TRAPPED'', 3)]"

definition struct_arch_uprobe_task :: ctype where
  "struct_arch_uprobe_task = Struct [
    Member ''saved_scratch_register'' (Scalar 8), Member ''saved_trap_nr'' (Scalar 4),
    Member ''saved_tf'' (Scalar 4)]"

lemma struct_arch_uprobe_task_layout [kernel_layout]:
  "sizeof struct_arch_uprobe_task = 16" "alignof struct_arch_uprobe_task = 8"
  by (simp_all add: struct_arch_uprobe_task_def kernel_eval kernel_layout)

definition struct_uprobe_task :: ctype where
  "struct_uprobe_task = Struct [
    Member ''state'' c_enum,
    Member '''' (Union [Member '''' (Struct [Member ''autask'' struct_arch_uprobe_task,
      Member ''vaddr'' (Scalar 8)]), Member '''' (Struct [Member ''dup_xol_work'' struct_callback_head,
      Member ''dup_xol_addr'' (Scalar 8)])]),
    Member ''active_uprobe'' (Ptr ''struct uprobe''), Member ''xol_vaddr'' (Scalar 8),
    Member ''auprobe'' (Ptr ''struct arch_uprobe''),
    Member ''return_instances'' (Ptr ''struct return_instance''), Member ''depth'' (Scalar 4)]"

lemma struct_uprobe_task_layout [kernel_layout]:
  "sizeof struct_uprobe_task = 72" "alignof struct_uprobe_task = 8"
  by (simp_all add: struct_uprobe_task_def kernel_eval kernel_layout)

end
