(* ===== verification/Kernel_Bpf.thy ===== *)
theory Kernel_Bpf
  imports Kernel_Objects
begin

text \<open>
  The BPF side of \<open>vmlinux.h\<close>: the numbers of map types, program types, attach types and helpers the
  sources use by name, and the kernel's map objects.
\<close>

text \<open>The page-sized padding of the ring buffer is runs of unnamed 64-bit fields.\<close>

lemma pad_start: "start_of (Bits [] 8 64) p = (p + 63) div 64 * 64"
proof (cases "p mod 64 = 0")
  case True
  then obtain q where "p = 64 * q" by (auto simp: mod_eq_0_iff_dvd)
  moreover have "(64 * q + 63) div 64 = q" by simp
  ultimately show ?thesis by simp
qed (simp add: align_up_def)

lemma fold_pad:
  "fold (\<lambda>m p. start_of m p + member_bits m) (replicate n (Bits [] 8 64)) p =
    (if n = 0 then p else (p + 63) div 64 * 64 + n * 64)"
proof (induction n arbitrary: p)
  case (Suc n)
  define q where "q = (p + 63) div 64"
  have "(q * 64 + 64 + 63) div 64 = Suc q" by simp
  then show ?case
    by (simp only: replicate_Suc fold_simps Suc.IH pad_start member_bits.simps q_def [symmetric]) simp
qed simp

lemma max_list_append: "max_list (xs @ ys) = max (max_list xs) (max_list ys)"
  by (induction xs) simp_all

lemma max_list_replicate: "max_list (replicate n x) = (if n = 0 then 0 else x)"
  by (induction n) simp_all

lemmas fold_padding = fold_pad max_list_append max_list_replicate

definition enum_bpf_map_type :: "(string \<times> int) list" where
  "enum_bpf_map_type = [
    (''BPF_MAP_TYPE_UNSPEC'', 0), (''BPF_MAP_TYPE_HASH'', 1), (''BPF_MAP_TYPE_ARRAY'', 2),
    (''BPF_MAP_TYPE_PROG_ARRAY'', 3), (''BPF_MAP_TYPE_PERF_EVENT_ARRAY'', 4),
    (''BPF_MAP_TYPE_PERCPU_HASH'', 5), (''BPF_MAP_TYPE_PERCPU_ARRAY'', 6),
    (''BPF_MAP_TYPE_STACK_TRACE'', 7), (''BPF_MAP_TYPE_CGROUP_ARRAY'', 8),
    (''BPF_MAP_TYPE_LRU_HASH'', 9), (''BPF_MAP_TYPE_LRU_PERCPU_HASH'', 10),
    (''BPF_MAP_TYPE_LPM_TRIE'', 11), (''BPF_MAP_TYPE_ARRAY_OF_MAPS'', 12),
    (''BPF_MAP_TYPE_HASH_OF_MAPS'', 13), (''BPF_MAP_TYPE_DEVMAP'', 14), (''BPF_MAP_TYPE_SOCKMAP'', 15),
    (''BPF_MAP_TYPE_CPUMAP'', 16), (''BPF_MAP_TYPE_XSKMAP'', 17), (''BPF_MAP_TYPE_SOCKHASH'', 18),
    (''BPF_MAP_TYPE_CGROUP_STORAGE_DEPRECATED'', 19), (''BPF_MAP_TYPE_CGROUP_STORAGE'', 19),
    (''BPF_MAP_TYPE_REUSEPORT_SOCKARRAY'', 20), (''BPF_MAP_TYPE_PERCPU_CGROUP_STORAGE'', 21),
    (''BPF_MAP_TYPE_QUEUE'', 22), (''BPF_MAP_TYPE_STACK'', 23), (''BPF_MAP_TYPE_SK_STORAGE'', 24),
    (''BPF_MAP_TYPE_DEVMAP_HASH'', 25), (''BPF_MAP_TYPE_STRUCT_OPS'', 26),
    (''BPF_MAP_TYPE_RINGBUF'', 27), (''BPF_MAP_TYPE_INODE_STORAGE'', 28),
    (''BPF_MAP_TYPE_TASK_STORAGE'', 29), (''BPF_MAP_TYPE_BLOOM_FILTER'', 30),
    (''BPF_MAP_TYPE_USER_RINGBUF'', 31), (''BPF_MAP_TYPE_CGRP_STORAGE'', 32)]"

definition enum_bpf_prog_type :: "(string \<times> int) list" where
  "enum_bpf_prog_type = [
    (''BPF_PROG_TYPE_UNSPEC'', 0), (''BPF_PROG_TYPE_SOCKET_FILTER'', 1), (''BPF_PROG_TYPE_KPROBE'', 2),
    (''BPF_PROG_TYPE_SCHED_CLS'', 3), (''BPF_PROG_TYPE_SCHED_ACT'', 4),
    (''BPF_PROG_TYPE_TRACEPOINT'', 5), (''BPF_PROG_TYPE_XDP'', 6), (''BPF_PROG_TYPE_PERF_EVENT'', 7),
    (''BPF_PROG_TYPE_CGROUP_SKB'', 8), (''BPF_PROG_TYPE_CGROUP_SOCK'', 9),
    (''BPF_PROG_TYPE_LWT_IN'', 10), (''BPF_PROG_TYPE_LWT_OUT'', 11), (''BPF_PROG_TYPE_LWT_XMIT'', 12),
    (''BPF_PROG_TYPE_SOCK_OPS'', 13), (''BPF_PROG_TYPE_SK_SKB'', 14),
    (''BPF_PROG_TYPE_CGROUP_DEVICE'', 15), (''BPF_PROG_TYPE_SK_MSG'', 16),
    (''BPF_PROG_TYPE_RAW_TRACEPOINT'', 17), (''BPF_PROG_TYPE_CGROUP_SOCK_ADDR'', 18),
    (''BPF_PROG_TYPE_LWT_SEG6LOCAL'', 19), (''BPF_PROG_TYPE_LIRC_MODE2'', 20),
    (''BPF_PROG_TYPE_SK_REUSEPORT'', 21), (''BPF_PROG_TYPE_FLOW_DISSECTOR'', 22),
    (''BPF_PROG_TYPE_CGROUP_SYSCTL'', 23), (''BPF_PROG_TYPE_RAW_TRACEPOINT_WRITABLE'', 24),
    (''BPF_PROG_TYPE_CGROUP_SOCKOPT'', 25), (''BPF_PROG_TYPE_TRACING'', 26),
    (''BPF_PROG_TYPE_STRUCT_OPS'', 27), (''BPF_PROG_TYPE_EXT'', 28), (''BPF_PROG_TYPE_LSM'', 29),
    (''BPF_PROG_TYPE_SK_LOOKUP'', 30), (''BPF_PROG_TYPE_SYSCALL'', 31),
    (''BPF_PROG_TYPE_NETFILTER'', 32)]"

definition enum_bpf_attach_type :: "(string \<times> int) list" where
  "enum_bpf_attach_type = [
    (''BPF_CGROUP_INET_INGRESS'', 0), (''BPF_CGROUP_INET_EGRESS'', 1),
    (''BPF_CGROUP_INET_SOCK_CREATE'', 2), (''BPF_CGROUP_SOCK_OPS'', 3),
    (''BPF_SK_SKB_STREAM_PARSER'', 4), (''BPF_SK_SKB_STREAM_VERDICT'', 5), (''BPF_CGROUP_DEVICE'', 6),
    (''BPF_SK_MSG_VERDICT'', 7), (''BPF_CGROUP_INET4_BIND'', 8), (''BPF_CGROUP_INET6_BIND'', 9),
    (''BPF_CGROUP_INET4_CONNECT'', 10), (''BPF_CGROUP_INET6_CONNECT'', 11),
    (''BPF_CGROUP_INET4_POST_BIND'', 12), (''BPF_CGROUP_INET6_POST_BIND'', 13),
    (''BPF_CGROUP_UDP4_SENDMSG'', 14), (''BPF_CGROUP_UDP6_SENDMSG'', 15), (''BPF_LIRC_MODE2'', 16),
    (''BPF_FLOW_DISSECTOR'', 17), (''BPF_CGROUP_SYSCTL'', 18), (''BPF_CGROUP_UDP4_RECVMSG'', 19),
    (''BPF_CGROUP_UDP6_RECVMSG'', 20), (''BPF_CGROUP_GETSOCKOPT'', 21), (''BPF_CGROUP_SETSOCKOPT'', 22),
    (''BPF_TRACE_RAW_TP'', 23), (''BPF_TRACE_FENTRY'', 24), (''BPF_TRACE_FEXIT'', 25),
    (''BPF_MODIFY_RETURN'', 26), (''BPF_LSM_MAC'', 27), (''BPF_TRACE_ITER'', 28),
    (''BPF_CGROUP_INET4_GETPEERNAME'', 29), (''BPF_CGROUP_INET6_GETPEERNAME'', 30),
    (''BPF_CGROUP_INET4_GETSOCKNAME'', 31), (''BPF_CGROUP_INET6_GETSOCKNAME'', 32),
    (''BPF_XDP_DEVMAP'', 33), (''BPF_CGROUP_INET_SOCK_RELEASE'', 34), (''BPF_XDP_CPUMAP'', 35),
    (''BPF_SK_LOOKUP'', 36), (''BPF_XDP'', 37), (''BPF_SK_SKB_VERDICT'', 38),
    (''BPF_SK_REUSEPORT_SELECT'', 39), (''BPF_SK_REUSEPORT_SELECT_OR_MIGRATE'', 40),
    (''BPF_PERF_EVENT'', 41), (''BPF_TRACE_KPROBE_MULTI'', 42), (''BPF_LSM_CGROUP'', 43),
    (''BPF_STRUCT_OPS'', 44), (''BPF_NETFILTER'', 45), (''BPF_TCX_INGRESS'', 46),
    (''BPF_TCX_EGRESS'', 47), (''BPF_TRACE_UPROBE_MULTI'', 48), (''__MAX_BPF_ATTACH_TYPE'', 49)]"

definition enum_bpf_func_id_1 :: "(string \<times> int) list" where
  "enum_bpf_func_id_1 = [
    (''BPF_FUNC_unspec'', 0), (''BPF_FUNC_map_lookup_elem'', 1), (''BPF_FUNC_map_update_elem'', 2),
    (''BPF_FUNC_map_delete_elem'', 3), (''BPF_FUNC_probe_read'', 4), (''BPF_FUNC_ktime_get_ns'', 5),
    (''BPF_FUNC_trace_printk'', 6), (''BPF_FUNC_get_prandom_u32'', 7),
    (''BPF_FUNC_get_smp_processor_id'', 8), (''BPF_FUNC_skb_store_bytes'', 9),
    (''BPF_FUNC_l3_csum_replace'', 10), (''BPF_FUNC_l4_csum_replace'', 11),
    (''BPF_FUNC_tail_call'', 12), (''BPF_FUNC_clone_redirect'', 13),
    (''BPF_FUNC_get_current_pid_tgid'', 14), (''BPF_FUNC_get_current_uid_gid'', 15),
    (''BPF_FUNC_get_current_comm'', 16), (''BPF_FUNC_get_cgroup_classid'', 17),
    (''BPF_FUNC_skb_vlan_push'', 18), (''BPF_FUNC_skb_vlan_pop'', 19),
    (''BPF_FUNC_skb_get_tunnel_key'', 20), (''BPF_FUNC_skb_set_tunnel_key'', 21),
    (''BPF_FUNC_perf_event_read'', 22), (''BPF_FUNC_redirect'', 23), (''BPF_FUNC_get_route_realm'', 24),
    (''BPF_FUNC_perf_event_output'', 25), (''BPF_FUNC_skb_load_bytes'', 26),
    (''BPF_FUNC_get_stackid'', 27), (''BPF_FUNC_csum_diff'', 28), (''BPF_FUNC_skb_get_tunnel_opt'', 29),
    (''BPF_FUNC_skb_set_tunnel_opt'', 30), (''BPF_FUNC_skb_change_proto'', 31),
    (''BPF_FUNC_skb_change_type'', 32), (''BPF_FUNC_skb_under_cgroup'', 33),
    (''BPF_FUNC_get_hash_recalc'', 34), (''BPF_FUNC_get_current_task'', 35),
    (''BPF_FUNC_probe_write_user'', 36), (''BPF_FUNC_current_task_under_cgroup'', 37),
    (''BPF_FUNC_skb_change_tail'', 38), (''BPF_FUNC_skb_pull_data'', 39),
    (''BPF_FUNC_csum_update'', 40), (''BPF_FUNC_set_hash_invalid'', 41),
    (''BPF_FUNC_get_numa_node_id'', 42), (''BPF_FUNC_skb_change_head'', 43),
    (''BPF_FUNC_xdp_adjust_head'', 44), (''BPF_FUNC_probe_read_str'', 45),
    (''BPF_FUNC_get_socket_cookie'', 46), (''BPF_FUNC_get_socket_uid'', 47),
    (''BPF_FUNC_set_hash'', 48), (''BPF_FUNC_setsockopt'', 49), (''BPF_FUNC_skb_adjust_room'', 50),
    (''BPF_FUNC_redirect_map'', 51), (''BPF_FUNC_sk_redirect_map'', 52),
    (''BPF_FUNC_sock_map_update'', 53), (''BPF_FUNC_xdp_adjust_meta'', 54),
    (''BPF_FUNC_perf_event_read_value'', 55), (''BPF_FUNC_perf_prog_read_value'', 56),
    (''BPF_FUNC_getsockopt'', 57), (''BPF_FUNC_override_return'', 58),
    (''BPF_FUNC_sock_ops_cb_flags_set'', 59), (''BPF_FUNC_msg_redirect_map'', 60),
    (''BPF_FUNC_msg_apply_bytes'', 61), (''BPF_FUNC_msg_cork_bytes'', 62),
    (''BPF_FUNC_msg_pull_data'', 63), (''BPF_FUNC_bind'', 64), (''BPF_FUNC_xdp_adjust_tail'', 65),
    (''BPF_FUNC_skb_get_xfrm_state'', 66), (''BPF_FUNC_get_stack'', 67),
    (''BPF_FUNC_skb_load_bytes_relative'', 68), (''BPF_FUNC_fib_lookup'', 69),
    (''BPF_FUNC_sock_hash_update'', 70), (''BPF_FUNC_msg_redirect_hash'', 71),
    (''BPF_FUNC_sk_redirect_hash'', 72), (''BPF_FUNC_lwt_push_encap'', 73),
    (''BPF_FUNC_lwt_seg6_store_bytes'', 74), (''BPF_FUNC_lwt_seg6_adjust_srh'', 75),
    (''BPF_FUNC_lwt_seg6_action'', 76), (''BPF_FUNC_rc_repeat'', 77), (''BPF_FUNC_rc_keydown'', 78),
    (''BPF_FUNC_skb_cgroup_id'', 79), (''BPF_FUNC_get_current_cgroup_id'', 80),
    (''BPF_FUNC_get_local_storage'', 81), (''BPF_FUNC_sk_select_reuseport'', 82),
    (''BPF_FUNC_skb_ancestor_cgroup_id'', 83), (''BPF_FUNC_sk_lookup_tcp'', 84),
    (''BPF_FUNC_sk_lookup_udp'', 85), (''BPF_FUNC_sk_release'', 86), (''BPF_FUNC_map_push_elem'', 87),
    (''BPF_FUNC_map_pop_elem'', 88), (''BPF_FUNC_map_peek_elem'', 89), (''BPF_FUNC_msg_push_data'', 90),
    (''BPF_FUNC_msg_pop_data'', 91), (''BPF_FUNC_rc_pointer_rel'', 92), (''BPF_FUNC_spin_lock'', 93),
    (''BPF_FUNC_spin_unlock'', 94), (''BPF_FUNC_sk_fullsock'', 95), (''BPF_FUNC_tcp_sock'', 96),
    (''BPF_FUNC_skb_ecn_set_ce'', 97), (''BPF_FUNC_get_listener_sock'', 98),
    (''BPF_FUNC_skc_lookup_tcp'', 99), (''BPF_FUNC_tcp_check_syncookie'', 100),
    (''BPF_FUNC_sysctl_get_name'', 101), (''BPF_FUNC_sysctl_get_current_value'', 102),
    (''BPF_FUNC_sysctl_get_new_value'', 103), (''BPF_FUNC_sysctl_set_new_value'', 104),
    (''BPF_FUNC_strtol'', 105)]"

definition enum_bpf_func_id_2 :: "(string \<times> int) list" where
  "enum_bpf_func_id_2 = [
    (''BPF_FUNC_strtoul'', 106), (''BPF_FUNC_sk_storage_get'', 107),
    (''BPF_FUNC_sk_storage_delete'', 108), (''BPF_FUNC_send_signal'', 109),
    (''BPF_FUNC_tcp_gen_syncookie'', 110), (''BPF_FUNC_skb_output'', 111),
    (''BPF_FUNC_probe_read_user'', 112), (''BPF_FUNC_probe_read_kernel'', 113),
    (''BPF_FUNC_probe_read_user_str'', 114), (''BPF_FUNC_probe_read_kernel_str'', 115),
    (''BPF_FUNC_tcp_send_ack'', 116), (''BPF_FUNC_send_signal_thread'', 117),
    (''BPF_FUNC_jiffies64'', 118), (''BPF_FUNC_read_branch_records'', 119),
    (''BPF_FUNC_get_ns_current_pid_tgid'', 120), (''BPF_FUNC_xdp_output'', 121),
    (''BPF_FUNC_get_netns_cookie'', 122), (''BPF_FUNC_get_current_ancestor_cgroup_id'', 123),
    (''BPF_FUNC_sk_assign'', 124), (''BPF_FUNC_ktime_get_boot_ns'', 125),
    (''BPF_FUNC_seq_printf'', 126), (''BPF_FUNC_seq_write'', 127), (''BPF_FUNC_sk_cgroup_id'', 128),
    (''BPF_FUNC_sk_ancestor_cgroup_id'', 129), (''BPF_FUNC_ringbuf_output'', 130),
    (''BPF_FUNC_ringbuf_reserve'', 131), (''BPF_FUNC_ringbuf_submit'', 132),
    (''BPF_FUNC_ringbuf_discard'', 133), (''BPF_FUNC_ringbuf_query'', 134),
    (''BPF_FUNC_csum_level'', 135), (''BPF_FUNC_skc_to_tcp6_sock'', 136),
    (''BPF_FUNC_skc_to_tcp_sock'', 137), (''BPF_FUNC_skc_to_tcp_timewait_sock'', 138),
    (''BPF_FUNC_skc_to_tcp_request_sock'', 139), (''BPF_FUNC_skc_to_udp6_sock'', 140),
    (''BPF_FUNC_get_task_stack'', 141), (''BPF_FUNC_load_hdr_opt'', 142),
    (''BPF_FUNC_store_hdr_opt'', 143), (''BPF_FUNC_reserve_hdr_opt'', 144),
    (''BPF_FUNC_inode_storage_get'', 145), (''BPF_FUNC_inode_storage_delete'', 146),
    (''BPF_FUNC_d_path'', 147), (''BPF_FUNC_copy_from_user'', 148), (''BPF_FUNC_snprintf_btf'', 149),
    (''BPF_FUNC_seq_printf_btf'', 150), (''BPF_FUNC_skb_cgroup_classid'', 151),
    (''BPF_FUNC_redirect_neigh'', 152), (''BPF_FUNC_per_cpu_ptr'', 153),
    (''BPF_FUNC_this_cpu_ptr'', 154), (''BPF_FUNC_redirect_peer'', 155),
    (''BPF_FUNC_task_storage_get'', 156), (''BPF_FUNC_task_storage_delete'', 157),
    (''BPF_FUNC_get_current_task_btf'', 158), (''BPF_FUNC_bprm_opts_set'', 159),
    (''BPF_FUNC_ktime_get_coarse_ns'', 160), (''BPF_FUNC_ima_inode_hash'', 161),
    (''BPF_FUNC_sock_from_file'', 162), (''BPF_FUNC_check_mtu'', 163),
    (''BPF_FUNC_for_each_map_elem'', 164), (''BPF_FUNC_snprintf'', 165), (''BPF_FUNC_sys_bpf'', 166),
    (''BPF_FUNC_btf_find_by_name_kind'', 167), (''BPF_FUNC_sys_close'', 168),
    (''BPF_FUNC_timer_init'', 169), (''BPF_FUNC_timer_set_callback'', 170),
    (''BPF_FUNC_timer_start'', 171), (''BPF_FUNC_timer_cancel'', 172), (''BPF_FUNC_get_func_ip'', 173),
    (''BPF_FUNC_get_attach_cookie'', 174), (''BPF_FUNC_task_pt_regs'', 175),
    (''BPF_FUNC_get_branch_snapshot'', 176), (''BPF_FUNC_trace_vprintk'', 177),
    (''BPF_FUNC_skc_to_unix_sock'', 178), (''BPF_FUNC_kallsyms_lookup_name'', 179),
    (''BPF_FUNC_find_vma'', 180), (''BPF_FUNC_loop'', 181), (''BPF_FUNC_strncmp'', 182),
    (''BPF_FUNC_get_func_arg'', 183), (''BPF_FUNC_get_func_ret'', 184),
    (''BPF_FUNC_get_func_arg_cnt'', 185), (''BPF_FUNC_get_retval'', 186),
    (''BPF_FUNC_set_retval'', 187), (''BPF_FUNC_xdp_get_buff_len'', 188),
    (''BPF_FUNC_xdp_load_bytes'', 189), (''BPF_FUNC_xdp_store_bytes'', 190),
    (''BPF_FUNC_copy_from_user_task'', 191), (''BPF_FUNC_skb_set_tstamp'', 192),
    (''BPF_FUNC_ima_file_hash'', 193), (''BPF_FUNC_kptr_xchg'', 194),
    (''BPF_FUNC_map_lookup_percpu_elem'', 195), (''BPF_FUNC_skc_to_mptcp_sock'', 196),
    (''BPF_FUNC_dynptr_from_mem'', 197), (''BPF_FUNC_ringbuf_reserve_dynptr'', 198),
    (''BPF_FUNC_ringbuf_submit_dynptr'', 199), (''BPF_FUNC_ringbuf_discard_dynptr'', 200),
    (''BPF_FUNC_dynptr_read'', 201), (''BPF_FUNC_dynptr_write'', 202), (''BPF_FUNC_dynptr_data'', 203),
    (''BPF_FUNC_tcp_raw_gen_syncookie_ipv4'', 204), (''BPF_FUNC_tcp_raw_gen_syncookie_ipv6'', 205),
    (''BPF_FUNC_tcp_raw_check_syncookie_ipv4'', 206), (''BPF_FUNC_tcp_raw_check_syncookie_ipv6'', 207),
    (''BPF_FUNC_ktime_get_tai_ns'', 208), (''BPF_FUNC_user_ringbuf_drain'', 209),
    (''BPF_FUNC_cgrp_storage_get'', 210), (''BPF_FUNC_cgrp_storage_delete'', 211),
    (''__BPF_FUNC_MAX_ID'', 212)]"

definition enum_bpf_func_id :: "(string \<times> int) list" where
  "enum_bpf_func_id = enum_bpf_func_id_1 @ enum_bpf_func_id_2"

definition struct_bpf_map_ops :: ctype where
  "struct_bpf_map_ops = Struct [
    Member ''map_alloc_check'' (Ptr ''()''), Member ''map_alloc'' (Ptr ''()''),
    Member ''map_release'' (Ptr ''()''), Member ''map_free'' (Ptr ''()''),
    Member ''map_get_next_key'' (Ptr ''()''), Member ''map_release_uref'' (Ptr ''()''),
    Member ''map_lookup_elem_sys_only'' (Ptr ''()''), Member ''map_lookup_batch'' (Ptr ''()''),
    Member ''map_lookup_and_delete_elem'' (Ptr ''()''),
    Member ''map_lookup_and_delete_batch'' (Ptr ''()''), Member ''map_update_batch'' (Ptr ''()''),
    Member ''map_delete_batch'' (Ptr ''()''), Member ''map_lookup_elem'' (Ptr ''()''),
    Member ''map_update_elem'' (Ptr ''()''), Member ''map_delete_elem'' (Ptr ''()''),
    Member ''map_push_elem'' (Ptr ''()''), Member ''map_pop_elem'' (Ptr ''()''),
    Member ''map_peek_elem'' (Ptr ''()''), Member ''map_lookup_percpu_elem'' (Ptr ''()''),
    Member ''map_fd_get_ptr'' (Ptr ''()''), Member ''map_fd_put_ptr'' (Ptr ''()''),
    Member ''map_gen_lookup'' (Ptr ''()''), Member ''map_fd_sys_lookup_elem'' (Ptr ''()''),
    Member ''map_seq_show_elem'' (Ptr ''()''), Member ''map_check_btf'' (Ptr ''()''),
    Member ''map_poke_track'' (Ptr ''()''), Member ''map_poke_untrack'' (Ptr ''()''),
    Member ''map_poke_run'' (Ptr ''()''), Member ''map_direct_value_addr'' (Ptr ''()''),
    Member ''map_direct_value_meta'' (Ptr ''()''), Member ''map_mmap'' (Ptr ''()''),
    Member ''map_poll'' (Ptr ''()''), Member ''map_local_storage_charge'' (Ptr ''()''),
    Member ''map_local_storage_uncharge'' (Ptr ''()''), Member ''map_owner_storage_ptr'' (Ptr ''()''),
    Member ''map_redirect'' (Ptr ''()''), Member ''map_meta_equal'' (Ptr ''()''),
    Member ''map_set_for_each_callback_args'' (Ptr ''()''),
    Member ''map_for_each_callback'' (Ptr ''()''), Member ''map_mem_usage'' (Ptr ''()''),
    Member ''map_btf_id'' (Ptr ''int''), Member ''iter_seq_info'' (Ptr ''struct bpf_iter_seq_info'')]"

lemma struct_bpf_map_ops_layout [kernel_layout]:
  "sizeof struct_bpf_map_ops = 336" "alignof struct_bpf_map_ops = 8"
  by (simp_all add: struct_bpf_map_ops_def kernel_eval kernel_layout)

definition struct_bpf_map :: ctype where
  "struct_bpf_map = Struct [
    Member ''ops'' (Ptr ''struct bpf_map_ops''), Member ''inner_map_meta'' (Ptr ''struct bpf_map''),
    Member ''security'' (Ptr ''void''), Member ''map_type'' c_enum, Member ''key_size'' typedef_u32,
    Member ''value_size'' typedef_u32, Member ''max_entries'' typedef_u32,
    Member ''map_extra'' typedef_u64, Member ''map_flags'' typedef_u32, Member ''id'' typedef_u32,
    Member ''record'' (Ptr ''struct btf_record''), Member ''numa_node'' (Scalar 4),
    Member ''btf_key_type_id'' typedef_u32, Member ''btf_value_type_id'' typedef_u32,
    Member ''btf_vmlinux_value_type_id'' typedef_u32, Member ''btf'' (Ptr ''struct btf''),
    Member ''objcg'' (Ptr ''struct obj_cgroup''), Member ''name'' (Arr (Scalar 1) 16), Bits '''' 8 64,
    Bits '''' 8 64, Member ''refcnt'' typedef_atomic64_t, Member ''usercnt'' typedef_atomic64_t,
    Member '''' (Union [Member ''work'' struct_work_struct, Member ''rcu'' struct_callback_head]),
    Member ''freeze_mutex'' struct_mutex, Member ''writecnt'' typedef_atomic64_t,
    Member ''owner'' (Struct [Member ''attach_func_proto'' (Ptr ''struct btf_type''),
      Member ''lock'' typedef_spinlock_t, Member ''type'' c_enum, Member ''jited'' typedef_bool,
      Member ''xdp_has_frags'' typedef_bool]),
    Member ''bypass_spec_v1'' typedef_bool, Member ''frozen'' typedef_bool,
    Member ''free_after_mult_rcu_gp'' typedef_bool, Member ''free_after_rcu_gp'' typedef_bool,
    Member ''sleepable_refcnt'' typedef_atomic64_t, Member ''elem_count'' (Ptr ''s64''), Bits '''' 8 64,
    Bits '''' 8 64, Bits '''' 8 64, Bits '''' 8 64, Bits '''' 8 64, Bits '''' 8 64, Bits '''' 8 64]"

lemma struct_bpf_map_layout [kernel_layout]:
  "sizeof struct_bpf_map = 320" "alignof struct_bpf_map = 8"
  by (simp_all add: struct_bpf_map_def kernel_eval kernel_layout)

definition struct_bpf_mem_alloc :: ctype where
  "struct_bpf_mem_alloc = Struct [
    Member ''caches'' (Ptr ''struct bpf_mem_caches''), Member ''cache'' (Ptr ''struct bpf_mem_cache''),
    Member ''percpu'' typedef_bool, Member ''work'' struct_work_struct]"

lemma struct_bpf_mem_alloc_layout [kernel_layout]:
  "sizeof struct_bpf_mem_alloc = 56" "alignof struct_bpf_mem_alloc = 8"
  by (simp_all add: struct_bpf_mem_alloc_def kernel_eval kernel_layout)

definition struct_pcpu_freelist_head :: ctype where
  "struct_pcpu_freelist_head = Struct [
    Member ''first'' (Ptr ''struct pcpu_freelist_node''), Member ''lock'' typedef_raw_spinlock_t]"

lemma struct_pcpu_freelist_head_layout [kernel_layout]:
  "sizeof struct_pcpu_freelist_head = 16" "alignof struct_pcpu_freelist_head = 8"
  by (simp_all add: struct_pcpu_freelist_head_def kernel_eval kernel_layout)

definition struct_pcpu_freelist :: ctype where
  "struct_pcpu_freelist = Struct [
    Member ''freelist'' (Ptr ''struct pcpu_freelist_head''),
    Member ''extralist'' struct_pcpu_freelist_head]"

lemma struct_pcpu_freelist_layout [kernel_layout]:
  "sizeof struct_pcpu_freelist = 24" "alignof struct_pcpu_freelist = 8"
  by (simp_all add: struct_pcpu_freelist_def kernel_eval kernel_layout)

definition struct_bpf_lru_list :: ctype where
  "struct_bpf_lru_list = Struct [
    Member ''lists'' (Arr (struct_list_head) 3), Member ''counts'' (Arr (Scalar 4) 2),
    Member ''next_inactive_rotation'' (Ptr ''struct list_head''),
    Member ''lock'' typedef_raw_spinlock_t, Bits '''' 8 64, Bits '''' 8 64, Bits '''' 8 64,
    Bits '''' 8 64, Bits '''' 8 64, Bits '''' 8 64, Bits '''' 8 64]"

lemma struct_bpf_lru_list_layout [kernel_layout]:
  "sizeof struct_bpf_lru_list = 128" "alignof struct_bpf_lru_list = 8"
  by (simp_all add: struct_bpf_lru_list_def kernel_eval kernel_layout)

definition struct_bpf_common_lru :: ctype where
  "struct_bpf_common_lru = Struct [
    Member ''lru_list'' struct_bpf_lru_list, Member ''local_list'' (Ptr ''struct bpf_lru_locallist''),
    Bits '''' 8 64, Bits '''' 8 64, Bits '''' 8 64, Bits '''' 8 64, Bits '''' 8 64, Bits '''' 8 64,
    Bits '''' 8 64]"

lemma struct_bpf_common_lru_layout [kernel_layout]:
  "sizeof struct_bpf_common_lru = 192" "alignof struct_bpf_common_lru = 8"
  by (simp_all add: struct_bpf_common_lru_def kernel_eval kernel_layout)

definition typedef_del_from_htab_func :: ctype where
  "typedef_del_from_htab_func = Ptr ''()''"

lemma typedef_del_from_htab_func_layout [kernel_layout]:
  "sizeof typedef_del_from_htab_func = 8" "alignof typedef_del_from_htab_func = 8"
  by (simp_all add: typedef_del_from_htab_func_def kernel_eval kernel_layout)

definition struct_bpf_lru :: ctype where
  "struct_bpf_lru = Struct [
    Member '''' (Union [Member ''common_lru'' struct_bpf_common_lru,
      Member ''percpu_lru'' (Ptr ''struct bpf_lru_list'')]),
    Member ''del_from_htab'' typedef_del_from_htab_func, Member ''del_arg'' (Ptr ''void''),
    Member ''hash_offset'' (Scalar 4), Member ''nr_scans'' (Scalar 4), Member ''percpu'' typedef_bool,
    Bits '''' 8 64, Bits '''' 8 64, Bits '''' 8 64, Bits '''' 8 64]"

lemma struct_bpf_lru_layout [kernel_layout]:
  "sizeof struct_bpf_lru = 256" "alignof struct_bpf_lru = 8"
  by (simp_all add: struct_bpf_lru_def kernel_eval kernel_layout)

definition struct_lock_class_key :: ctype where
  "struct_lock_class_key = Struct []"

lemma struct_lock_class_key_layout [kernel_layout]:
  "sizeof struct_lock_class_key = 0" "alignof struct_lock_class_key = 1"
  by (simp_all add: struct_lock_class_key_def kernel_eval kernel_layout)

definition struct_bpf_htab :: ctype where
  "struct_bpf_htab = Struct [
    Member ''map'' struct_bpf_map, Member ''ma'' struct_bpf_mem_alloc,
    Member ''pcpu_ma'' struct_bpf_mem_alloc, Member ''buckets'' (Ptr ''struct bucket''),
    Member ''elems'' (Ptr ''void''),
    Member '''' (Union [Member ''freelist'' struct_pcpu_freelist, Member ''lru'' struct_bpf_lru]),
    Member ''extra_elems'' (Ptr ''struct htab_elem *''), Member ''pcount'' struct_percpu_counter,
    Member ''count'' typedef_atomic_t, Member ''use_percpu_counter'' typedef_bool,
    Member ''n_buckets'' typedef_u32, Member ''elem_size'' typedef_u32, Member ''hashrnd'' typedef_u32,
    Member ''lockdep_key'' struct_lock_class_key, Member ''map_locked'' (Arr (Ptr ''int'') 8),
    Bits '''' 8 64, Bits '''' 8 64, Bits '''' 8 64, Bits '''' 8 64, Bits '''' 8 64, Bits '''' 8 64,
    Bits '''' 8 64]"

lemma struct_bpf_htab_layout [kernel_layout]:
  "sizeof struct_bpf_htab = 896" "alignof struct_bpf_htab = 8"
  by (simp_all add: struct_bpf_htab_def kernel_eval kernel_layout)

definition struct_irq_work :: ctype where
  "struct_irq_work = Struct [
    Member ''node'' struct___call_single_node, Member ''func'' (Ptr ''()''),
    Member ''irqwait'' struct_rcuwait]"

lemma struct_irq_work_layout [kernel_layout]:
  "sizeof struct_irq_work = 32" "alignof struct_irq_work = 8"
  by (simp_all add: struct_irq_work_def kernel_eval kernel_layout)

definition struct_bpf_ringbuf :: ctype where
  "struct_bpf_ringbuf = Struct (
    [Member ''waitq'' typedef_wait_queue_head_t, Member ''work'' struct_irq_work,
      Member ''mask'' typedef_u64, Member ''pages'' (Ptr ''struct page *''),
      Member ''nr_pages'' (Scalar 4), Bits '''' 8 64, Bits '''' 8 64, Bits '''' 8 64, Bits '''' 8 64,
      Bits '''' 8 64, Bits '''' 8 64, Member ''spinlock'' typedef_raw_spinlock_t, Bits '''' 8 64,
      Bits '''' 8 64, Bits '''' 8 64, Bits '''' 8 64, Bits '''' 8 64, Bits '''' 8 64, Bits '''' 8 64,
      Member ''busy'' typedef_atomic_t] @
    replicate 487 (Bits '''' 8 64) @
    [Member ''consumer_pos'' (Scalar 8)] @
    replicate 511 (Bits '''' 8 64) @
    [Member ''producer_pos'' (Scalar 8), Member ''pending_pos'' (Scalar 8)] @
    replicate 510 (Bits '''' 8 64) @
    [Member ''data'' (Arr (Scalar 1) 0)])"

lemma struct_bpf_ringbuf_layout [kernel_layout]:
  "sizeof struct_bpf_ringbuf = 12288" "alignof struct_bpf_ringbuf = 8"
  by (simp_all add: struct_bpf_ringbuf_def kernel_eval kernel_layout fold_padding del: fold_replicate)

definition struct_bpf_ringbuf_map :: ctype where
  "struct_bpf_ringbuf_map = Struct [
    Member ''map'' struct_bpf_map, Member ''rb'' (Ptr ''struct bpf_ringbuf''), Bits '''' 8 64,
    Bits '''' 8 64, Bits '''' 8 64, Bits '''' 8 64, Bits '''' 8 64, Bits '''' 8 64, Bits '''' 8 64]"

lemma struct_bpf_ringbuf_map_layout [kernel_layout]:
  "sizeof struct_bpf_ringbuf_map = 384" "alignof struct_bpf_ringbuf_map = 8"
  by (simp_all add: struct_bpf_ringbuf_map_def kernel_eval kernel_layout)

end
