(* ===== verification/Kernel_Attach.thy ===== *)
theory Kernel_Attach
  imports Kernel_Bpf
begin

text \<open>
  The kernel's side of loading and attaching in \<open>vmlinux.h\<close>: the argument of the \<open>bpf\<close> system call, programs
  and links, the uprobes with their pending returns, tracepoints, and the perf events both kinds of probe hang on.
\<close>

definition struct_sock_filter :: ctype where
  "struct_sock_filter = Struct [
    Member ''code'' typedef___u16, Member ''jt'' typedef___u8, Member ''jf'' typedef___u8,
    Member ''k'' typedef___u32]"

lemma struct_sock_filter_layout [kernel_layout]:
  "sizeof struct_sock_filter = 8" "alignof struct_sock_filter = 4"
  by (simp_all add: struct_sock_filter_def kernel_eval kernel_layout)

definition struct_bpf_insn :: ctype where
  "struct_bpf_insn = Struct [
    Member ''code'' typedef___u8, Bits ''dst_reg'' 1 4, Bits ''src_reg'' 1 4,
    Member ''off'' typedef___s16, Member ''imm'' typedef___s32]"

lemma struct_bpf_insn_layout [kernel_layout]:
  "sizeof struct_bpf_insn = 8" "alignof struct_bpf_insn = 4"
  by (simp_all add: struct_bpf_insn_def kernel_eval kernel_layout)

definition struct_bpf_prog :: ctype where
  "struct_bpf_prog = Struct [
    Member ''pages'' typedef_u16, Bits ''jited'' 2 1, Bits ''jit_requested'' 2 1,
    Bits ''gpl_compatible'' 2 1, Bits ''cb_access'' 2 1, Bits ''dst_needed'' 2 1,
    Bits ''blinding_requested'' 2 1, Bits ''blinded'' 2 1, Bits ''is_func'' 2 1,
    Bits ''kprobe_override'' 2 1, Bits ''has_callchain_buf'' 2 1,
    Bits ''enforce_expected_attach_type'' 2 1, Bits ''call_get_stack'' 2 1,
    Bits ''call_get_func_ip'' 2 1, Bits ''tstamp_type_access'' 2 1, Member ''type'' c_enum,
    Member ''expected_attach_type'' c_enum, Member ''len'' typedef_u32,
    Member ''jited_len'' typedef_u32, Member ''tag'' (Arr (typedef_u8) 8),
    Member ''stats'' (Ptr ''struct bpf_prog_stats''), Member ''active'' (Ptr ''int''),
    Member ''bpf_func'' (Ptr ''()''), Member ''aux'' (Ptr ''struct bpf_prog_aux''),
    Member ''orig_prog'' (Ptr ''struct sock_fprog_kern''),
    Member '''' (Union [Member '''' (Struct [Member ''__empty_insns'' (Struct []),
      Member ''insns'' (Arr (struct_sock_filter) 0)]),
      Member '''' (Struct [Member ''__empty_insnsi'' (Struct []),
      Member ''insnsi'' (Arr (struct_bpf_insn) 0)])])]"

lemma struct_bpf_prog_layout [kernel_layout]:
  "sizeof struct_bpf_prog = 72" "alignof struct_bpf_prog = 8"
  by (simp_all add: struct_bpf_prog_def kernel_eval kernel_layout)

definition struct_latch_tree_node :: ctype where
  "struct_latch_tree_node = Struct [
    Member ''node'' (Arr (struct_rb_node) 2)]"

lemma struct_latch_tree_node_layout [kernel_layout]:
  "sizeof struct_latch_tree_node = 48" "alignof struct_latch_tree_node = 8"
  by (simp_all add: struct_latch_tree_node_def kernel_eval kernel_layout)

definition struct_bpf_ksym :: ctype where
  "struct_bpf_ksym = Struct [
    Member ''start'' (Scalar 8), Member ''end'' (Scalar 8), Member ''name'' (Arr (Scalar 1) 512),
    Member ''lnode'' struct_list_head, Member ''tnode'' struct_latch_tree_node,
    Member ''prog'' typedef_bool]"

lemma struct_bpf_ksym_layout [kernel_layout]:
  "sizeof struct_bpf_ksym = 600" "alignof struct_bpf_ksym = 8"
  by (simp_all add: struct_bpf_ksym_def kernel_eval kernel_layout)

definition struct_bpf_prog_aux :: ctype where
  "struct_bpf_prog_aux = Struct [
    Member ''refcnt'' typedef_atomic64_t, Member ''used_map_cnt'' typedef_u32,
    Member ''used_btf_cnt'' typedef_u32, Member ''max_ctx_offset'' typedef_u32,
    Member ''max_pkt_offset'' typedef_u32, Member ''max_tp_access'' typedef_u32,
    Member ''stack_depth'' typedef_u32, Member ''id'' typedef_u32, Member ''func_cnt'' typedef_u32,
    Member ''func_idx'' typedef_u32, Member ''attach_btf_id'' typedef_u32,
    Member ''ctx_arg_info_size'' typedef_u32, Member ''max_rdonly_access'' typedef_u32,
    Member ''max_rdwr_access'' typedef_u32, Member ''attach_btf'' (Ptr ''struct btf''),
    Member ''ctx_arg_info'' (Ptr ''struct bpf_ctx_arg_aux''), Member ''dst_mutex'' struct_mutex,
    Member ''dst_prog'' (Ptr ''struct bpf_prog''),
    Member ''dst_trampoline'' (Ptr ''struct bpf_trampoline''), Member ''saved_dst_prog_type'' c_enum,
    Member ''saved_dst_attach_type'' c_enum, Member ''verifier_zext'' typedef_bool,
    Member ''dev_bound'' typedef_bool, Member ''offload_requested'' typedef_bool,
    Member ''attach_btf_trace'' typedef_bool, Member ''func_proto_unreliable'' typedef_bool,
    Member ''sleepable'' typedef_bool, Member ''tail_call_reachable'' typedef_bool,
    Member ''xdp_has_frags'' typedef_bool, Member ''attach_func_proto'' (Ptr ''struct btf_type''),
    Member ''attach_func_name'' (Ptr ''char''), Member ''func'' (Ptr ''struct bpf_prog *''),
    Member ''jit_data'' (Ptr ''void''), Member ''poke_tab'' (Ptr ''struct bpf_jit_poke_descriptor''),
    Member ''kfunc_tab'' (Ptr ''struct bpf_kfunc_desc_tab''),
    Member ''kfunc_btf_tab'' (Ptr ''struct bpf_kfunc_btf_tab''), Member ''size_poke_tab'' typedef_u32,
    Member ''ksym'' struct_bpf_ksym, Member ''ops'' (Ptr ''struct bpf_prog_ops''),
    Member ''used_maps'' (Ptr ''struct bpf_map *''), Member ''used_maps_mutex'' struct_mutex,
    Member ''used_btfs'' (Ptr ''struct btf_mod_pair''), Member ''prog'' (Ptr ''struct bpf_prog''),
    Member ''user'' (Ptr ''struct user_struct''), Member ''load_time'' typedef_u64,
    Member ''verified_insns'' typedef_u32, Member ''cgroup_atype'' (Scalar 4),
    Member ''cgroup_storage'' (Arr (Ptr ''struct bpf_map'') 2), Member ''name'' (Arr (Scalar 1) 16),
    Member ''security'' (Ptr ''void''), Member ''offload'' (Ptr ''struct bpf_prog_offload''),
    Member ''btf'' (Ptr ''struct btf''), Member ''func_info'' (Ptr ''struct bpf_func_info''),
    Member ''func_info_aux'' (Ptr ''struct bpf_func_info_aux''),
    Member ''linfo'' (Ptr ''struct bpf_line_info''), Member ''jited_linfo'' (Ptr ''void *''),
    Member ''func_info_cnt'' typedef_u32, Member ''nr_linfo'' typedef_u32,
    Member ''linfo_idx'' typedef_u32, Member ''mod'' (Ptr ''struct module''),
    Member ''num_exentries'' typedef_u32, Member ''extable'' (Ptr ''struct exception_table_entry''),
    Member '''' (Union [Member ''work'' struct_work_struct, Member ''rcu'' struct_callback_head])]"

lemma struct_bpf_prog_aux_layout [kernel_layout]:
  "sizeof struct_bpf_prog_aux = 1056" "alignof struct_bpf_prog_aux = 8"
  by (simp_all add: struct_bpf_prog_aux_def kernel_eval kernel_layout)

definition enum_bpf_link_type :: "(string \<times> int) list" where
  "enum_bpf_link_type = [
    (''BPF_LINK_TYPE_UNSPEC'', 0), (''BPF_LINK_TYPE_RAW_TRACEPOINT'', 1),
    (''BPF_LINK_TYPE_TRACING'', 2), (''BPF_LINK_TYPE_CGROUP'', 3), (''BPF_LINK_TYPE_ITER'', 4),
    (''BPF_LINK_TYPE_NETNS'', 5), (''BPF_LINK_TYPE_XDP'', 6), (''BPF_LINK_TYPE_PERF_EVENT'', 7),
    (''BPF_LINK_TYPE_KPROBE_MULTI'', 8), (''BPF_LINK_TYPE_STRUCT_OPS'', 9),
    (''BPF_LINK_TYPE_NETFILTER'', 10), (''BPF_LINK_TYPE_TCX'', 11),
    (''BPF_LINK_TYPE_UPROBE_MULTI'', 12), (''MAX_BPF_LINK_TYPE'', 13)]"

definition struct_bpf_link :: ctype where
  "struct_bpf_link = Struct [
    Member ''refcnt'' typedef_atomic64_t, Member ''id'' typedef_u32, Member ''type'' c_enum,
    Member ''ops'' (Ptr ''struct bpf_link_ops''), Member ''prog'' (Ptr ''struct bpf_prog''),
    Member '''' (Union [Member ''rcu'' struct_callback_head, Member ''work'' struct_work_struct])]"

lemma struct_bpf_link_layout [kernel_layout]:
  "sizeof struct_bpf_link = 64" "alignof struct_bpf_link = 8"
  by (simp_all add: struct_bpf_link_def kernel_eval kernel_layout)

definition struct_bpf_link_ops :: ctype where
  "struct_bpf_link_ops = Struct [
    Member ''release'' (Ptr ''()''), Member ''dealloc'' (Ptr ''()''),
    Member ''dealloc_deferred'' (Ptr ''()''), Member ''detach'' (Ptr ''()''),
    Member ''update_prog'' (Ptr ''()''), Member ''show_fdinfo'' (Ptr ''()''),
    Member ''fill_link_info'' (Ptr ''()''), Member ''update_map'' (Ptr ''()'')]"

lemma struct_bpf_link_ops_layout [kernel_layout]:
  "sizeof struct_bpf_link_ops = 64" "alignof struct_bpf_link_ops = 8"
  by (simp_all add: struct_bpf_link_ops_def kernel_eval kernel_layout)

definition enum_bpf_return_type :: "(string \<times> int) list" where
  "enum_bpf_return_type = [
    (''RET_INTEGER'', 0), (''RET_VOID'', 1), (''RET_PTR_TO_MAP_VALUE'', 2), (''RET_PTR_TO_SOCKET'', 3),
    (''RET_PTR_TO_TCP_SOCK'', 4), (''RET_PTR_TO_SOCK_COMMON'', 5), (''RET_PTR_TO_MEM'', 6),
    (''RET_PTR_TO_MEM_OR_BTF_ID'', 7), (''RET_PTR_TO_BTF_ID'', 8), (''__BPF_RET_TYPE_MAX'', 9),
    (''RET_PTR_TO_MAP_VALUE_OR_NULL'', 258), (''RET_PTR_TO_SOCKET_OR_NULL'', 259),
    (''RET_PTR_TO_TCP_SOCK_OR_NULL'', 260), (''RET_PTR_TO_SOCK_COMMON_OR_NULL'', 261),
    (''RET_PTR_TO_RINGBUF_MEM_OR_NULL'', 1286), (''RET_PTR_TO_DYNPTR_MEM_OR_NULL'', 262),
    (''RET_PTR_TO_BTF_ID_OR_NULL'', 264), (''RET_PTR_TO_BTF_ID_TRUSTED'', 1048584),
    (''__BPF_RET_TYPE_LIMIT'', 134217727)]"

definition enum_bpf_arg_type :: "(string \<times> int) list" where
  "enum_bpf_arg_type = [
    (''ARG_DONTCARE'', 0), (''ARG_CONST_MAP_PTR'', 1), (''ARG_PTR_TO_MAP_KEY'', 2),
    (''ARG_PTR_TO_MAP_VALUE'', 3), (''ARG_PTR_TO_MEM'', 4), (''ARG_CONST_SIZE'', 5),
    (''ARG_CONST_SIZE_OR_ZERO'', 6), (''ARG_PTR_TO_CTX'', 7), (''ARG_ANYTHING'', 8),
    (''ARG_PTR_TO_SPIN_LOCK'', 9), (''ARG_PTR_TO_SOCK_COMMON'', 10), (''ARG_PTR_TO_SOCKET'', 11),
    (''ARG_PTR_TO_BTF_ID'', 12), (''ARG_PTR_TO_RINGBUF_MEM'', 13),
    (''ARG_CONST_ALLOC_SIZE_OR_ZERO'', 14), (''ARG_PTR_TO_BTF_ID_SOCK_COMMON'', 15),
    (''ARG_PTR_TO_PERCPU_BTF_ID'', 16), (''ARG_PTR_TO_FUNC'', 17), (''ARG_PTR_TO_STACK'', 18),
    (''ARG_PTR_TO_CONST_STR'', 19), (''ARG_PTR_TO_TIMER'', 20), (''ARG_PTR_TO_KPTR'', 21),
    (''ARG_PTR_TO_DYNPTR'', 22), (''__BPF_ARG_TYPE_MAX'', 23), (''ARG_PTR_TO_MAP_VALUE_OR_NULL'', 259),
    (''ARG_PTR_TO_MEM_OR_NULL'', 260), (''ARG_PTR_TO_CTX_OR_NULL'', 263),
    (''ARG_PTR_TO_SOCKET_OR_NULL'', 267), (''ARG_PTR_TO_STACK_OR_NULL'', 274),
    (''ARG_PTR_TO_BTF_ID_OR_NULL'', 268), (''ARG_PTR_TO_UNINIT_MEM'', 67141636),
    (''ARG_PTR_TO_FIXED_SIZE_MEM'', 262148), (''__BPF_ARG_TYPE_LIMIT'', 134217727)]"

definition struct_bpf_func_proto :: ctype where
  "struct_bpf_func_proto = Struct [
    Member ''func'' (Ptr ''()''), Member ''gpl_only'' typedef_bool, Member ''pkt_access'' typedef_bool,
    Member ''might_sleep'' typedef_bool, Member ''ret_type'' c_enum,
    Member '''' (Union [Member '''' (Struct [Member ''arg1_type'' c_enum, Member ''arg2_type'' c_enum,
      Member ''arg3_type'' c_enum, Member ''arg4_type'' c_enum, Member ''arg5_type'' c_enum]),
      Member ''arg_type'' (Arr (c_enum) 5)]),
    Member '''' (Union [Member '''' (Struct [Member ''arg1_btf_id'' (Ptr ''u32''),
      Member ''arg2_btf_id'' (Ptr ''u32''), Member ''arg3_btf_id'' (Ptr ''u32''),
      Member ''arg4_btf_id'' (Ptr ''u32''), Member ''arg5_btf_id'' (Ptr ''u32'')]),
      Member ''arg_btf_id'' (Arr (Ptr ''u32'') 5),
      Member '''' (Struct [Member ''arg1_size'' typedef_size_t, Member ''arg2_size'' typedef_size_t,
      Member ''arg3_size'' typedef_size_t, Member ''arg4_size'' typedef_size_t,
      Member ''arg5_size'' typedef_size_t]), Member ''arg_size'' (Arr (typedef_size_t) 5)]),
    Member ''ret_btf_id'' (Ptr ''int''), Member ''allowed'' (Ptr ''()'')]"

lemma struct_bpf_func_proto_layout [kernel_layout]:
  "sizeof struct_bpf_func_proto = 96" "alignof struct_bpf_func_proto = 8"
  by (simp_all add: struct_bpf_func_proto_def kernel_eval kernel_layout)

definition struct_bpf_verifier_ops :: ctype where
  "struct_bpf_verifier_ops = Struct [
    Member ''get_func_proto'' (Ptr ''()''), Member ''is_valid_access'' (Ptr ''()''),
    Member ''gen_prologue'' (Ptr ''()''), Member ''gen_ld_abs'' (Ptr ''()''),
    Member ''convert_ctx_access'' (Ptr ''()''), Member ''btf_struct_access'' (Ptr ''()'')]"

lemma struct_bpf_verifier_ops_layout [kernel_layout]:
  "sizeof struct_bpf_verifier_ops = 48" "alignof struct_bpf_verifier_ops = 8"
  by (simp_all add: struct_bpf_verifier_ops_def kernel_eval kernel_layout)

definition union_bpf_attr_members_1 :: "member list" where
  "union_bpf_attr_members_1 = [
    Member '''' (Struct [Member ''map_type'' typedef___u32, Member ''key_size'' typedef___u32,
      Member ''value_size'' typedef___u32, Member ''max_entries'' typedef___u32,
      Member ''map_flags'' typedef___u32, Member ''inner_map_fd'' typedef___u32,
      Member ''numa_node'' typedef___u32, Member ''map_name'' (Arr (Scalar 1) 16),
      Member ''map_ifindex'' typedef___u32, Member ''btf_fd'' typedef___u32,
      Member ''btf_key_type_id'' typedef___u32, Member ''btf_value_type_id'' typedef___u32,
      Member ''btf_vmlinux_value_type_id'' typedef___u32, Member ''map_extra'' typedef___u64]),
    Member '''' (Struct [Member ''map_fd'' typedef___u32, Member ''key'' typedef___u64,
      Member '''' (Union [Member ''value'' typedef___u64, Member ''next_key'' typedef___u64]),
      Member ''flags'' typedef___u64]),
    Member ''batch'' (Struct [Member ''in_batch'' typedef___u64, Member ''out_batch'' typedef___u64,
      Member ''keys'' typedef___u64, Member ''values'' typedef___u64, Member ''count'' typedef___u32,
      Member ''map_fd'' typedef___u32, Member ''elem_flags'' typedef___u64, Member ''flags'' typedef___u64]),
    Member '''' (Struct [Member ''prog_type'' typedef___u32, Member ''insn_cnt'' typedef___u32,
      Member ''insns'' typedef___u64, Member ''license'' typedef___u64,
      Member ''log_level'' typedef___u32, Member ''log_size'' typedef___u32,
      Member ''log_buf'' typedef___u64, Member ''kern_version'' typedef___u32,
      Member ''prog_flags'' typedef___u32, Member ''prog_name'' (Arr (Scalar 1) 16),
      Member ''prog_ifindex'' typedef___u32, Member ''expected_attach_type'' typedef___u32,
      Member ''prog_btf_fd'' typedef___u32, Member ''func_info_rec_size'' typedef___u32,
      Member ''func_info'' typedef___u64, Member ''func_info_cnt'' typedef___u32,
      Member ''line_info_rec_size'' typedef___u32, Member ''line_info'' typedef___u64,
      Member ''line_info_cnt'' typedef___u32, Member ''attach_btf_id'' typedef___u32,
      Member '''' (Union [Member ''attach_prog_fd'' typedef___u32,
      Member ''attach_btf_obj_fd'' typedef___u32]), Member ''core_relo_cnt'' typedef___u32,
      Member ''fd_array'' typedef___u64, Member ''core_relos'' typedef___u64,
      Member ''core_relo_rec_size'' typedef___u32, Member ''log_true_size'' typedef___u32]),
    Member '''' (Struct [Member ''pathname'' typedef___u64, Member ''bpf_fd'' typedef___u32,
      Member ''file_flags'' typedef___u32, Member ''path_fd'' typedef___s32]),
    Member '''' (Struct [Member '''' (Union [Member ''target_fd'' typedef___u32,
      Member ''target_ifindex'' typedef___u32]), Member ''attach_bpf_fd'' typedef___u32,
      Member ''attach_type'' typedef___u32, Member ''attach_flags'' typedef___u32,
      Member ''replace_bpf_fd'' typedef___u32,
      Member '''' (Union [Member ''relative_fd'' typedef___u32, Member ''relative_id'' typedef___u32]),
      Member ''expected_revision'' typedef___u64]),
    Member ''test'' (Struct [Member ''prog_fd'' typedef___u32, Member ''retval'' typedef___u32,
      Member ''data_size_in'' typedef___u32, Member ''data_size_out'' typedef___u32,
      Member ''data_in'' typedef___u64, Member ''data_out'' typedef___u64,
      Member ''repeat'' typedef___u32, Member ''duration'' typedef___u32,
      Member ''ctx_size_in'' typedef___u32, Member ''ctx_size_out'' typedef___u32,
      Member ''ctx_in'' typedef___u64, Member ''ctx_out'' typedef___u64,
      Member ''flags'' typedef___u32, Member ''cpu'' typedef___u32, Member ''batch_size'' typedef___u32]),
    Member '''' (Struct [Member '''' (Union [Member ''start_id'' typedef___u32,
      Member ''prog_id'' typedef___u32, Member ''map_id'' typedef___u32,
      Member ''btf_id'' typedef___u32, Member ''link_id'' typedef___u32]),
      Member ''next_id'' typedef___u32, Member ''open_flags'' typedef___u32]),
    Member ''info'' (Struct [Member ''bpf_fd'' typedef___u32, Member ''info_len'' typedef___u32,
      Member ''info'' typedef___u64])]"

definition union_bpf_attr_members_2 :: "member list" where
  "union_bpf_attr_members_2 = [
    Member ''query'' (Struct [Member '''' (Union [Member ''target_fd'' typedef___u32,
      Member ''target_ifindex'' typedef___u32]), Member ''attach_type'' typedef___u32,
      Member ''query_flags'' typedef___u32, Member ''attach_flags'' typedef___u32,
      Member ''prog_ids'' typedef___u64, Member '''' (Union [Member ''prog_cnt'' typedef___u32,
      Member ''count'' typedef___u32]), Member ''prog_attach_flags'' typedef___u64,
      Member ''link_ids'' typedef___u64, Member ''link_attach_flags'' typedef___u64,
      Member ''revision'' typedef___u64]),
    Member ''raw_tracepoint'' (Struct [Member ''name'' typedef___u64, Member ''prog_fd'' typedef___u32]),
    Member '''' (Struct [Member ''btf'' typedef___u64, Member ''btf_log_buf'' typedef___u64,
      Member ''btf_size'' typedef___u32, Member ''btf_log_size'' typedef___u32,
      Member ''btf_log_level'' typedef___u32, Member ''btf_log_true_size'' typedef___u32]),
    Member ''task_fd_query'' (Struct [Member ''pid'' typedef___u32, Member ''fd'' typedef___u32,
      Member ''flags'' typedef___u32, Member ''buf_len'' typedef___u32, Member ''buf'' typedef___u64,
      Member ''prog_id'' typedef___u32, Member ''fd_type'' typedef___u32,
      Member ''probe_offset'' typedef___u64, Member ''probe_addr'' typedef___u64]),
    Member ''link_create'' (Struct [Member '''' (Union [Member ''prog_fd'' typedef___u32,
      Member ''map_fd'' typedef___u32]), Member '''' (Union [Member ''target_fd'' typedef___u32,
      Member ''target_ifindex'' typedef___u32]), Member ''attach_type'' typedef___u32,
      Member ''flags'' typedef___u32, Member '''' (Union [Member ''target_btf_id'' typedef___u32,
      Member '''' (Struct [Member ''iter_info'' typedef___u64,
      Member ''iter_info_len'' typedef___u32]),
      Member ''perf_event'' (Struct [Member ''bpf_cookie'' typedef___u64]),
      Member ''kprobe_multi'' (Struct [Member ''flags'' typedef___u32, Member ''cnt'' typedef___u32,
      Member ''syms'' typedef___u64, Member ''addrs'' typedef___u64,
      Member ''cookies'' typedef___u64]),
      Member ''tracing'' (Struct [Member ''target_btf_id'' typedef___u32,
      Member ''cookie'' typedef___u64]), Member ''netfilter'' (Struct [Member ''pf'' typedef___u32,
      Member ''hooknum'' typedef___u32, Member ''priority'' typedef___s32,
      Member ''flags'' typedef___u32]),
      Member ''tcx'' (Struct [Member '''' (Union [Member ''relative_fd'' typedef___u32,
      Member ''relative_id'' typedef___u32]), Member ''expected_revision'' typedef___u64]),
      Member ''uprobe_multi'' (Struct [Member ''path'' typedef___u64, Member ''offsets'' typedef___u64,
      Member ''ref_ctr_offsets'' typedef___u64, Member ''cookies'' typedef___u64,
      Member ''cnt'' typedef___u32, Member ''flags'' typedef___u32, Member ''pid'' typedef___u32])])]),
    Member ''link_update'' (Struct [Member ''link_fd'' typedef___u32,
      Member '''' (Union [Member ''new_prog_fd'' typedef___u32, Member ''new_map_fd'' typedef___u32]),
      Member ''flags'' typedef___u32, Member '''' (Union [Member ''old_prog_fd'' typedef___u32,
      Member ''old_map_fd'' typedef___u32])]),
    Member ''link_detach'' (Struct [Member ''link_fd'' typedef___u32]),
    Member ''enable_stats'' (Struct [Member ''type'' typedef___u32]),
    Member ''iter_create'' (Struct [Member ''link_fd'' typedef___u32, Member ''flags'' typedef___u32]),
    Member ''prog_bind_map'' (Struct [Member ''prog_fd'' typedef___u32,
      Member ''map_fd'' typedef___u32, Member ''flags'' typedef___u32])]"

definition union_bpf_attr :: ctype where
  "union_bpf_attr = Union (union_bpf_attr_members_1 @ union_bpf_attr_members_2)"

lemma union_bpf_attr_layout [kernel_layout]:
  "sizeof union_bpf_attr = 144" "alignof union_bpf_attr = 8"
  by (simp_all add: union_bpf_attr_def union_bpf_attr_members_1_def union_bpf_attr_members_2_def kernel_eval kernel_layout)

definition struct_arch_uprobe :: ctype where
  "struct_arch_uprobe = Struct [
    Member '''' (Union [Member ''insn'' (Arr (typedef_u8) 16), Member ''ixol'' (Arr (typedef_u8) 16)]),
    Member ''ops'' (Ptr ''struct uprobe_xol_ops''),
    Member '''' (Union [Member ''branch'' (Struct [Member ''offs'' typedef_s32,
      Member ''ilen'' typedef_u8, Member ''opc1'' typedef_u8]),
      Member ''defparam'' (Struct [Member ''fixups'' typedef_u8, Member ''ilen'' typedef_u8]),
      Member ''push'' (Struct [Member ''reg_offset'' typedef_u8, Member ''ilen'' typedef_u8])])]"

lemma struct_arch_uprobe_layout [kernel_layout]:
  "sizeof struct_arch_uprobe = 32" "alignof struct_arch_uprobe = 8"
  by (simp_all add: struct_arch_uprobe_def kernel_eval kernel_layout)

definition struct_uprobe :: ctype where
  "struct_uprobe = Struct [
    Member ''rb_node'' struct_rb_node, Member ''ref'' typedef_refcount_t,
    Member ''register_rwsem'' struct_rw_semaphore, Member ''consumer_rwsem'' struct_rw_semaphore,
    Member ''pending_list'' struct_list_head, Member ''consumers'' (Ptr ''struct uprobe_consumer''),
    Member ''inode'' (Ptr ''struct inode''), Member ''offset'' typedef_loff_t,
    Member ''ref_ctr_offset'' typedef_loff_t, Member ''flags'' (Scalar 8),
    Member ''arch'' struct_arch_uprobe]"

lemma struct_uprobe_layout [kernel_layout]:
  "sizeof struct_uprobe = 200" "alignof struct_uprobe = 8"
  by (simp_all add: struct_uprobe_def kernel_eval kernel_layout)

definition struct_uprobe_consumer :: ctype where
  "struct_uprobe_consumer = Struct [
    Member ''handler'' (Ptr ''()''), Member ''ret_handler'' (Ptr ''()''),
    Member ''filter'' (Ptr ''()''), Member ''next'' (Ptr ''struct uprobe_consumer'')]"

lemma struct_uprobe_consumer_layout [kernel_layout]:
  "sizeof struct_uprobe_consumer = 32" "alignof struct_uprobe_consumer = 8"
  by (simp_all add: struct_uprobe_consumer_def kernel_eval kernel_layout)

definition struct_return_instance :: ctype where
  "struct_return_instance = Struct [
    Member ''uprobe'' (Ptr ''struct uprobe''), Member ''func'' (Scalar 8), Member ''stack'' (Scalar 8),
    Member ''orig_ret_vaddr'' (Scalar 8), Member ''chained'' typedef_bool,
    Member ''next'' (Ptr ''struct return_instance'')]"

lemma struct_return_instance_layout [kernel_layout]:
  "sizeof struct_return_instance = 48" "alignof struct_return_instance = 8"
  by (simp_all add: struct_return_instance_def kernel_eval kernel_layout)

definition enum_perf_event_state :: "(string \<times> int) list" where
  "enum_perf_event_state = [
    (''PERF_EVENT_STATE_DEAD'', 4294967292), (''PERF_EVENT_STATE_EXIT'', 4294967293),
    (''PERF_EVENT_STATE_ERROR'', 4294967294), (''PERF_EVENT_STATE_OFF'', 4294967295),
    (''PERF_EVENT_STATE_INACTIVE'', 0), (''PERF_EVENT_STATE_ACTIVE'', 1)]"

definition typedef_local_t :: ctype where
  "typedef_local_t = Struct [
    Member ''a'' typedef_atomic_long_t]"

lemma typedef_local_t_layout [kernel_layout]:
  "sizeof typedef_local_t = 8" "alignof typedef_local_t = 8"
  by (simp_all add: typedef_local_t_def kernel_eval kernel_layout)

definition typedef_local64_t :: ctype where
  "typedef_local64_t = Struct [
    Member ''a'' typedef_local_t]"

lemma typedef_local64_t_layout [kernel_layout]:
  "sizeof typedef_local64_t = 8" "alignof typedef_local64_t = 8"
  by (simp_all add: typedef_local64_t_def kernel_eval kernel_layout)

definition struct_perf_event_attr :: ctype where
  "struct_perf_event_attr = Struct [
    Member ''type'' typedef___u32, Member ''size'' typedef___u32, Member ''config'' typedef___u64,
    Member '''' (Union [Member ''sample_period'' typedef___u64, Member ''sample_freq'' typedef___u64]),
    Member ''sample_type'' typedef___u64, Member ''read_format'' typedef___u64, Bits ''disabled'' 8 1,
    Bits ''inherit'' 8 1, Bits ''pinned'' 8 1, Bits ''exclusive'' 8 1, Bits ''exclude_user'' 8 1,
    Bits ''exclude_kernel'' 8 1, Bits ''exclude_hv'' 8 1, Bits ''exclude_idle'' 8 1, Bits ''mmap'' 8 1,
    Bits ''comm'' 8 1, Bits ''freq'' 8 1, Bits ''inherit_stat'' 8 1, Bits ''enable_on_exec'' 8 1,
    Bits ''task'' 8 1, Bits ''watermark'' 8 1, Bits ''precise_ip'' 8 2, Bits ''mmap_data'' 8 1,
    Bits ''sample_id_all'' 8 1, Bits ''exclude_host'' 8 1, Bits ''exclude_guest'' 8 1,
    Bits ''exclude_callchain_kernel'' 8 1, Bits ''exclude_callchain_user'' 8 1, Bits ''mmap2'' 8 1,
    Bits ''comm_exec'' 8 1, Bits ''use_clockid'' 8 1, Bits ''context_switch'' 8 1,
    Bits ''write_backward'' 8 1, Bits ''namespaces'' 8 1, Bits ''ksymbol'' 8 1, Bits ''bpf_event'' 8 1,
    Bits ''aux_output'' 8 1, Bits ''cgroup'' 8 1, Bits ''text_poke'' 8 1, Bits ''build_id'' 8 1,
    Bits ''inherit_thread'' 8 1, Bits ''remove_on_exec'' 8 1, Bits ''sigtrap'' 8 1,
    Bits ''__reserved_1'' 8 26,
    Member '''' (Union [Member ''wakeup_events'' typedef___u32, Member ''wakeup_watermark'' typedef___u32]),
    Member ''bp_type'' typedef___u32,
    Member '''' (Union [Member ''bp_addr'' typedef___u64, Member ''kprobe_func'' typedef___u64,
      Member ''uprobe_path'' typedef___u64, Member ''config1'' typedef___u64]),
    Member '''' (Union [Member ''bp_len'' typedef___u64, Member ''kprobe_addr'' typedef___u64,
      Member ''probe_offset'' typedef___u64, Member ''config2'' typedef___u64]),
    Member ''branch_sample_type'' typedef___u64, Member ''sample_regs_user'' typedef___u64,
    Member ''sample_stack_user'' typedef___u32, Member ''clockid'' typedef___s32,
    Member ''sample_regs_intr'' typedef___u64, Member ''aux_watermark'' typedef___u32,
    Member ''sample_max_stack'' typedef___u16, Member ''__reserved_2'' typedef___u16,
    Member ''aux_sample_size'' typedef___u32, Member ''__reserved_3'' typedef___u32,
    Member ''sig_data'' typedef___u64, Member ''config3'' typedef___u64]"

lemma struct_perf_event_attr_layout [kernel_layout]:
  "sizeof struct_perf_event_attr = 136" "alignof struct_perf_event_attr = 8"
  by (simp_all add: struct_perf_event_attr_def kernel_eval kernel_layout)

definition struct_hw_perf_event_extra :: ctype where
  "struct_hw_perf_event_extra = Struct [
    Member ''config'' typedef_u64, Member ''reg'' (Scalar 4), Member ''alloc'' (Scalar 4),
    Member ''idx'' (Scalar 4)]"

lemma struct_hw_perf_event_extra_layout [kernel_layout]:
  "sizeof struct_hw_perf_event_extra = 24" "alignof struct_hw_perf_event_extra = 8"
  by (simp_all add: struct_hw_perf_event_extra_def kernel_eval kernel_layout)

definition struct_arch_hw_breakpoint :: ctype where
  "struct_arch_hw_breakpoint = Struct [
    Member ''address'' (Scalar 8), Member ''mask'' (Scalar 8), Member ''len'' typedef_u8,
    Member ''type'' typedef_u8]"

lemma struct_arch_hw_breakpoint_layout [kernel_layout]:
  "sizeof struct_arch_hw_breakpoint = 24" "alignof struct_arch_hw_breakpoint = 8"
  by (simp_all add: struct_arch_hw_breakpoint_def kernel_eval kernel_layout)

definition struct_rhash_head :: ctype where
  "struct_rhash_head = Struct [
    Member ''next'' (Ptr ''struct rhash_head'')]"

lemma struct_rhash_head_layout [kernel_layout]:
  "sizeof struct_rhash_head = 8" "alignof struct_rhash_head = 8"
  by (simp_all add: struct_rhash_head_def kernel_eval kernel_layout)

definition struct_rhlist_head :: ctype where
  "struct_rhlist_head = Struct [
    Member ''rhead'' struct_rhash_head, Member ''next'' (Ptr ''struct rhlist_head'')]"

lemma struct_rhlist_head_layout [kernel_layout]:
  "sizeof struct_rhlist_head = 16" "alignof struct_rhlist_head = 8"
  by (simp_all add: struct_rhlist_head_def kernel_eval kernel_layout)

definition struct_hw_perf_event :: ctype where
  "struct_hw_perf_event = Struct [
    Member '''' (Union [Member '''' (Struct [Member ''config'' typedef_u64,
      Member ''last_tag'' typedef_u64, Member ''config_base'' (Scalar 8),
      Member ''event_base'' (Scalar 8), Member ''event_base_rdpmc'' (Scalar 4),
      Member ''idx'' (Scalar 4), Member ''last_cpu'' (Scalar 4), Member ''flags'' (Scalar 4),
      Member ''extra_reg'' struct_hw_perf_event_extra,
      Member ''branch_reg'' struct_hw_perf_event_extra]),
      Member '''' (Struct [Member ''hrtimer'' struct_hrtimer]),
      Member '''' (Struct [Member ''tp_list'' struct_list_head]),
      Member '''' (Struct [Member ''pwr_acc'' typedef_u64, Member ''ptsc'' typedef_u64]),
      Member '''' (Struct [Member ''info'' struct_arch_hw_breakpoint,
      Member ''bp_list'' struct_rhlist_head]), Member '''' (Struct [Member ''iommu_bank'' typedef_u8,
      Member ''iommu_cntr'' typedef_u8, Member ''padding'' typedef_u16, Member ''conf'' typedef_u64,
      Member ''conf1'' typedef_u64])]),
    Member ''target'' (Ptr ''struct task_struct''), Member ''addr_filters'' (Ptr ''void''),
    Member ''addr_filters_gen'' (Scalar 8), Member ''state'' (Scalar 4),
    Member ''prev_count'' typedef_local64_t, Member ''sample_period'' typedef_u64,
    Member '''' (Union [Member '''' (Struct [Member ''last_period'' typedef_u64,
      Member ''period_left'' typedef_local64_t]),
      Member '''' (Struct [Member ''saved_metric'' typedef_u64, Member ''saved_slots'' typedef_u64])]),
    Member ''interrupts_seq'' typedef_u64, Member ''interrupts'' typedef_u64,
    Member ''freq_time_stamp'' typedef_u64, Member ''freq_count_stamp'' typedef_u64]"

lemma struct_hw_perf_event_layout [kernel_layout]:
  "sizeof struct_hw_perf_event = 192" "alignof struct_hw_perf_event = 8"
  by (simp_all add: struct_hw_perf_event_def kernel_eval kernel_layout)

definition struct_perf_addr_filters_head :: ctype where
  "struct_perf_addr_filters_head = Struct [
    Member ''list'' struct_list_head, Member ''lock'' typedef_raw_spinlock_t,
    Member ''nr_file_filters'' (Scalar 4)]"

lemma struct_perf_addr_filters_head_layout [kernel_layout]:
  "sizeof struct_perf_addr_filters_head = 24" "alignof struct_perf_addr_filters_head = 8"
  by (simp_all add: struct_perf_addr_filters_head_def kernel_eval kernel_layout)

definition typedef_perf_overflow_handler_t :: ctype where
  "typedef_perf_overflow_handler_t = Ptr ''()''"

lemma typedef_perf_overflow_handler_t_layout [kernel_layout]:
  "sizeof typedef_perf_overflow_handler_t = 8" "alignof typedef_perf_overflow_handler_t = 8"
  by (simp_all add: typedef_perf_overflow_handler_t_def kernel_eval kernel_layout)

definition typedef_ftrace_func_t :: ctype where
  "typedef_ftrace_func_t = Ptr ''()''"

lemma typedef_ftrace_func_t_layout [kernel_layout]:
  "sizeof typedef_ftrace_func_t = 8" "alignof typedef_ftrace_func_t = 8"
  by (simp_all add: typedef_ftrace_func_t_def kernel_eval kernel_layout)

definition struct_ftrace_ops_hash :: ctype where
  "struct_ftrace_ops_hash = Struct [
    Member ''notrace_hash'' (Ptr ''struct ftrace_hash''),
    Member ''filter_hash'' (Ptr ''struct ftrace_hash''), Member ''regex_lock'' struct_mutex]"

lemma struct_ftrace_ops_hash_layout [kernel_layout]:
  "sizeof struct_ftrace_ops_hash = 48" "alignof struct_ftrace_ops_hash = 8"
  by (simp_all add: struct_ftrace_ops_hash_def kernel_eval kernel_layout)

definition typedef_ftrace_ops_func_t :: ctype where
  "typedef_ftrace_ops_func_t = Ptr ''()''"

lemma typedef_ftrace_ops_func_t_layout [kernel_layout]:
  "sizeof typedef_ftrace_ops_func_t = 8" "alignof typedef_ftrace_ops_func_t = 8"
  by (simp_all add: typedef_ftrace_ops_func_t_def kernel_eval kernel_layout)

definition struct_ftrace_ops :: ctype where
  "struct_ftrace_ops = Struct [
    Member ''func'' typedef_ftrace_func_t, Member ''next'' (Ptr ''struct ftrace_ops''),
    Member ''flags'' (Scalar 8), Member ''private'' (Ptr ''void''),
    Member ''saved_func'' typedef_ftrace_func_t, Member ''local_hash'' struct_ftrace_ops_hash,
    Member ''func_hash'' (Ptr ''struct ftrace_ops_hash''), Member ''old_hash'' struct_ftrace_ops_hash,
    Member ''trampoline'' (Scalar 8), Member ''trampoline_size'' (Scalar 8),
    Member ''list'' struct_list_head, Member ''ops_func'' typedef_ftrace_ops_func_t,
    Member ''direct_call'' (Scalar 8)]"

lemma struct_ftrace_ops_layout [kernel_layout]:
  "sizeof struct_ftrace_ops = 192" "alignof struct_ftrace_ops = 8"
  by (simp_all add: struct_ftrace_ops_def kernel_eval kernel_layout)

definition struct_perf_event :: ctype where
  "struct_perf_event = Struct [
    Member ''event_entry'' struct_list_head, Member ''sibling_list'' struct_list_head,
    Member ''active_list'' struct_list_head, Member ''group_node'' struct_rb_node,
    Member ''group_index'' typedef_u64, Member ''migrate_entry'' struct_list_head,
    Member ''hlist_entry'' struct_hlist_node, Member ''active_entry'' struct_list_head,
    Member ''nr_siblings'' (Scalar 4), Member ''event_caps'' (Scalar 4),
    Member ''group_caps'' (Scalar 4), Member ''group_generation'' (Scalar 4),
    Member ''group_leader'' (Ptr ''struct perf_event''), Member ''pmu'' (Ptr ''struct pmu''),
    Member ''pmu_private'' (Ptr ''void''), Member ''state'' c_enum, Member ''attach_state'' (Scalar 4),
    Member ''count'' typedef_local64_t, Member ''child_count'' typedef_atomic64_t,
    Member ''total_time_enabled'' typedef_u64, Member ''total_time_running'' typedef_u64,
    Member ''tstamp'' typedef_u64, Member ''attr'' struct_perf_event_attr,
    Member ''header_size'' typedef_u16, Member ''id_header_size'' typedef_u16,
    Member ''read_size'' typedef_u16, Member ''hw'' struct_hw_perf_event,
    Member ''ctx'' (Ptr ''struct perf_event_context''),
    Member ''pmu_ctx'' (Ptr ''struct perf_event_pmu_context''),
    Member ''refcount'' typedef_atomic_long_t, Member ''child_total_time_enabled'' typedef_atomic64_t,
    Member ''child_total_time_running'' typedef_atomic64_t, Member ''child_mutex'' struct_mutex,
    Member ''child_list'' struct_list_head, Member ''parent'' (Ptr ''struct perf_event''),
    Member ''oncpu'' (Scalar 4), Member ''cpu'' (Scalar 4), Member ''owner_entry'' struct_list_head,
    Member ''owner'' (Ptr ''struct task_struct''), Member ''mmap_mutex'' struct_mutex,
    Member ''mmap_count'' typedef_atomic_t, Member ''rb'' (Ptr ''struct perf_buffer''),
    Member ''rb_entry'' struct_list_head, Member ''rcu_batches'' (Scalar 8),
    Member ''rcu_pending'' (Scalar 4), Member ''waitq'' typedef_wait_queue_head_t,
    Member ''fasync'' (Ptr ''struct fasync_struct''), Member ''pending_wakeup'' (Scalar 4),
    Member ''pending_kill'' (Scalar 4), Member ''pending_disable'' (Scalar 4),
    Member ''pending_sigtrap'' (Scalar 4), Member ''pending_addr'' (Scalar 8),
    Member ''pending_irq'' struct_irq_work, Member ''pending_task'' struct_callback_head,
    Member ''pending_work'' (Scalar 4), Member ''pending_work_wait'' struct_rcuwait,
    Member ''event_limit'' typedef_atomic_t, Member ''addr_filters'' struct_perf_addr_filters_head,
    Member ''addr_filter_ranges'' (Ptr ''struct perf_addr_filter_range''),
    Member ''addr_filters_gen'' (Scalar 8), Member ''aux_event'' (Ptr ''struct perf_event''),
    Member ''destroy'' (Ptr ''()''), Member ''callback_head'' struct_callback_head,
    Member ''ns'' (Ptr ''struct pid_namespace''), Member ''id'' typedef_u64,
    Member ''lost_samples'' typedef_atomic64_t, Member ''clock'' (Ptr ''()''),
    Member ''overflow_handler'' typedef_perf_overflow_handler_t,
    Member ''overflow_handler_context'' (Ptr ''void''),
    Member ''orig_overflow_handler'' typedef_perf_overflow_handler_t,
    Member ''prog'' (Ptr ''struct bpf_prog''), Member ''bpf_cookie'' typedef_u64,
    Member ''tp_event'' (Ptr ''struct trace_event_call''),
    Member ''filter'' (Ptr ''struct event_filter''), Member ''ftrace_ops'' struct_ftrace_ops,
    Member ''cgrp'' (Ptr ''struct perf_cgroup''), Member ''security'' (Ptr ''void''),
    Member ''sb_list'' struct_list_head, Member ''orig_type'' typedef___u32]"

lemma struct_perf_event_layout [kernel_layout]:
  "sizeof struct_perf_event = 1280" "alignof struct_perf_event = 8"
  by (simp_all add: struct_perf_event_def kernel_eval kernel_layout)

definition struct_static_key :: ctype where
  "struct_static_key = Struct [
    Member ''enabled'' typedef_atomic_t,
    Member '''' (Union [Member ''type'' (Scalar 8), Member ''entries'' (Ptr ''struct jump_entry''),
      Member ''next'' (Ptr ''struct static_key_mod'')])]"

lemma struct_static_key_layout [kernel_layout]:
  "sizeof struct_static_key = 16" "alignof struct_static_key = 8"
  by (simp_all add: struct_static_key_def kernel_eval kernel_layout)

definition struct_tracepoint :: ctype where
  "struct_tracepoint = Struct [
    Member ''name'' (Ptr ''char''), Member ''key'' struct_static_key,
    Member ''static_call_key'' (Ptr ''struct static_call_key''),
    Member ''static_call_tramp'' (Ptr ''void''), Member ''iterator'' (Ptr ''void''),
    Member ''probestub'' (Ptr ''void''), Member ''regfunc'' (Ptr ''()''),
    Member ''unregfunc'' (Ptr ''()''), Member ''funcs'' (Ptr ''struct tracepoint_func'')]"

lemma struct_tracepoint_layout [kernel_layout]:
  "sizeof struct_tracepoint = 80" "alignof struct_tracepoint = 8"
  by (simp_all add: struct_tracepoint_def kernel_eval kernel_layout)

definition struct_tracepoint_func :: ctype where
  "struct_tracepoint_func = Struct [
    Member ''func'' (Ptr ''void''), Member ''data'' (Ptr ''void''), Member ''prio'' (Scalar 4)]"

lemma struct_tracepoint_func_layout [kernel_layout]:
  "sizeof struct_tracepoint_func = 24" "alignof struct_tracepoint_func = 8"
  by (simp_all add: struct_tracepoint_func_def kernel_eval kernel_layout)

definition struct_trace_event_class :: ctype where
  "struct_trace_event_class = Struct [
    Member ''system'' (Ptr ''char''), Member ''probe'' (Ptr ''void''),
    Member ''perf_probe'' (Ptr ''void''), Member ''reg'' (Ptr ''()''),
    Member ''fields_array'' (Ptr ''struct trace_event_fields''), Member ''get_fields'' (Ptr ''()''),
    Member ''fields'' struct_list_head, Member ''raw_init'' (Ptr ''()'')]"

lemma struct_trace_event_class_layout [kernel_layout]:
  "sizeof struct_trace_event_class = 72" "alignof struct_trace_event_class = 8"
  by (simp_all add: struct_trace_event_class_def kernel_eval kernel_layout)

definition struct_trace_event_file :: ctype where
  "struct_trace_event_file = Struct [
    Member ''list'' struct_list_head, Member ''event_call'' (Ptr ''struct trace_event_call''),
    Member ''filter'' (Ptr ''struct event_filter''), Member ''ei'' (Ptr ''struct eventfs_inode''),
    Member ''tr'' (Ptr ''struct trace_array''), Member ''system'' (Ptr ''struct trace_subsystem_dir''),
    Member ''triggers'' struct_list_head, Member ''flags'' (Scalar 8), Member ''ref'' typedef_atomic_t,
    Member ''sm_ref'' typedef_atomic_t, Member ''tm_ref'' typedef_atomic_t]"

lemma struct_trace_event_file_layout [kernel_layout]:
  "sizeof struct_trace_event_file = 96" "alignof struct_trace_event_file = 8"
  by (simp_all add: struct_trace_event_file_def kernel_eval kernel_layout)

definition struct_pmu :: ctype where
  "struct_pmu = Struct [
    Member ''entry'' struct_list_head, Member ''module'' (Ptr ''struct module''),
    Member ''dev'' (Ptr ''struct device''), Member ''parent'' (Ptr ''struct device''),
    Member ''attr_groups'' (Ptr ''struct attribute_group *''),
    Member ''attr_update'' (Ptr ''struct attribute_group *''), Member ''name'' (Ptr ''char''),
    Member ''type'' (Scalar 4), Member ''capabilities'' (Scalar 4),
    Member ''pmu_disable_count'' (Ptr ''int''),
    Member ''cpu_pmu_context'' (Ptr ''struct perf_cpu_pmu_context''),
    Member ''exclusive_cnt'' typedef_atomic_t, Member ''task_ctx_nr'' (Scalar 4),
    Member ''hrtimer_interval_ms'' (Scalar 4), Member ''nr_addr_filters'' (Scalar 4),
    Member ''pmu_enable'' (Ptr ''()''), Member ''pmu_disable'' (Ptr ''()''),
    Member ''event_init'' (Ptr ''()''), Member ''event_mapped'' (Ptr ''()''),
    Member ''event_unmapped'' (Ptr ''()''), Member ''add'' (Ptr ''()''), Member ''del'' (Ptr ''()''),
    Member ''start'' (Ptr ''()''), Member ''stop'' (Ptr ''()''), Member ''read'' (Ptr ''()''),
    Member ''start_txn'' (Ptr ''()''), Member ''commit_txn'' (Ptr ''()''),
    Member ''cancel_txn'' (Ptr ''()''), Member ''event_idx'' (Ptr ''()''),
    Member ''sched_task'' (Ptr ''()''), Member ''task_ctx_cache'' (Ptr ''struct kmem_cache''),
    Member ''swap_task_ctx'' (Ptr ''()''), Member ''setup_aux'' (Ptr ''()''),
    Member ''free_aux'' (Ptr ''()''), Member ''snapshot_aux'' (Ptr ''()''),
    Member ''addr_filters_validate'' (Ptr ''()''), Member ''addr_filters_sync'' (Ptr ''()''),
    Member ''aux_output_match'' (Ptr ''()''), Member ''filter'' (Ptr ''()''),
    Member ''check_period'' (Ptr ''()'')]"

lemma struct_pmu_layout [kernel_layout]:
  "sizeof struct_pmu = 304" "alignof struct_pmu = 8"
  by (simp_all add: struct_pmu_def kernel_eval kernel_layout)

definition struct_bpf_raw_event_map :: ctype where
  "struct_bpf_raw_event_map = Struct [
    Member ''tp'' (Ptr ''struct tracepoint''), Member ''bpf_func'' (Ptr ''void''),
    Member ''num_args'' typedef_u32, Member ''writable_size'' typedef_u32, Bits '''' 8 64]"

lemma struct_bpf_raw_event_map_layout [kernel_layout]:
  "sizeof struct_bpf_raw_event_map = 32" "alignof struct_bpf_raw_event_map = 8"
  by (simp_all add: struct_bpf_raw_event_map_def kernel_eval kernel_layout)

definition struct_bpf_prog_array_item :: ctype where
  "struct_bpf_prog_array_item = Struct [
    Member ''prog'' (Ptr ''struct bpf_prog''),
    Member '''' (Union [Member ''cgroup_storage'' (Arr (Ptr ''struct bpf_cgroup_storage'') 2),
      Member ''bpf_cookie'' typedef_u64])]"

lemma struct_bpf_prog_array_item_layout [kernel_layout]:
  "sizeof struct_bpf_prog_array_item = 24" "alignof struct_bpf_prog_array_item = 8"
  by (simp_all add: struct_bpf_prog_array_item_def kernel_eval kernel_layout)

definition struct_bpf_prog_array :: ctype where
  "struct_bpf_prog_array = Struct [
    Member ''rcu'' struct_callback_head, Member ''items'' (Arr (struct_bpf_prog_array_item) 0)]"

lemma struct_bpf_prog_array_layout [kernel_layout]:
  "sizeof struct_bpf_prog_array = 16" "alignof struct_bpf_prog_array = 8"
  by (simp_all add: struct_bpf_prog_array_def kernel_eval kernel_layout)

definition struct_bpf_run_ctx :: ctype where
  "struct_bpf_run_ctx = Struct []"

lemma struct_bpf_run_ctx_layout [kernel_layout]:
  "sizeof struct_bpf_run_ctx = 0" "alignof struct_bpf_run_ctx = 1"
  by (simp_all add: struct_bpf_run_ctx_def kernel_eval kernel_layout)

definition struct_bpf_trace_run_ctx :: ctype where
  "struct_bpf_trace_run_ctx = Struct [
    Member ''run_ctx'' struct_bpf_run_ctx, Member ''bpf_cookie'' typedef_u64,
    Member ''is_uprobe'' typedef_bool]"

lemma struct_bpf_trace_run_ctx_layout [kernel_layout]:
  "sizeof struct_bpf_trace_run_ctx = 16" "alignof struct_bpf_trace_run_ctx = 8"
  by (simp_all add: struct_bpf_trace_run_ctx_def kernel_eval kernel_layout)

definition struct_btf_header :: ctype where
  "struct_btf_header = Struct [
    Member ''magic'' typedef___u16, Member ''version'' typedef___u8, Member ''flags'' typedef___u8,
    Member ''hdr_len'' typedef___u32, Member ''type_off'' typedef___u32,
    Member ''type_len'' typedef___u32, Member ''str_off'' typedef___u32,
    Member ''str_len'' typedef___u32]"

lemma struct_btf_header_layout [kernel_layout]:
  "sizeof struct_btf_header = 24" "alignof struct_btf_header = 4"
  by (simp_all add: struct_btf_header_def kernel_eval kernel_layout)

definition struct_btf :: ctype where
  "struct_btf = Struct [
    Member ''data'' (Ptr ''void''), Member ''types'' (Ptr ''struct btf_type *''),
    Member ''resolved_ids'' (Ptr ''u32''), Member ''resolved_sizes'' (Ptr ''u32''),
    Member ''strings'' (Ptr ''char''), Member ''nohdr_data'' (Ptr ''void''),
    Member ''hdr'' struct_btf_header, Member ''nr_types'' typedef_u32,
    Member ''types_size'' typedef_u32, Member ''data_size'' typedef_u32,
    Member ''refcnt'' typedef_refcount_t, Member ''id'' typedef_u32,
    Member ''rcu'' struct_callback_head, Member ''kfunc_set_tab'' (Ptr ''struct btf_kfunc_set_tab''),
    Member ''dtor_kfunc_tab'' (Ptr ''struct btf_id_dtor_kfunc_tab''),
    Member ''struct_meta_tab'' (Ptr ''struct btf_struct_metas''),
    Member ''base_btf'' (Ptr ''struct btf''), Member ''start_id'' typedef_u32,
    Member ''start_str_off'' typedef_u32, Member ''name'' (Arr (Scalar 1) 56),
    Member ''kernel_btf'' typedef_bool]"

lemma struct_btf_layout [kernel_layout]:
  "sizeof struct_btf = 216" "alignof struct_btf = 8"
  by (simp_all add: struct_btf_def kernel_eval kernel_layout)

definition struct_hlist_nulls_node :: ctype where
  "struct_hlist_nulls_node = Struct [
    Member ''next'' (Ptr ''struct hlist_nulls_node''),
    Member ''pprev'' (Ptr ''struct hlist_nulls_node *'')]"

lemma struct_hlist_nulls_node_layout [kernel_layout]:
  "sizeof struct_hlist_nulls_node = 16" "alignof struct_hlist_nulls_node = 8"
  by (simp_all add: struct_hlist_nulls_node_def kernel_eval kernel_layout)

definition struct_pcpu_freelist_node :: ctype where
  "struct_pcpu_freelist_node = Struct [
    Member ''next'' (Ptr ''struct pcpu_freelist_node'')]"

lemma struct_pcpu_freelist_node_layout [kernel_layout]:
  "sizeof struct_pcpu_freelist_node = 8" "alignof struct_pcpu_freelist_node = 8"
  by (simp_all add: struct_pcpu_freelist_node_def kernel_eval kernel_layout)

definition struct_bpf_lru_node :: ctype where
  "struct_bpf_lru_node = Struct [
    Member ''list'' struct_list_head, Member ''cpu'' typedef_u16, Member ''type'' typedef_u8,
    Member ''ref'' typedef_u8]"

lemma struct_bpf_lru_node_layout [kernel_layout]:
  "sizeof struct_bpf_lru_node = 24" "alignof struct_bpf_lru_node = 8"
  by (simp_all add: struct_bpf_lru_node_def kernel_eval kernel_layout)

definition struct_htab_elem :: ctype where
  "struct_htab_elem = Struct [
    Member '''' (Union [Member ''hash_node'' struct_hlist_nulls_node,
      Member '''' (Struct [Member ''padding'' (Ptr ''void''),
      Member '''' (Union [Member ''fnode'' struct_pcpu_freelist_node,
      Member ''batch_flink'' (Ptr ''struct htab_elem'')])])]),
    Member '''' (Union [Member ''ptr_to_pptr'' (Ptr ''void''), Member ''lru_node'' struct_bpf_lru_node]),
    Member ''hash'' typedef_u32, Bits '''' 8 0, Member ''key'' (Arr (Scalar 1) 0)]"

lemma struct_htab_elem_layout [kernel_layout]:
  "sizeof struct_htab_elem = 48" "alignof struct_htab_elem = 8"
  by (simp_all add: struct_htab_elem_def kernel_eval kernel_layout)

definition struct_syscall_metadata :: ctype where
  "struct_syscall_metadata = Struct [
    Member ''name'' (Ptr ''char''), Member ''syscall_nr'' (Scalar 4), Member ''nb_args'' (Scalar 4),
    Member ''types'' (Ptr ''char *''), Member ''args'' (Ptr ''char *''),
    Member ''enter_fields'' struct_list_head, Member ''enter_event'' (Ptr ''struct trace_event_call''),
    Member ''exit_event'' (Ptr ''struct trace_event_call'')]"

lemma struct_syscall_metadata_layout [kernel_layout]:
  "sizeof struct_syscall_metadata = 64" "alignof struct_syscall_metadata = 8"
  by (simp_all add: struct_syscall_metadata_def kernel_eval kernel_layout)

definition struct_bpf_perf_link :: ctype where
  "struct_bpf_perf_link = Struct [
    Member ''link'' struct_bpf_link, Member ''perf_file'' (Ptr ''struct file'')]"

lemma struct_bpf_perf_link_layout [kernel_layout]:
  "sizeof struct_bpf_perf_link = 72" "alignof struct_bpf_perf_link = 8"
  by (simp_all add: struct_bpf_perf_link_def kernel_eval kernel_layout)

definition struct_bpf_tramp_link :: ctype where
  "struct_bpf_tramp_link = Struct [
    Member ''link'' struct_bpf_link, Member ''tramp_hlist'' struct_hlist_node,
    Member ''cookie'' typedef_u64]"

lemma struct_bpf_tramp_link_layout [kernel_layout]:
  "sizeof struct_bpf_tramp_link = 88" "alignof struct_bpf_tramp_link = 8"
  by (simp_all add: struct_bpf_tramp_link_def kernel_eval kernel_layout)

definition struct_bpf_tracing_link :: ctype where
  "struct_bpf_tracing_link = Struct [
    Member ''link'' struct_bpf_tramp_link, Member ''attach_type'' c_enum,
    Member ''trampoline'' (Ptr ''struct bpf_trampoline''), Member ''tgt_prog'' (Ptr ''struct bpf_prog'')]"

lemma struct_bpf_tracing_link_layout [kernel_layout]:
  "sizeof struct_bpf_tracing_link = 112" "alignof struct_bpf_tracing_link = 8"
  by (simp_all add: struct_bpf_tracing_link_def kernel_eval kernel_layout)

definition struct_bpf_uprobe_multi_link :: ctype where
  "struct_bpf_uprobe_multi_link = Struct [
    Member ''path'' struct_path, Member ''link'' struct_bpf_link, Member ''cnt'' typedef_u32,
    Member ''uprobes'' (Ptr ''struct bpf_uprobe''), Member ''task'' (Ptr ''struct task_struct'')]"

lemma struct_bpf_uprobe_multi_link_layout [kernel_layout]:
  "sizeof struct_bpf_uprobe_multi_link = 104" "alignof struct_bpf_uprobe_multi_link = 8"
  by (simp_all add: struct_bpf_uprobe_multi_link_def kernel_eval kernel_layout)

definition struct_bpf_uprobe :: ctype where
  "struct_bpf_uprobe = Struct [
    Member ''link'' (Ptr ''struct bpf_uprobe_multi_link''), Member ''offset'' typedef_loff_t,
    Member ''ref_ctr_offset'' (Scalar 8), Member ''cookie'' typedef_u64,
    Member ''consumer'' struct_uprobe_consumer]"

lemma struct_bpf_uprobe_layout [kernel_layout]:
  "sizeof struct_bpf_uprobe = 64" "alignof struct_bpf_uprobe = 8"
  by (simp_all add: struct_bpf_uprobe_def kernel_eval kernel_layout)

end
