(* ===== verification/Kernel_Layout.thy ===== *)
theory Kernel_Layout
  imports Kernel_Task Kernel_Attach Watchdog_Probe
begin

text \<open>
  The layout facts the programs of \<open>gpuprint.bpf.c\<close> take from \<open>vmlinux.h\<close>: the offsets behind the
  \<open>BPF_CORE_READ\<close> chains of \<open>watchdog_ioctl\<close>, resolved by a typed walk over the struct definitions;
  the argument registers in \<open>pt_regs\<close>; the system call arguments of the tracepoint context; and the
  map types of the three map declarations.
\<close>

section \<open>Typed member access\<close>

text \<open>The type of a named member, looking through anonymous members.\<close>

fun field_type :: "ctype \<Rightarrow> string \<Rightarrow> ctype option"
  and members_type :: "member list \<Rightarrow> string \<Rightarrow> ctype option" where
  "field_type (Struct ms) f = members_type ms f"
| "field_type (Union ms) f = members_type ms f"
| "field_type (Scalar n) f = None"
| "field_type (Ptr s) f = None"
| "field_type (Arr t k) f = None"
| "members_type [] f = None"
| "members_type (Member nm t # ms) f =
     (if nm = f then Some t
      else case (if nm = [] then field_type t f else None) of
             Some u \<Rightarrow> Some u
           | None \<Rightarrow> members_type ms f)"
| "members_type (Bits nm b w # ms) f = members_type ms f"

text \<open>
  A chain of member accesses through pointers, as \<open>BPF_CORE_READ(base, a, b, ...)\<close> names it: the
  offsets of the members and the type of the last one.
\<close>

fun core_path :: "(string \<Rightarrow> ctype option) \<Rightarrow> string \<Rightarrow> string list \<Rightarrow> (nat list \<times> ctype option) option" where
  "core_path env tag [] = Some ([], None)"
| "core_path env tag (f # fs) =
     (case env tag of
        None \<Rightarrow> None
      | Some t \<Rightarrow>
         (case field_type t f of
            None \<Rightarrow> None
          | Some u \<Rightarrow>
             (case fs of
                [] \<Rightarrow> Some ([offsetof t f], Some u)
              | _ \<Rightarrow>
                 (case u of
                    Ptr tag' \<Rightarrow>
                      (case core_path env tag' fs of
                         None \<Rightarrow> None
                       | Some (offs, r) \<Rightarrow> Some (offsetof t f # offs, r))
                  | _ \<Rightarrow> None))))"

text \<open>
  What such a chain reads: the member at its offset with the size of its type, then on from the pointer that was read.
\<close>

fun core_read :: "(string \<Rightarrow> ctype option) \<Rightarrow> (nat \<Rightarrow> u64 \<Rightarrow> bytes) \<Rightarrow> string \<Rightarrow> string list \<Rightarrow> u64 \<Rightarrow> bytes option" where
  "core_read env rd tag [] a = None"
| "core_read env rd tag (f # fs) a =
     (case env tag of
        None \<Rightarrow> None
      | Some t \<Rightarrow>
         (case field_type t f of
            None \<Rightarrow> None
          | Some u \<Rightarrow>
             (let bs = rd (sizeof u) (a + of_nat (offsetof t f)) in
              case fs of
                [] \<Rightarrow> Some bs
              | _ \<Rightarrow> (case u of Ptr tag' \<Rightarrow> core_read env rd tag' fs (u64_at 0 bs) | _ \<Rightarrow> None))))"

definition vmlinux_env :: "string \<Rightarrow> ctype option" where
  "vmlinux_env = map_of
    [(''struct task_struct'', struct_task_struct), (''struct files_struct'', struct_files_struct),
     (''struct fdtable'', struct_fdtable), (''struct file'', struct_file),
     (''struct inode'', struct_inode)]"

definition vmlinux_offsets :: core_offsets where
  "vmlinux_offsets =
    \<lparr>off_task_files = of_nat (offsetof struct_task_struct ''files''),
     off_files_fdt = of_nat (offsetof struct_files_struct ''fdt''),
     off_fdt_fd = of_nat (offsetof struct_fdtable ''fd''),
     off_file_inode = of_nat (offsetof struct_file ''f_inode''),
     off_inode_rdev = of_nat (offsetof struct_inode ''i_rdev'')\<rparr>"

text \<open>One step of the search for a member, for evaluation by rewriting.\<close>

lemma struct_offset_step:
  "struct_offset (Member nm t # ms) f p =
    (if nm = f then Some (align_up (8 * alignof t) p)
     else case (if nm = [] then bit_offset t f else None) of
            Some off \<Rightarrow> Some (align_up (8 * alignof t) p + off)
          | None \<Rightarrow> struct_offset ms f (align_up (8 * alignof t) p + 8 * sizeof t))"
  "struct_offset (Bits nm b w # ms) f p =
    (if nm = f \<and> nm \<noteq> [] then Some (start_of (Bits nm b w) p)
     else struct_offset ms f (start_of (Bits nm b w) p + w))"
  by (simp_all only: struct_offset.simps Let_def)

lemmas offset_eval = offsetof_def align_up_eval bytes_of_bits_def struct_offset_step kernel_layout

lemma vmlinux_member_offsets:
  "offsetof struct_files_struct ''fdt'' = 32"
  "offsetof struct_fdtable ''fd'' = 8"
  "offsetof struct_file ''f_inode'' = 168"
  "offsetof struct_inode ''i_rdev'' = 92"
  by (simp_all add: struct_files_struct_def struct_fdtable_def struct_file_def struct_inode_def offset_eval
      del: struct_offset.simps)

lemma task_files_offset: "offsetof struct_task_struct ''files'' = 2992"
  by (simp add: struct_task_struct_def struct_task_struct_members_1_def struct_task_struct_members_2_def
      offset_eval del: struct_offset.simps)

text \<open>The chains of \<open>watchdog_ioctl\<close>, typed step by step.\<close>

lemmas task_struct_defs =
  struct_task_struct_def struct_task_struct_members_1_def struct_task_struct_members_2_def

lemma vmlinux_field_types:
  "field_type struct_task_struct ''files'' = Some (Ptr ''struct files_struct'')"
  "field_type struct_files_struct ''fdt'' = Some (Ptr ''struct fdtable'')"
  "field_type struct_fdtable ''fd'' = Some (Ptr ''struct file *'')"
  "field_type struct_file ''f_inode'' = Some (Ptr ''struct inode'')"
  "field_type struct_inode ''i_rdev'' = Some typedef_dev_t"
  by (simp_all add: task_struct_defs struct_files_struct_def struct_fdtable_def struct_file_def struct_inode_def)

lemma vmlinux_env_simps:
  "vmlinux_env ''struct task_struct'' = Some struct_task_struct"
  "vmlinux_env ''struct files_struct'' = Some struct_files_struct"
  "vmlinux_env ''struct fdtable'' = Some struct_fdtable"
  "vmlinux_env ''struct file'' = Some struct_file"
  "vmlinux_env ''struct inode'' = Some struct_inode"
  by (simp_all add: vmlinux_env_def)

lemma core_paths:
  "core_path vmlinux_env ''struct task_struct'' [''files'', ''fdt''] =
    Some ([2992, 32], Some (Ptr ''struct fdtable''))"
  "core_path vmlinux_env ''struct fdtable'' [''fd''] = Some ([8], Some (Ptr ''struct file *''))"
  "core_path vmlinux_env ''struct file'' [''f_inode'', ''i_rdev''] = Some ([168, 92], Some typedef_dev_t)"
  by (simp_all add: vmlinux_env_simps vmlinux_field_types vmlinux_member_offsets task_files_offset)

text \<open>
  The device behind a descriptor as the C source names it, \<open>task->files->fdt\<close>, \<open>fdt->fd\<close>, \<open>fd_array[fd]\<close> and
  \<open>file->f_inode->i_rdev\<close>: none when a chain is ill typed or ends in a null pointer.
\<close>

definition vmlinux_device :: "'k bpf \<Rightarrow> 'k \<Rightarrow> u64 \<Rightarrow> u32 option" where
  "vmlinux_device H s fd =
    (let rd = (\<lambda>n a. probe_read_kernel H n a s);
         member = (\<lambda>tag fs a. core_read vmlinux_env rd tag fs a);
         ptr = (\<lambda>x. case x of None \<Rightarrow> 0 | Some bs \<Rightarrow> u64_at 0 bs);
         fdt = ptr (member ''struct task_struct'' [''files'', ''fdt''] (get_current_task H s));
         fds = ptr (member ''struct fdtable'' [''fd''] fdt);
         file = u64_at 0 (rd 8 (fds + 8 * fd))
     in if fdt = 0 \<or> fds = 0 \<or> file = 0 then None
        else map_option (u32_at 0) (member ''struct file'' [''f_inode'', ''i_rdev''] file))"

lemma vmlinux_fd_device: "fd_device H vmlinux_offsets s fd = vmlinux_device H s fd"
  by (simp add: fd_device_def vmlinux_device_def vmlinux_offsets_def vmlinux_env_simps vmlinux_field_types
      vmlinux_member_offsets task_files_offset kernel_layout Let_def)

section \<open>Probe arguments\<close>

text \<open>
  \<open>BPF_KPROBE\<close> passes the integer argument registers of the System V ABI in order; \<open>sp\<close> is the stack
  pointer, at which the return address lies. \<open>regs\<close> is the memory of the \<open>pt_regs\<close> block.
\<close>

definition arg_registers :: "string list" where
  "arg_registers = [''di'', ''si'', ''dx'', ''cx'', ''r8'', ''r9'']"

definition kprobe_arg :: "nat \<Rightarrow> bytes \<Rightarrow> u64" where
  "kprobe_arg i regs = u64_at (offsetof struct_pt_regs (arg_registers ! i)) regs"

definition kprobe_sp :: "bytes \<Rightarrow> u64" where
  "kprobe_sp regs = u64_at (offsetof struct_pt_regs ''sp'') regs"

text \<open>\<open>ctx->args[0]\<close> of the \<open>sys_enter\<close> tracepoint.\<close>

definition sys_enter_arg0 :: "bytes \<Rightarrow> u64" where
  "sys_enter_arg0 ctx = u64_at (offsetof struct_trace_event_raw_sys_enter ''args'') ctx"

lemma pt_regs_offsets:
  "offsetof struct_pt_regs ''di'' = 112" "offsetof struct_pt_regs ''si'' = 104"
  "offsetof struct_pt_regs ''dx'' = 96" "offsetof struct_pt_regs ''cx'' = 88"
  "offsetof struct_pt_regs ''r8'' = 72" "offsetof struct_pt_regs ''r9'' = 64"
  "offsetof struct_pt_regs ''sp'' = 152" "offsetof struct_trace_event_raw_sys_enter ''args'' = 16"
  by (simp_all add: struct_pt_regs_def struct_trace_event_raw_sys_enter_def offset_eval
      del: struct_offset.simps)

section \<open>Map declarations\<close>

text \<open>The anonymous structs with the \<open>__uint\<close> and \<open>__type\<close> attributes of the three maps.\<close>

record map_decl =
  md_type :: int
  md_key_size :: nat
  md_value_size :: nat
  md_max_entries :: nat

definition enum_value :: "(string \<times> int) list \<Rightarrow> string \<Rightarrow> int" where
  "enum_value e nm = (case map_of e nm of Some v \<Rightarrow> v | None \<Rightarrow> -1)"

definition start_events_stream :: map_decl where
  "start_events_stream =
    \<lparr>md_type = enum_value enum_bpf_map_type ''BPF_MAP_TYPE_HASH'',
     md_key_size = sizeof c_u64, md_value_size = sizeof c_u64,
     md_max_entries = start_events_stream_max_entries\<rparr>"

definition ioctl_watchdog_map :: map_decl where
  "ioctl_watchdog_map =
    \<lparr>md_type = enum_value enum_bpf_map_type ''BPF_MAP_TYPE_PERCPU_HASH'',
     md_key_size = sizeof c_u32, md_value_size = sizeof ioctl_watchdog_event_ctype,
     md_max_entries = ioctl_watchdog_map_max_entries\<rparr>"

definition gpu_ringbuf :: map_decl where
  "gpu_ringbuf =
    \<lparr>md_type = enum_value enum_bpf_map_type ''BPF_MAP_TYPE_RINGBUF'',
     md_key_size = 0, md_value_size = 0, md_max_entries = gpu_ringbuf_max_entries\<rparr>"

section \<open>Properties\<close>

text \<open>
  C30: With the offsets of \<open>vmlinux.h\<close>, the ioctl probe classifies the device at the end of the typed member chains of
  the C source: it counts a hit for the calling process exactly when that walk, through the struct definitions by
  member name and type, ends in a compute device, and otherwise, null pointers included, only reads the clock.
\<close>

lemma vmlinux_chains:
  assumes "bpf_runtime H kinv view" and "kinv s" and "watchdog_ioctl H vmlinux_offsets fd s = (r, s')"
  shows "r = 0 \<and> kinv s' \<and> (\<exists>t \<ge> v_clock (view s).
    if (case vmlinux_device H s fd of None \<Rightarrow> False | Some dev \<Rightarrow> compute_device dev)
    then counted ((view s)\<lparr>v_clock := t\<rparr>) (ucast (drop_bit 32 (v_pid_tgid (view s)))) IOCTL_HIT (view s')
    else view s' = (view s)\<lparr>v_clock := t\<rparr>)"
  using bpf_runtime.watchdog_ioctl_device [OF assms] by (simp only: on_compute_device_def vmlinux_fd_device)

text \<open>A task with device 195:0 open, laid out in memory as \<open>vmlinux.h\<close> has it.\<close>

definition vmlinux_memory :: "u64 \<Rightarrow> u8 option" where
  "vmlinux_memory = map_of (concat (map (\<lambda>(a, bs). zip (map (\<lambda>i. a + of_nat i) [0..<length bs]) bs)
     [(0x1000 + 2992, [0, 0x20, 0, 0, 0, 0, 0, 0]), (0x2000 + 32, [0, 0x30, 0, 0, 0, 0, 0, 0]),
      (0x3000 + 8, [0, 0x40, 0, 0, 0, 0, 0, 0]), (0x4000, [0, 0x50, 0, 0, 0, 0, 0, 0]),
      (0x5000 + 168, [0, 0x60, 0, 0, 0, 0, 0, 0]), (0x6000 + 92, [0, 0, 0x30, 0x0C])]))"

lemma vmlinux_memory_words:
  "read_mem vmlinux_memory 8 7088 = Some [0, 0x20, 0, 0, 0, 0, 0, 0]"
  "read_mem vmlinux_memory 8 8224 = Some [0, 0x30, 0, 0, 0, 0, 0, 0]"
  "read_mem vmlinux_memory 8 12296 = Some [0, 0x40, 0, 0, 0, 0, 0, 0]"
  "read_mem vmlinux_memory 8 16384 = Some [0, 0x50, 0, 0, 0, 0, 0, 0]"
  "read_mem vmlinux_memory 8 20648 = Some [0, 0x60, 0, 0, 0, 0, 0, 0]"
  "read_mem vmlinux_memory 4 24668 = Some [0, 0, 0x30, 0x0C]"
  by code_simp+

lemma vmlinux_chains_witness:
  "\<exists>s'. watchdog_ioctl reference_kernel vmlinux_offsets 0 (sample_kernel\<lparr>k_mem := vmlinux_memory\<rparr>) = (0, s') \<and>
     (\<exists>t \<ge> 1000. counted ((ref_view sample_kernel)\<lparr>v_clock := t\<rparr>) 42 IOCTL_HIT (ref_view s'))"
proof -
  let ?s = "sample_kernel\<lparr>k_mem := vmlinux_memory\<rparr>"
  obtain r s' where run: "watchdog_ioctl reference_kernel vmlinux_offsets 0 ?s = (r, s')" by fastforce
  have inv: "ref_inv ?s" by (simp add: ref_inv_def sample_kernel_def)
  have "vmlinux_device reference_kernel ?s 0 = Some (mkdev 195 0)"
    unfolding vmlinux_fd_device [symmetric]
    by (simp add: fd_device_def vmlinux_offsets_def vmlinux_member_offsets task_files_offset reference_kernel_def
        sample_kernel_def probe_read_def vmlinux_memory_words u64_at_def u32_at_def bslice_def mkdev_def)
  moreover have "compute_device (mkdev 195 0)" by (simp add: compute_device_def mkdev_def)
  moreover have "ref_view ?s = ref_view sample_kernel" by (simp add: ref_view_def)
  ultimately show ?thesis using vmlinux_chains [OF rk.bpf_runtime_axioms inv run] run by (auto simp: sample_view)
qed

text \<open>
  The chains end at the offsets the model's reads use, and the argument registers and the system call arguments lie at
  the offsets the probes read.
\<close>

lemma vmlinux_layout:
  "core_path vmlinux_env ''struct task_struct'' [''files'', ''fdt''] = Some ([2992, 32], Some (Ptr ''struct fdtable'')) \<and>
   core_path vmlinux_env ''struct fdtable'' [''fd''] = Some ([8], Some (Ptr ''struct file *'')) \<and>
   core_path vmlinux_env ''struct file'' [''f_inode'', ''i_rdev''] = Some ([168, 92], Some typedef_dev_t) \<and>
   sizeof typedef_dev_t = 4 \<and>
   vmlinux_offsets = \<lparr>off_task_files = 2992, off_files_fdt = 32, off_fdt_fd = 8, off_file_inode = 168,
     off_inode_rdev = 92\<rparr> \<and>
   map (\<lambda>i. kprobe_arg i regs) [0..<6] = map (\<lambda>off. u64_at off regs) [112, 104, 96, 88, 72, 64] \<and>
   sys_enter_arg0 regs = u64_at 16 regs"
  by (simp add: core_paths vmlinux_offsets_def vmlinux_member_offsets task_files_offset kernel_layout
      kprobe_arg_def sys_enter_arg0_def arg_registers_def pt_regs_offsets upt_conv_Cons
      del: core_path.simps)

text \<open>
  The three maps are declared with the types, key and value sizes the probes use them with, and the
  ring buffer's capacity is a power of two pages, as its map type demands.
\<close>

lemma map_declarations:
  "start_events_stream = \<lparr>md_type = 1, md_key_size = 8, md_value_size = 8, md_max_entries = 1024\<rparr> \<and>
   ioctl_watchdog_map = \<lparr>md_type = 5, md_key_size = 4, md_value_size = 24, md_max_entries = 1024\<rparr> \<and>
   gpu_ringbuf = \<lparr>md_type = 27, md_key_size = 0, md_value_size = 0, md_max_entries = 4096 * 2 ^ 6\<rparr>"
  by (simp add: start_events_stream_def ioctl_watchdog_map_def gpu_ringbuf_def enum_value_def
      enum_bpf_map_type_def event_layout start_events_stream_max_entries_def
      ioctl_watchdog_map_max_entries_def gpu_ringbuf_max_entries_def)

end
