(* ===== verification/Go_Float.thy ===== *)
theory Go_Float
  imports Complex_Main "HOL-Library.Log_Nat" Prelude
begin

text \<open>
  Go's \<open>float64\<close>, as far as the collectors use it: finite values as rationals, every operation the
  exact result rounded to 53 significant bits, ties to even (IEEE 754 binary64). The collectors only
  convert unsigned 64-bit counters, add, multiply by counters and divide by non-zero counters, so all
  magnitudes stay between \<open>2 ^ -64\<close> and \<open>2 ^ 128\<close>, far from the subnormal and overflow ranges that
  the rounding function leaves out.
  The interface \<open>float_rounding\<close> states what the analysis of the collectors needs of a rounding
  function; \<open>f64_round\<close> is shown to meet it.
\<close>

section \<open>Rounding\<close>

type_synonym f64 = rat

definition ilog2 :: "rat \<Rightarrow> int" where
  "ilog2 x = (if 1 \<le> x then bitlen \<lfloor>x\<rfloor> - 1 else - bitlen (\<lceil>1 / x\<rceil> - 1))"

definition round_half_even :: "rat \<Rightarrow> int" where
  "round_half_even x =
    (let f = \<lfloor>x\<rfloor>; d = x - of_int f in
     if d < 1 / 2 then f else if 1 / 2 < d then f + 1 else if even f then f else f + 1)"

definition f64_round :: "rat \<Rightarrow> f64" where
  "f64_round x =
    (if x = 0 then 0
     else let e = ilog2 \<bar>x\<bar> - 52 in of_int (round_half_even (x / 2 powi e)) * 2 powi e)"

definition f64_add :: "f64 \<Rightarrow> f64 \<Rightarrow> f64" where "f64_add x y = f64_round (x + y)"
definition f64_mul :: "f64 \<Rightarrow> f64 \<Rightarrow> f64" where "f64_mul x y = f64_round (x * y)"
definition f64_div :: "f64 \<Rightarrow> f64 \<Rightarrow> f64" where "f64_div x y = f64_round (x / y)"

text \<open>The conversion \<open>float64(x)\<close> of an unsigned integer.\<close>

definition f64_of :: "u64 \<Rightarrow> f64" where "f64_of w = f64_round (of_nat (unat w))"

section \<open>The interface of a rounding function\<close>

text \<open>Half a unit in the last place of a 53-bit significand.\<close>

definition eps64 :: rat where "eps64 = 1 / 2 ^ 53"

locale float_rounding =
  fixes rnd :: "rat \<Rightarrow> rat"
  assumes rnd_error: "\<bar>rnd x - x\<bar> \<le> eps64 * \<bar>x\<bar>"
    and rnd_mono: "0 \<le> x \<Longrightarrow> x \<le> y \<Longrightarrow> rnd x \<le> rnd y"
    and rnd_exact: "\<bar>m\<bar> \<le> 2 ^ 53 \<Longrightarrow> rnd (of_int m) = of_int m"
begin

lemma rnd_zero [simp]: "rnd 0 = 0"
  using rnd_exact [of 0] by simp

lemma rnd_one [simp]: "rnd 1 = 1"
  using rnd_exact [of 1] by simp

lemma rnd_nonneg: "0 \<le> x \<Longrightarrow> 0 \<le> rnd x"
  using rnd_mono [of 0 x] by simp

lemma rnd_nat: "n \<le> 2 ^ 53 \<Longrightarrow> rnd (of_nat n) = of_nat n"
  using rnd_exact [of "int n"] by simp

lemma rnd_upper: "0 \<le> x \<Longrightarrow> rnd x \<le> (1 + eps64) * x"
  using rnd_error [of x] by (simp add: algebra_simps)

lemma rnd_lower: "0 \<le> x \<Longrightarrow> (1 - eps64) * x \<le> rnd x"
  using rnd_error [of x] by (simp add: algebra_simps)

text \<open>A quotient of converted counters stays in the unit interval.\<close>

lemma rnd_ratio:
  assumes "h \<le> t" "0 < t"
  shows "0 \<le> rnd (rnd (of_nat h) / rnd (of_nat t)) \<and> rnd (rnd (of_nat h) / rnd (of_nat t)) \<le> 1"
proof -
  have "rnd 1 \<le> rnd (of_nat t)" using assms(2) by (intro rnd_mono) auto
  then have t: "0 < rnd (of_nat t)" by simp
  have h: "0 \<le> rnd (of_nat h)" by (rule rnd_nonneg) simp
  have "rnd (of_nat h) \<le> rnd (of_nat t)" using assms(1) by (intro rnd_mono) auto
  then have le1: "rnd (of_nat h) / rnd (of_nat t) \<le> 1" using t by (simp add: field_simps)
  have ge0: "0 \<le> rnd (of_nat h) / rnd (of_nat t)" using t h by simp
  from rnd_mono [OF ge0 le1] rnd_nonneg [OF ge0] show ?thesis by simp
qed

text \<open>
  One step of the running mean the aggregator keeps: the previous mean times the old count, plus the
  new observation, over the new count \<open>Suc n\<close>, each operation rounded.
\<close>

definition mean_step :: "nat \<Rightarrow> rat \<Rightarrow> rat \<Rightarrow> rat" where
  "mean_step n a x = rnd (rnd (rnd (a * of_nat n) + rnd x) / of_nat (Suc n))"

lemma eps64_bounds: "0 < eps64" "eps64 < 1"
  by (simp_all add: eps64_def)

lemma mean_step_nonneg: "0 \<le> a \<Longrightarrow> 0 \<le> x \<Longrightarrow> 0 \<le> mean_step n a x"
  unfolding mean_step_def by (intro rnd_nonneg divide_nonneg_nonneg add_nonneg_nonneg mult_nonneg_nonneg) auto

lemma mean_step_upper:
  assumes "0 \<le> a" "0 \<le> x"
  shows "mean_step n a x * of_nat (Suc n) \<le> (1 + eps64) ^ 3 * (a * of_nat n + x)"
proof -
  let ?u = "1 + eps64"
  let ?p = "rnd (a * of_nat n) + rnd x" and ?k = "of_nat (Suc n) :: rat"
  have p0: "0 \<le> ?p" using assms by (intro add_nonneg_nonneg rnd_nonneg) auto
  have s0: "0 \<le> rnd ?p" using p0 by (rule rnd_nonneg)
  have u: "0 \<le> ?u" using eps64_bounds by simp
  have "rnd (a * of_nat n) \<le> ?u * (a * of_nat n)" using assms by (intro rnd_upper) simp
  moreover have "rnd x \<le> ?u * x" using assms by (intro rnd_upper) simp
  ultimately have p: "?p \<le> ?u * (a * of_nat n + x)" by (simp add: algebra_simps)
  have "mean_step n a x \<le> ?u * (rnd ?p / ?k)" unfolding mean_step_def using s0 by (intro rnd_upper) simp
  then have "mean_step n a x * ?k \<le> ?u * rnd ?p" by (simp add: field_simps)
  also have "\<dots> \<le> ?u * (?u * ?p)" using u rnd_upper [OF p0] by (rule mult_left_mono [rotated])
  also have "\<dots> \<le> ?u * (?u * (?u * (a * of_nat n + x)))"
    using p u by (intro mult_left_mono) auto
  finally show ?thesis by (simp add: power3_eq_cube mult.assoc)
qed

lemma mean_step_lower:
  assumes "0 \<le> a" "0 \<le> x"
  shows "(1 - eps64) ^ 3 * (a * of_nat n + x) \<le> mean_step n a x * of_nat (Suc n)"
proof -
  let ?u = "1 - eps64"
  let ?p = "rnd (a * of_nat n) + rnd x" and ?k = "of_nat (Suc n) :: rat"
  have p0: "0 \<le> ?p" using assms by (intro add_nonneg_nonneg rnd_nonneg) auto
  have s0: "0 \<le> rnd ?p" using p0 by (rule rnd_nonneg)
  have u: "0 \<le> ?u" using eps64_bounds by simp
  have "?u * (a * of_nat n) \<le> rnd (a * of_nat n)" using assms by (intro rnd_lower) simp
  moreover have "?u * x \<le> rnd x" using assms by (intro rnd_lower) simp
  ultimately have p: "?u * (a * of_nat n + x) \<le> ?p" by (simp add: algebra_simps)
  have "?u * (?u * (?u * (a * of_nat n + x))) \<le> ?u * (?u * ?p)"
    using p u by (intro mult_left_mono) auto
  also have "\<dots> \<le> ?u * rnd ?p" using u rnd_lower [OF p0] by (rule mult_left_mono [rotated])
  also have "?u * rnd ?p \<le> mean_step n a x * ?k"
  proof -
    have "?u * (rnd ?p / ?k) \<le> mean_step n a x" unfolding mean_step_def using s0 by (intro rnd_lower) simp
    then show ?thesis by (simp add: field_simps)
  qed
  finally show ?thesis by (simp add: power3_eq_cube mult.assoc)
qed

text \<open>The mean after a whole series of observations.\<close>

primrec running_mean :: "nat \<Rightarrow> rat \<Rightarrow> rat list \<Rightarrow> rat" where
  "running_mean n a [] = a"
| "running_mean n a (x # xs) = running_mean (Suc n) (mean_step n a x) xs"

lemma running_mean_append:
  "running_mean n a (xs @ [x]) = mean_step (n + length xs) (running_mean n a xs) x"
  by (induction xs arbitrary: n a) simp_all

lemma running_mean_bounds:
  assumes "0 \<le> a" "\<forall>x \<in> set xs. 0 \<le> x"
  shows "(1 - eps64) ^ (3 * length xs) * (a * of_nat n + sum_list xs)
      \<le> running_mean n a xs * of_nat (n + length xs)
    \<and> running_mean n a xs * of_nat (n + length xs)
      \<le> (1 + eps64) ^ (3 * length xs) * (a * of_nat n + sum_list xs)"
  using assms
proof (induction xs arbitrary: n a)
  case Nil
  then show ?case by simp
next
  case (Cons x xs)
  let ?m = "mean_step n a x" and ?L = "length xs"
  have x: "0 \<le> x" and m: "0 \<le> ?m" using Cons.prems by (simp_all add: mean_step_nonneg)
  have sx: "0 \<le> sum_list xs" using Cons.prems(2) by (intro sum_list_nonneg) auto
  note IH = Cons.IH [OF m, of "Suc n"]
  have up: "(1 + eps64) ^ (3 * ?L) * (?m * of_nat (Suc n) + sum_list xs)
    \<le> (1 + eps64) ^ (3 * ?L) * ((1 + eps64) ^ 3 * (a * of_nat n + (x + sum_list xs)))"
  proof (rule mult_left_mono)
    have "1 \<le> (1 + eps64) ^ 3" using eps64_bounds by (intro one_le_power) simp
    then have "sum_list xs \<le> (1 + eps64) ^ 3 * sum_list xs"
      using sx by (metis mult_1 mult_right_mono)
    with mean_step_upper [OF Cons.prems(1) x, of n]
    show "?m * of_nat (Suc n) + sum_list xs \<le> (1 + eps64) ^ 3 * (a * of_nat n + (x + sum_list xs))"
      by (simp add: algebra_simps)
  qed (use eps64_bounds in auto)
  have lo: "(1 - eps64) ^ (3 * ?L) * ((1 - eps64) ^ 3 * (a * of_nat n + (x + sum_list xs)))
    \<le> (1 - eps64) ^ (3 * ?L) * (?m * of_nat (Suc n) + sum_list xs)"
  proof (rule mult_left_mono)
    have "(1 - eps64) ^ 3 \<le> 1" using eps64_bounds by (intro power_le_one) auto
    then have "(1 - eps64) ^ 3 * sum_list xs \<le> sum_list xs"
      using sx by (metis mult_1 mult_right_mono)
    with mean_step_lower [OF Cons.prems(1) x, of n]
    show "(1 - eps64) ^ 3 * (a * of_nat n + (x + sum_list xs)) \<le> ?m * of_nat (Suc n) + sum_list xs"
      by (simp add: algebra_simps)
  qed (use eps64_bounds in auto)
  have pow: "c ^ (3 * ?L) * (c ^ 3 * y) = c ^ (3 * length (x # xs)) * y" for c y :: rat
    by (simp add: power_add algebra_simps)
  from IH Cons.prems(2) up lo show ?case unfolding pow by auto
qed

end

section \<open>The rounding function meets the interface\<close>

lemma bitlen_int_bounds: "0 < m \<Longrightarrow> 2 ^ nat (bitlen m - 1) \<le> m \<and> m < 2 ^ nat (bitlen m)"
  using bitlen_bounds [of m] by simp

lemma bitlen_ge_1: "0 < m \<Longrightarrow> 1 \<le> bitlen m"
  using bitlen_nonneg [of m] bitlen_eq_zero_iff [of m] by linarith

lemma ilog2_bounds:
  assumes "0 < x"
  shows "2 powi ilog2 x \<le> x \<and> x < 2 powi (ilog2 x + 1)"
proof (cases "1 \<le> x")
  case True
  then have f: "0 < \<lfloor>x\<rfloor>" by simp
  note b = bitlen_int_bounds [OF f]
  have bl: "1 \<le> bitlen \<lfloor>x\<rfloor>" using f by (rule bitlen_ge_1)
  let ?k = "nat (bitlen \<lfloor>x\<rfloor>)"
  have k: "ilog2 x = int ?k - 1" "1 \<le> ?k" using True bl by (auto simp: ilog2_def)
  have "2 powi ilog2 x = (of_int (2 ^ nat (bitlen \<lfloor>x\<rfloor> - 1)) :: rat)"
    using bl True by (simp add: ilog2_def power_int_def)
  also have "\<dots> \<le> of_int \<lfloor>x\<rfloor>" using b by (simp only: of_int_le_iff)
  also have "\<dots> \<le> x" by simp
  finally have lo: "2 powi ilog2 x \<le> x" .
  have "\<lfloor>x\<rfloor> + 1 \<le> 2 ^ ?k" using b by simp
  then have "of_int (\<lfloor>x\<rfloor> + 1) \<le> (of_int (2 ^ ?k) :: rat)" by (simp only: of_int_le_iff)
  then have "x < of_int (2 ^ ?k)" using floor_correct [of x] by linarith
  also have "of_int (2 ^ ?k) = (2 powi (ilog2 x + 1) :: rat)" using k by (simp add: power_int_def)
  finally show ?thesis using lo by simp
next
  case False
  let ?c = "\<lceil>1 / x\<rceil> - 1"
  have inv: "1 < 1 / x" using False assms by (simp add: field_simps)
  then have c: "0 < ?c" by simp
  note b = bitlen_int_bounds [OF c]
  let ?k = "nat (bitlen ?c)"
  have bl: "1 \<le> bitlen ?c" using c by (rule bitlen_ge_1)
  have il: "ilog2 x = - int ?k" using False bl by (simp add: ilog2_def)
  have "?c + 1 \<le> 2 ^ ?k" using b by simp
  then have "(of_int \<lceil>1 / x\<rceil> :: rat) \<le> of_int (2 ^ ?k)" by (simp only: of_int_le_iff)
  then have "1 / x \<le> of_int (2 ^ ?k)" using le_of_int_ceiling [of "1 / x"] by linarith
  then have lo: "2 powi ilog2 x \<le> x"
    using assms bl unfolding il by (simp add: power_int_minus field_simps power_int_def)
  have "of_int (2 ^ nat (bitlen ?c - 1)) \<le> (of_int ?c :: rat)" using b by (simp only: of_int_le_iff)
  moreover have "of_int ?c < 1 / x" using ceiling_correct [of "1 / x"] by linarith
  ultimately have "of_int (2 ^ nat (bitlen ?c - 1)) < 1 / x" by linarith
  then have "x < 1 / 2 ^ nat (bitlen ?c - 1)" using assms by (simp add: field_simps)
  moreover have "2 powi (ilog2 x + 1) = (1 / 2 ^ nat (bitlen ?c - 1) :: rat)"
  proof -
    have "ilog2 x + 1 = - int (nat (bitlen ?c - 1))" using bl il by simp
    then show ?thesis by (simp only: power_int_minus power_int_of_nat divide_inverse mult_1)
  qed
  ultimately have "x < 2 powi (ilog2 x + 1)" by (simp only:)
  with lo show ?thesis by simp
qed

lemma round_half_even_error: "\<bar>of_int (round_half_even x) - x\<bar> \<le> 1 / 2"
  using floor_correct [of x] by (auto simp: round_half_even_def Let_def abs_le_iff algebra_simps)

lemma round_half_even_of_int [simp]: "round_half_even (of_int m) = m"
  by (simp add: round_half_even_def)

lemma round_half_even_mono:
  assumes "x \<le> y" shows "round_half_even x \<le> round_half_even y"
proof (cases "\<lfloor>x\<rfloor> = \<lfloor>y\<rfloor>")
  case True
  then show ?thesis using assms by (auto simp: round_half_even_def Let_def)
next
  case False
  then have "\<lfloor>x\<rfloor> + 1 \<le> \<lfloor>y\<rfloor>" using floor_mono [OF assms] by simp
  moreover have "round_half_even x \<le> \<lfloor>x\<rfloor> + 1" and "\<lfloor>y\<rfloor> \<le> round_half_even y"
    by (auto simp: round_half_even_def Let_def)
  ultimately show ?thesis by simp
qed

lemma f64_round_error: "\<bar>f64_round x - x\<bar> \<le> eps64 * \<bar>x\<bar>"
proof (cases "x = 0")
  case True
  then show ?thesis by (simp add: f64_round_def)
next
  case False
  let ?e = "ilog2 \<bar>x\<bar> - 52"
  let ?p = "2 powi ?e :: rat"
  have p: "0 < ?p" by simp
  have "f64_round x - x = (of_int (round_half_even (x / ?p)) - x / ?p) * ?p"
    using False p by (simp add: f64_round_def Let_def field_simps)
  then have "\<bar>f64_round x - x\<bar> = \<bar>of_int (round_half_even (x / ?p)) - x / ?p\<bar> * ?p"
    using p by (simp add: abs_mult)
  also have "\<dots> \<le> 1 / 2 * ?p" using p by (intro mult_right_mono round_half_even_error) simp
  also have "1 / 2 * ?p = eps64 * 2 powi ilog2 \<bar>x\<bar>"
    by (simp add: eps64_def power_int_diff)
  also have "\<dots> \<le> eps64 * \<bar>x\<bar>"
    using ilog2_bounds [of "\<bar>x\<bar>"] False by (intro mult_left_mono) (auto simp: eps64_def)
  finally show ?thesis .
qed

lemma f64_round_integer:
  assumes "0 < x" "x = of_int m * 2 powi (ilog2 x - 52)"
  shows "f64_round x = x"
proof -
  let ?p = "2 powi (ilog2 x - 52) :: rat"
  have "x / ?p = of_int m" using assms(2) by (simp add: field_simps)
  then show ?thesis using assms by (simp add: f64_round_def Let_def)
qed

lemma powi_less_imp: "(2::rat) powi a < 2 powi b \<Longrightarrow> a < b"
  using power_int_increasing [of b a "2::rat"] by (rule_tac ccontr) simp

lemma powi_le_imp: "(2::rat) powi a \<le> 2 powi b \<Longrightarrow> a \<le> b"
  using power_int_strict_increasing [of b a "2::rat"] by (rule_tac ccontr) simp

lemma ilog2_unique:
  assumes "0 < x" "2 powi k \<le> x" "x < 2 powi (k + 1)"
  shows "ilog2 x = k"
proof -
  note b = ilog2_bounds [OF assms(1)]
  have "(2::rat) powi k < 2 powi (ilog2 x + 1)" "(2::rat) powi ilog2 x < 2 powi (k + 1)"
    using b assms by linarith+
  then have "k < ilog2 x + 1" "ilog2 x < k + 1"
    by (auto dest: powi_less_imp)
  then show ?thesis by simp
qed

lemma f64_round_minus: "f64_round (- x) = - f64_round x"
proof -
  have "round_half_even (- y) = - round_half_even y" for y :: rat
  proof (cases "y = of_int \<lfloor>y\<rfloor>")
    case True
    then show ?thesis by (metis round_half_even_of_int of_int_minus)
  next
    case False
    then have "of_int \<lfloor>y\<rfloor> < y" "y < of_int \<lfloor>y\<rfloor> + 1" using floor_correct [of y] by linarith+
    then have fl: "\<lfloor>- y\<rfloor> = - \<lfloor>y\<rfloor> - 1" by (intro floor_unique) auto
    show ?thesis unfolding round_half_even_def Let_def fl by (auto simp: algebra_simps)
  qed
  then show ?thesis by (simp add: f64_round_def Let_def)
qed

lemma f64_round_exact:
  assumes "\<bar>m\<bar> \<le> 2 ^ 53"
  shows "f64_round (of_int m) = of_int m"
proof -
  have pos: "f64_round (of_int n) = of_int n" if n: "0 < n" "n \<le> 2 ^ 53" for n
  proof (cases "n = 2 ^ 53")
    case True
    have "ilog2 (of_int n) = 53" unfolding True by (rule ilog2_unique) auto
    then show ?thesis using True by (intro f64_round_integer [of _ "2 ^ 52"]) auto
  next
    case False
    let ?l = "ilog2 (of_int n)"
    have b: "2 powi ?l \<le> (of_int n :: rat)" using ilog2_bounds [of "of_int n"] n by simp
    have "(of_int n :: rat) < of_int (2 ^ 53)" using n False by (simp only: of_int_less_iff)
    then have "(2::rat) powi ?l < 2 powi 53" using b by simp
    then have l: "?l \<le> 52" using powi_less_imp [of ?l 53] by linarith
    have "(of_int n :: rat) = of_int (n * 2 ^ nat (52 - ?l)) * 2 powi (?l - 52)"
    proof -
      have "(2::rat) ^ nat (52 - ?l) = 2 powi (52 - ?l)" using l by (simp add: power_int_def)
      moreover have "(2::rat) powi (52 - ?l) * 2 powi (?l - 52) = 1"
        by (simp flip: power_int_add)
      ultimately show ?thesis by (simp add: mult.assoc)
    qed
    then show ?thesis using n by (intro f64_round_integer [where m = "n * 2 ^ nat (52 - ?l)"]) simp_all
  qed
  consider "m = 0" | "0 < m" | "m < 0" by linarith
  then show ?thesis
  proof cases
    case 1
    then show ?thesis by (simp add: f64_round_def)
  next
    case 2
    with assms show ?thesis by (intro pos) auto
  next
    case 3
    with assms have "f64_round (of_int (- m)) = of_int (- m)" by (intro pos) auto
    then show ?thesis by (simp add: f64_round_minus)
  qed
qed

lemma f64_round_range:
  assumes "0 < x"
  shows "2 powi ilog2 x \<le> f64_round x \<and> f64_round x \<le> 2 powi (ilog2 x + 1)"
proof -
  let ?e = "ilog2 x - 52"
  let ?p = "2 powi ?e :: rat"
  have p: "0 < ?p" by simp
  have lo52: "2 powi ilog2 x = (2 ^ 52 :: rat) * ?p" and hi53: "2 powi (ilog2 x + 1) = (2 ^ 53 :: rat) * ?p"
    by (simp_all add: power_int_diff power_int_add)
  note b = ilog2_bounds [OF assms]
  have "of_int (2 ^ 52) \<le> x / ?p" "x / ?p \<le> of_int (2 ^ 53)"
    using b p unfolding lo52 hi53 by (simp_all add: field_simps)
  then have "2 ^ 52 \<le> round_half_even (x / ?p)" "round_half_even (x / ?p) \<le> 2 ^ 53"
    by (metis round_half_even_mono round_half_even_of_int)+
  then have "(of_int (2 ^ 52) :: rat) \<le> of_int (round_half_even (x / ?p))"
    "(of_int (round_half_even (x / ?p)) :: rat) \<le> of_int (2 ^ 53)"
    by (simp_all only: of_int_le_iff)
  moreover have "f64_round x = of_int (round_half_even (x / ?p)) * ?p"
    using assms by (simp add: f64_round_def Let_def)
  ultimately show ?thesis unfolding lo52 hi53 using p
    by (auto intro!: mult_right_mono)
qed

lemma f64_round_mono:
  assumes "0 \<le> x" "x \<le> y"
  shows "f64_round x \<le> f64_round y"
proof (cases "x = 0")
  case True
  have "0 \<le> f64_round y" if "0 < y"
    using f64_round_range [OF that] zero_less_power_int [of "2::rat" "ilog2 y"] by linarith
  with True assms show ?thesis by (cases "y = 0") (auto simp: f64_round_def)
next
  case False
  with assms have x: "0 < x" and y: "0 < y" by linarith+
  have "(2::rat) powi ilog2 x < 2 powi (ilog2 y + 1)"
    using ilog2_bounds [OF x] ilog2_bounds [OF y] assms by linarith
  then have "ilog2 x \<le> ilog2 y" by (auto dest: powi_less_imp)
  then consider "ilog2 x = ilog2 y" | "ilog2 x + 1 \<le> ilog2 y" by linarith
  then show ?thesis
  proof cases
    case 1
    then have "round_half_even (x / 2 powi (ilog2 x - 52)) \<le> round_half_even (y / 2 powi (ilog2 y - 52))"
      using assms by (auto intro!: round_half_even_mono divide_right_mono)
    then show ?thesis using x y 1 by (simp add: f64_round_def Let_def mult_right_mono)
  next
    case 2
    then have "(2::rat) powi (ilog2 x + 1) \<le> 2 powi ilog2 y" by (intro power_int_increasing) auto
    then show ?thesis using f64_round_range [OF x] f64_round_range [OF y] by linarith
  qed
qed

interpretation f64: float_rounding f64_round
  by unfold_locales (fact f64_round_error, fact f64_round_mono, fact f64_round_exact)

end
