(* ===== verification/Go_Time.thy ===== *)
theory Go_Time
  imports Prelude
begin

text \<open>
  Clock readings of Go's package \<open>time\<close>, as the collectors use them. A \<open>time.Time\<close> that \<open>time.Now\<close>
  returns carries two readings in nanoseconds: the wall clock, since the Unix epoch, and the monotonic clock, since
  some earlier instant. \<open>Add\<close> moves both; \<open>After\<close> and \<open>Sub\<close> of two such times compare and subtract the
  monotonic readings only; \<open>UnixNano\<close> returns the wall reading as an \<open>int64\<close>, wrapping. The wall clock may be set
  at any moment, so nothing relates the two readings of different times. Readings are integers: Go drops the
  monotonic reading of a sum that exceeds an \<open>int64\<close> and limits a difference to one, which takes a window that
  ends more than 292 years after the machine was started.
\<close>

section \<open>Times\<close>

datatype gotime = Time (wall: int) (mono: int)

definition Add :: "gotime \<Rightarrow> int \<Rightarrow> gotime" where
  "Add t d = Time (wall t + d) (mono t + d)"

definition After :: "gotime \<Rightarrow> gotime \<Rightarrow> bool" where
  "After t u \<longleftrightarrow> mono t > mono u"

definition Sub :: "gotime \<Rightarrow> gotime \<Rightarrow> int" where
  "Sub t u = mono t - mono u"

definition UnixNano :: "gotime \<Rightarrow> int" where
  "UnixNano t = sint (word_of_int (wall t) :: 64 word)"

text \<open>A literal stands for a time both readings of which it is.\<close>

instantiation gotime :: "{zero, one, plus}"
begin

definition zero_gotime :: gotime where "zero_gotime = Time 0 0"
definition one_gotime :: gotime where "one_gotime = Time 1 1"
definition plus_gotime :: "gotime \<Rightarrow> gotime \<Rightarrow> gotime" where
  "plus_gotime t u = Time (wall t + wall u) (mono t + mono u)"

instance ..

end

instance gotime :: numeral
  by intro_classes (simp add: plus_gotime_def add.assoc)

section \<open>Calculation\<close>

lemma time_numeral [simp]: "wall (numeral n) = numeral n" "mono (numeral n) = numeral n"
  by (induction n) (simp_all add: numeral.simps one_gotime_def plus_gotime_def)

lemma time_zero_one [simp]:
  "wall 0 = 0" "mono 0 = 0" "wall 1 = 1" "mono 1 = 1"
  by (simp_all add: zero_gotime_def one_gotime_def)

lemma Add_parts [simp]: "wall (Add t d) = wall t + d" "mono (Add t d) = mono t + d"
  by (simp_all add: Add_def)

lemma Sub_Add [simp]: "Sub (Add t d) t = d"
  by (simp add: Sub_def)

lemma After_Add: "After t (Add u d) \<longleftrightarrow> mono u + d < mono t"
  by (simp add: After_def)

lemma Add_numeral [simp]:
  "Add 0 (numeral n) = numeral n" "Add 1 (numeral n) = numeral (Num.One + n)"
  "Add (numeral m) (numeral n) = numeral (m + n)"
  by (rule gotime.expand, simp)+

lemma UnixNano_exact: "- (2 ^ 63) \<le> wall t \<Longrightarrow> wall t < 2 ^ 63 \<Longrightarrow> UnixNano t = wall t"
  unfolding UnixNano_def by (subst signed_of_int) (simp add: signed_take_bit_int_eq_self)

lemma UnixNano_numeral [simp]:
  "UnixNano 0 = 0" "UnixNano 1 = 1" "(numeral n :: int) < 2 ^ 63 \<Longrightarrow> UnixNano (numeral n) = numeral n"
  by (simp_all add: UnixNano_exact)

end
