(* ===== verification/Collector.thy ===== *)
theory Collector
  imports Go_Events Go_Float Go_Time
begin

text \<open>
  What the two collectors share: the protobuf messages they produce (\<open>internal/grpc/pb\<close>), and the
  interface \<open>Gpu_collectors\<close> of \<open>pkg/types/collectors.go\<close> with the law its implementations owe the
  loader: every event a collector takes is reported in exactly one batch. The law is stated on the number
  of events per process, and the conservation theorem over any interleaving of updates and flushes is
  proved once, inside the interface.
\<close>

section \<open>Messages\<close>

record GpuEventToken =
  tok_timestamp :: int
  tok_event_type :: int
  tok_value :: f64
  tok_dir :: int

record GpuTimeWindow =
  tw_window_start_ns :: int
  tw_window_end_ns :: int
  tw_kernel_launch_count :: u64
  tw_mem_alloc_count :: u64
  tw_memcpy_count :: u64
  tw_stream_sync_count :: u64
  tw_avg_threads_per_kernel :: f64
  tw_max_threads_per_kernel :: u64
  tw_avg_blocks_per_kernel :: f64
  tw_total_threads_launched :: u64
  tw_total_mem_alloc_bytes :: u64
  tw_avg_mem_alloc_bytes :: f64
  tw_total_memcpy_bytes :: u64
  tw_avg_memcpy_bytes :: f64
  tw_htod_bytes :: u64
  tw_dtoh_bytes :: u64
  tw_htod_ratio :: f64
  tw_avg_sync_time_ns :: f64
  tw_max_sync_time_ns :: u64
  tw_sync_fraction :: f64
  tw_launch_rate :: f64
  tw_memcpy_rate :: f64
  tw_alloc_rate :: f64

datatype payload = Token GpuEventToken | Tw GpuTimeWindow

record GpuEvent =
  ge_pid :: u32
  ge_comm :: bytes
  ge_event_type :: string
  ge_payload :: payload

record GpuBatch =
  gb_type :: string
  gb_batch :: "GpuEvent list"

section \<open>Accounting\<close>

text \<open>The process an event belongs to, if a collector takes it.\<close>

fun event_pid :: "gpu_event \<Rightarrow> u32 option" where
  "event_pid (KernelLaunchEvent e) = Some (Pid e)"
| "event_pid (MemallocEvent e) = Some (Pid e)"
| "event_pid (MemcpyEvent e) = Some (Pid e)"
| "event_pid (StreamEvent e) = Some (Pid e)"
| "event_pid OtherEvent = None"

text \<open>How many observed events a message stands for, on the width of its counters.\<close>

fun payload_events :: "payload \<Rightarrow> u64" where
  "payload_events (Token tk) = 1"
| "payload_events (Tw w) = tw_kernel_launch_count w + tw_mem_alloc_count w + tw_memcpy_count w +
     tw_stream_sync_count w"

definition events_for :: "u32 \<Rightarrow> GpuEvent list \<Rightarrow> u64" where
  "events_for p es = sum_list (map (\<lambda>e. payload_events (ge_payload e)) (filter (\<lambda>e. ge_pid e = p) es))"

definition batch_events :: "u32 \<Rightarrow> GpuBatch option \<Rightarrow> u64" where
  "batch_events p b = (case b of None \<Rightarrow> 0 | Some b \<Rightarrow> events_for p (gb_batch b))"

lemma events_for_simps [simp]:
  "events_for p [] = 0"
  "events_for p (e # es) = (if ge_pid e = p then payload_events (ge_payload e) else 0) + events_for p es"
  "events_for p (es @ fs) = events_for p es + events_for p fs"
  by (simp_all add: events_for_def)

text \<open>The order in which a Go \<open>range\<close> visits a map: every key once.\<close>

definition iterates :: "'a list \<Rightarrow> ('a \<rightharpoonup> 'b) \<Rightarrow> bool" where
  "iterates order m \<longleftrightarrow> distinct order \<and> set order = dom m"

section \<open>The interface\<close>

text \<open>
  Operations of a collector over its life: an event arrives, or the ticker fires. The collectors' mutex
  makes each of them atomic. \<open>'t\<close> and \<open>'f\<close> are what the two read from the runtime (the clock;
  the clock and the iteration order of a map).
\<close>

datatype ('t, 'f) collector_op = Arrive 't gpu_event | Tick 'f

fun collector_run ::
  "('t \<Rightarrow> gpu_event \<Rightarrow> 's \<Rightarrow> 's) \<Rightarrow> ('f \<Rightarrow> 's \<Rightarrow> GpuBatch option \<times> 's) \<Rightarrow>
    ('t, 'f) collector_op list \<Rightarrow> 's \<Rightarrow> GpuBatch list \<times> 's" where
  "collector_run update flush [] s = ([], s)"
| "collector_run update flush (Arrive t ev # ops) s = collector_run update flush ops (update t ev s)"
| "collector_run update flush (Tick f # ops) s =
     (let (b, s) = flush f s; (bs, s) = collector_run update flush ops s
      in (case b of None \<Rightarrow> bs | Some b \<Rightarrow> b # bs, s))"

fun arrivals :: "u32 \<Rightarrow> ('t, 'f) collector_op list \<Rightarrow> nat" where
  "arrivals p [] = 0"
| "arrivals p (Arrive t ev # ops) = (if event_pid ev = Some p then 1 else 0) + arrivals p ops"
| "arrivals p (Tick f # ops) = arrivals p ops"

text \<open>Every flush of the run gets an argument that fits the state it runs in.\<close>

fun ticks_fit ::
  "('t \<Rightarrow> gpu_event \<Rightarrow> 's \<Rightarrow> 's) \<Rightarrow> ('f \<Rightarrow> 's \<Rightarrow> GpuBatch option \<times> 's) \<Rightarrow> ('f \<Rightarrow> 's \<Rightarrow> bool) \<Rightarrow>
    ('t, 'f) collector_op list \<Rightarrow> 's \<Rightarrow> bool" where
  "ticks_fit update flush fits [] s = True"
| "ticks_fit update flush fits (Arrive t ev # ops) s = ticks_fit update flush fits ops (update t ev s)"
| "ticks_fit update flush fits (Tick f # ops) s =
     (fits f s \<and> ticks_fit update flush fits ops (snd (flush f s)))"

text \<open>Runs in two parts, and the events of a run.\<close>

lemma collector_run_append:
  "collector_run update flush (ops @ ops') s =
    (let (bs, s1) = collector_run update flush ops s; (bs', s2) = collector_run update flush ops' s1
     in (bs @ bs', s2))"
proof (induction ops arbitrary: s)
  case (Cons opn ops)
  then show ?case by (cases opn) (simp_all add: Let_def case_prod_unfold split: option.splits)
qed simp

lemma ticks_fit_append:
  "ticks_fit update flush fits (ops @ ops') s \<longleftrightarrow>
    ticks_fit update flush fits ops s \<and> ticks_fit update flush fits ops' (snd (collector_run update flush ops s))"
proof (induction ops arbitrary: s)
  case (Cons opn ops)
  then show ?case by (cases opn) (simp_all add: Let_def case_prod_unfold)
qed simp

fun arrived :: "('t, 'f) collector_op list \<Rightarrow> gpu_event list" where
  "arrived [] = []"
| "arrived (Arrive t ev # ops) = ev # arrived ops"
| "arrived (Tick f # ops) = arrived ops"

definition events_count :: "u32 \<Rightarrow> gpu_event list \<Rightarrow> nat" where
  "events_count p evs = length (filter (\<lambda>ev. event_pid ev = Some p) evs)"

lemma arrived_append [simp]: "arrived (ops @ ops') = arrived ops @ arrived ops'"
  by (induction ops rule: arrived.induct) simp_all

lemma events_count_append [simp]: "events_count p (xs @ ys) = events_count p xs + events_count p ys"
  by (simp add: events_count_def)

lemma arrivals_arrived: "arrivals p ops = events_count p (arrived ops)"
  by (induction p ops rule: arrivals.induct) (simp_all add: events_count_def)

text \<open>
  What a message and an event are worth in a commutative monoid, and a collector that keeps the worth of its
  events: what it has reported and what is pending is what has arrived.
\<close>

definition messages :: "(payload \<Rightarrow> 'm::comm_monoid_add) \<Rightarrow> u32 \<Rightarrow> GpuEvent list \<Rightarrow> 'm" where
  "messages message p es = sum_list (map (\<lambda>e. message (ge_payload e)) (filter (\<lambda>e. ge_pid e = p) es))"

definition worth_of :: "(gpu_event \<Rightarrow> 'm::comm_monoid_add) \<Rightarrow> u32 \<Rightarrow> gpu_event list \<Rightarrow> 'm" where
  "worth_of worth p evs = sum_list (map worth (filter (\<lambda>ev. event_pid ev = Some p) evs))"

definition batches_worth :: "(payload \<Rightarrow> 'm::comm_monoid_add) \<Rightarrow> u32 \<Rightarrow> GpuBatch list \<Rightarrow> 'm" where
  "batches_worth message p bs = sum_list (map (\<lambda>b. messages message p (gb_batch b)) bs)"

lemma messages_simps [simp]:
  "messages message p [] = 0"
  "messages message p (e # es) = (if ge_pid e = p then message (ge_payload e) else 0) + messages message p es"
  by (simp_all add: messages_def)

lemma worth_of_simps [simp]:
  "worth_of worth p [] = 0"
  "worth_of worth p (ev # evs) = (if event_pid ev = Some p then worth ev else 0) + worth_of worth p evs"
  "worth_of worth p (xs @ ys) = worth_of worth p xs + worth_of worth p ys"
  by (simp_all add: worth_of_def)

lemma batches_worth_simps [simp]:
  "batches_worth message p [] = 0"
  "batches_worth message p (b # bs) = messages message p (gb_batch b) + batches_worth message p bs"
  "batches_worth message p (bs @ cs) = batches_worth message p bs + batches_worth message p cs"
  by (simp_all add: batches_worth_def)

lemma events_for_messages: "events_for p es = messages payload_events p es"
  by (simp add: events_for_def messages_def)

lemma arrivals_worth: "of_nat (arrivals p ops) = (worth_of (\<lambda>_. 1) p (arrived ops) :: u64)"
  by (induction p ops rule: arrivals.induct) simp_all

locale measured_collector =
  fixes update :: "'t \<Rightarrow> gpu_event \<Rightarrow> 's \<Rightarrow> 's"
    and flush :: "'f \<Rightarrow> 's \<Rightarrow> GpuBatch option \<times> 's"
    and pending :: "u32 \<Rightarrow> 's \<Rightarrow> 'm::comm_monoid_add"
    and inv :: "'s \<Rightarrow> bool"
    and fits :: "'f \<Rightarrow> 's \<Rightarrow> bool"
    and worth :: "gpu_event \<Rightarrow> 'm"
    and message :: "payload \<Rightarrow> 'm"
  assumes keeps_update: "inv s \<Longrightarrow> inv (update t ev s)"
    and keeps_flush: "inv s \<Longrightarrow> fits f s \<Longrightarrow> inv (snd (flush f s))"
    and update_worth: "inv s \<Longrightarrow>
      pending p (update t ev s) = pending p s + (if event_pid ev = Some p then worth ev else 0)"
    and flush_worth: "inv s \<Longrightarrow> fits f s \<Longrightarrow>
      (case fst (flush f s) of None \<Rightarrow> 0 | Some b \<Rightarrow> messages message p (gb_batch b)) + pending p (snd (flush f s)) =
      pending p s"
begin

lemma run_keeps: "inv s \<Longrightarrow> ticks_fit update flush fits ops s \<Longrightarrow> inv (snd (collector_run update flush ops s))"
proof (induction ops arbitrary: s)
  case (Cons opn ops)
  then show ?case by (cases opn) (simp_all add: Let_def case_prod_unfold keeps_update keeps_flush)
qed simp

text \<open>Nothing is lost and nothing is reported twice.\<close>

lemma run_worth:
  assumes "inv s" and "ticks_fit update flush fits ops s"
  shows "batches_worth message p (fst (collector_run update flush ops s)) +
      pending p (snd (collector_run update flush ops s)) =
    pending p s + worth_of worth p (arrived ops)"
  using assms
proof (induction ops arbitrary: s)
  case (Cons opn ops)
  show ?case
  proof (cases opn)
    case (Arrive t ev)
    with Cons.IH [of "update t ev s"] Cons.prems show ?thesis
      by (simp add: keeps_update update_worth ac_simps)
  next
    case (Tick f)
    obtain b s1 where f: "flush f s = (b, s1)" by fastforce
    with Cons.prems Tick have "inv s1" "ticks_fit update flush fits ops s1" using keeps_flush [of s f] by auto
    note run = Cons.IH [OF this]
    have "pending p s = (case b of None \<Rightarrow> 0 | Some b \<Rightarrow> messages message p (gb_batch b)) + pending p s1"
      using flush_worth [of s f p] Cons.prems Tick f by simp
    with run Tick f show ?thesis by (cases b) (simp_all add: Let_def case_prod_unfold ac_simps)
  qed
qed simp

end

locale gpu_collector =
  fixes update :: "'t \<Rightarrow> gpu_event \<Rightarrow> 's \<Rightarrow> 's"
    and flush :: "'f \<Rightarrow> 's \<Rightarrow> GpuBatch option \<times> 's"
    and pending :: "u32 \<Rightarrow> 's \<Rightarrow> u64"
    and inv :: "'s \<Rightarrow> bool"
    and fits :: "'f \<Rightarrow> 's \<Rightarrow> bool"
  assumes update_inv: "inv s \<Longrightarrow> inv (update t ev s)"
    and update_pending: "inv s \<Longrightarrow>
      pending p (update t ev s) = pending p s + (if event_pid ev = Some p then 1 else 0)"
    and flush_inv: "inv s \<Longrightarrow> fits f s \<Longrightarrow> inv (snd (flush f s))"
    and flush_pending: "inv s \<Longrightarrow> fits f s \<Longrightarrow>
      batch_events p (fst (flush f s)) + pending p (snd (flush f s)) = pending p s"
    and flush_nonempty: "fst (flush f s) = Some b \<Longrightarrow> gb_batch b \<noteq> []"

text \<open>The events counted on 64 bits are one such worth.\<close>

sublocale gpu_collector \<subseteq> counted: measured_collector update flush pending inv fits "\<lambda>_. 1" payload_events
  by unfold_locales
    (simp_all add: update_inv update_pending flush_inv flush_pending
      [unfolded batch_events_def events_for_messages])

context gpu_collector
begin

lemma run_inv: "inv s \<Longrightarrow> ticks_fit update flush fits ops s \<Longrightarrow> inv (snd (collector_run update flush ops s))"
  by (rule counted.run_keeps)

lemma run_conserves:
  assumes "inv s" and "ticks_fit update flush fits ops s"
  shows "sum_list (map (\<lambda>b. events_for p (gb_batch b)) (fst (collector_run update flush ops s)))
      + pending p (snd (collector_run update flush ops s))
    = pending p s + of_nat (arrivals p ops)"
  using counted.run_worth [OF assms, of p] by (simp add: batches_worth_def events_for_messages arrivals_worth)

lemma run_batches_nonempty: "b \<in> set (fst (collector_run update flush ops s)) \<Longrightarrow> gb_batch b \<noteq> []"
proof (induction ops arbitrary: s rule: arrivals.induct [of _ undefined])
  case (3 p f ops)
  obtain b' s1 where f: "flush f s = (b', s1)" by fastforce
  obtain bs s2 where r: "collector_run update flush ops s1 = (bs, s2)" by fastforce
  from 3 f r have "b' = Some b \<or> b \<in> set bs" by (auto split: option.splits)
  then show ?case using flush_nonempty [of f s b] "3.IH" [of s1] f r by auto
qed auto

end

text \<open>A sample event, for the witnesses.\<close>

definition sample_copy :: gpu_event where
  "sample_copy = MemcpyEvent \<lparr>Flag = 3, Pad = [0, 0, 0], Pid = 42, Comm = replicate 150 0, CopySize = 512, Kind = 0\<rparr>"

end
