(* ===== verification/Timeserie.thy ===== *)
theory Timeserie
  imports Collector
begin

text \<open>
  The time-series collector (\<open>internal/collector/timeserie\<close>): one token per event, buffered per
  process and sent as one batch per tick. \<open>now\<close> is the result of \<open>time.Now()\<close>;
  \<open>b2s\<close> is \<open>unix.ByteSliceToString\<close>, a library function; \<open>order\<close> is the order in which Go happens
  to iterate over the buffers.
\<close>

section \<open>Tokens\<close>

definition EventToToken :: "gotime \<Rightarrow> gpu_event \<Rightarrow> GpuEventToken option" where
  "EventToToken t ev =
    (let now = UnixNano t in case ev of
       KernelLaunchEvent e \<Rightarrow> Some
         \<lparr>tok_timestamp = now, tok_event_type = types_EVENT_GPU_KERNEL_LAUNCH,
          tok_value = f64_of (TotalThreads e), tok_dir = 0\<rparr>
     | MemallocEvent e \<Rightarrow> Some
         \<lparr>tok_timestamp = now, tok_event_type = types_EVENT_GPU_MALLOC,
          tok_value = f64_of (ByteSize e), tok_dir = 0\<rparr>
     | MemcpyEvent e \<Rightarrow>
         (let dir = types_DIR_DTOH;
              dir = (if uint (Kind e) = types_DIR_HTOD then types_DIR_HTOD else dir)
          in Some \<lparr>tok_timestamp = now, tok_event_type = types_EVENT_GPU_MEMCPY,
               tok_value = f64_of (CopySize e), tok_dir = dir\<rparr>)
     | StreamEvent e \<Rightarrow> Some
         \<lparr>tok_timestamp = now, tok_event_type = types_EVENT_GPU_STREAM_SYNC,
          tok_value = f64_of (DeltaNs e), tok_dir = 0\<rparr>
     | OtherEvent \<Rightarrow> None)"

section \<open>State and operations\<close>

record TimeSeriesCollector =
  buffers :: "u32 \<rightharpoonup> GpuEventToken list"
  comms :: "u32 \<rightharpoonup> bytes"
  flushInterval :: int

definition NewTimeSeriesCollector :: "int \<Rightarrow> TimeSeriesCollector" where
  "NewTimeSeriesCollector t = \<lparr>buffers = Map.empty, comms = Map.empty, flushInterval = t\<rparr>"

definition tc_put :: "u32 \<Rightarrow> bytes \<Rightarrow> GpuEventToken \<Rightarrow> TimeSeriesCollector \<Rightarrow> TimeSeriesCollector" where
  "tc_put pid comm token tc =
    tc\<lparr>buffers := (buffers tc)(pid \<mapsto>
         (case buffers tc pid of None \<Rightarrow> [] | Some tks \<Rightarrow> tks) @ [token]),
       comms := (comms tc)(pid \<mapsto> comm)\<rparr>"

definition tc_Update ::
  "(bytes \<Rightarrow> bytes) \<Rightarrow> gotime \<Rightarrow> gpu_event \<Rightarrow> TimeSeriesCollector \<Rightarrow> TimeSeriesCollector" where
  "tc_Update b2s now ev tc =
    (case EventToToken now ev of
       None \<Rightarrow> tc
     | Some token \<Rightarrow>
        (case ev of
           KernelLaunchEvent e \<Rightarrow> tc_put (Pid e) (b2s (Comm e)) token tc
         | MemallocEvent e \<Rightarrow> tc_put (Pid e) (b2s (Comm e)) token tc
         | MemcpyEvent e \<Rightarrow> tc_put (Pid e) (b2s (Comm e)) token tc
         | StreamEvent e \<Rightarrow> tc_put (Pid e) (b2s (Comm e)) token tc
         | OtherEvent \<Rightarrow> tc))"

definition pid_events :: "TimeSeriesCollector \<Rightarrow> u32 \<Rightarrow> GpuEvent list" where
  "pid_events tc pid =
    map (\<lambda>tk. \<lparr>ge_pid = pid, ge_comm = (case comms tc pid of None \<Rightarrow> [] | Some c \<Rightarrow> c),
               ge_event_type = ''timeserie'', ge_payload = Token tk\<rparr>)
      (case buffers tc pid of None \<Rightarrow> [] | Some tks \<Rightarrow> tks)"

definition tc_Flush :: "u32 list \<Rightarrow> TimeSeriesCollector \<Rightarrow> GpuBatch option \<times> TimeSeriesCollector" where
  "tc_Flush order tc =
    (let events = concat (map (pid_events tc) order);
         tc = tc\<lparr>buffers := Map.empty, comms := Map.empty\<rparr>
     in if length events = 0 then (None, tc)
        else (Some \<lparr>gb_type = ''gpu_time_series'', gb_batch = events\<rparr>, tc))"

section \<open>Accounting\<close>

definition tc_pending :: "u32 \<Rightarrow> TimeSeriesCollector \<Rightarrow> u64" where
  "tc_pending pid tc = (case buffers tc pid of None \<Rightarrow> 0 | Some tks \<Rightarrow> of_nat (length tks))"

lemma events_for_pid_events:
  "events_for p (pid_events tc pid) = (if pid = p then tc_pending p tc else 0)"
proof -
  have "sum_list (map (\<lambda>e. 1) tks) = (of_nat (length tks) :: u64)" for tks :: "GpuEventToken list"
    by (induction tks) simp_all
  then show ?thesis
    by (auto simp: events_for_def pid_events_def tc_pending_def comp_def filter_map split: option.splits)
qed

lemma events_for_concat:
  "distinct order \<Longrightarrow> events_for p (concat (map (pid_events tc) order)) =
    (if p \<in> set order then tc_pending p tc else 0)"
  by (induction order) (auto simp: events_for_pid_events)

lemma tc_Flush_pending:
  assumes "iterates order (buffers tc)"
  shows "batch_events p (fst (tc_Flush order tc)) = tc_pending p tc"
proof -
  have "events_for p (concat (map (pid_events tc) order)) = tc_pending p tc"
    using assms by (auto simp: events_for_concat iterates_def tc_pending_def split: option.splits)
  then show ?thesis
    by (cases "concat (map (pid_events tc) order)")
      (simp_all add: tc_Flush_def batch_events_def Let_def del: concat_eq_Nil_conv)
qed

lemma tc_Update_pending:
  "tc_pending p (tc_Update b2s now ev tc) =
    tc_pending p tc + (if event_pid ev = Some p then 1 else 0)"
  by (cases ev)
    (auto simp: tc_Update_def EventToToken_def tc_put_def tc_pending_def Let_def split: option.splits)

interpretation ts: gpu_collector "tc_Update b2s" tc_Flush tc_pending "\<lambda>_. True"
    "\<lambda>order tc. iterates order (buffers tc)"
proof (unfold_locales, goal_cases)
  case 2
  show ?case by (rule tc_Update_pending)
next
  case (4 s f p)
  then show ?case using tc_Flush_pending [of f s p]
    by (simp add: tc_Flush_def Let_def tc_pending_def)
next
  case (5 f s b)
  then show ?case by (auto simp: tc_Flush_def Let_def split: if_splits)
qed simp_all

section \<open>What a batch holds\<close>

text \<open>The tokens a series of arrivals gives a process, in order.\<close>

fun tokens_of :: "u32 \<Rightarrow> (gotime \<times> gpu_event) list \<Rightarrow> GpuEventToken list" where
  "tokens_of p [] = []"
| "tokens_of p ((now, ev) # arr) =
     (if event_pid ev = Some p then the (EventToToken now ev) # tokens_of p arr else tokens_of p arr)"

text \<open>The arrivals of a run after its last flush, behind \<open>arr\<close>.\<close>

fun since_flush ::
  "(gotime \<times> gpu_event) list \<Rightarrow> (gotime, u32 list) collector_op list \<Rightarrow> (gotime \<times> gpu_event) list" where
  "since_flush arr [] = arr"
| "since_flush arr (Arrive now ev # ops) = since_flush (arr @ [(now, ev)]) ops"
| "since_flush arr (Tick order # ops) = since_flush [] ops"

definition buffered :: "TimeSeriesCollector \<Rightarrow> u32 \<Rightarrow> GpuEventToken list" where
  "buffered tc p = (case buffers tc p of None \<Rightarrow> [] | Some tks \<Rightarrow> tks)"

lemma buffered_Update:
  "buffered (tc_Update b2s now ev tc) p = buffered tc p @ tokens_of p [(now, ev)]"
  by (cases ev) (auto simp: buffered_def tc_Update_def EventToToken_def tc_put_def Let_def
      split: option.splits)

lemma tokens_of_append: "tokens_of p (arr @ arr') = tokens_of p arr @ tokens_of p arr'"
  by (induction p arr rule: tokens_of.induct) simp_all

lemma buffered_Flush: "buffered (snd (tc_Flush order tc)) p = []"
  by (simp add: buffered_def tc_Flush_def Let_def)

lemma run_buffered:
  "(\<And>p. buffered tc p = tokens_of p arr) \<Longrightarrow>
    buffered (snd (collector_run (tc_Update b2s) tc_Flush ops tc)) p = tokens_of p (since_flush arr ops)"
proof (induction ops arbitrary: arr tc)
  case (Cons opn ops)
  show ?case
  proof (cases opn)
    case (Arrive now ev)
    have "\<And>p. buffered (tc_Update b2s now ev tc) p = tokens_of p (arr @ [(now, ev)])"
      by (simp add: Cons.prems buffered_Update tokens_of_append)
    from Cons.IH [OF this] Arrive show ?thesis by simp
  next
    case (Tick order)
    from Cons.IH [of "snd (tc_Flush order tc)" "[]"] Tick show ?thesis
      by (simp add: buffered_Flush Let_def case_prod_unfold)
  qed
qed simp

lemma pid_events_payloads:
  "map ge_payload (filter (\<lambda>e. ge_pid e = p) (pid_events tc pid)) =
    (if pid = p then map Token (buffered tc p) else [])"
  by (auto simp: pid_events_def buffered_def comp_def filter_map split: option.splits)

lemma concat_payloads:
  "distinct order \<Longrightarrow>
    map ge_payload (filter (\<lambda>e. ge_pid e = p) (concat (map (pid_events tc) order))) =
    (if p \<in> set order then map Token (buffered tc p) else [])"
  by (induction order) (auto simp: pid_events_payloads filter_concat)

lemma flush_tokens:
  assumes "iterates order (buffers tc)"
  shows "(\<forall>p. map ge_payload (filter (\<lambda>e. ge_pid e = p)
        (case fst (tc_Flush order tc) of None \<Rightarrow> [] | Some b \<Rightarrow> gb_batch b)) = map Token (buffered tc p)) \<and>
      (fst (tc_Flush order tc) = None \<longleftrightarrow> (\<forall>p. buffered tc p = [])) \<and>
      (\<forall>p. buffered (snd (tc_Flush order tc)) p = [])"
proof -
  let ?es = "concat (map (pid_events tc) order)"
  have es: "(case fst (tc_Flush order tc) of None \<Rightarrow> [] | Some b \<Rightarrow> gb_batch b) = ?es"
    "fst (tc_Flush order tc) = None \<longleftrightarrow> ?es = []"
    by (simp_all add: tc_Flush_def Let_def del: concat_eq_Nil_conv)
  have p: "map ge_payload (filter (\<lambda>e. ge_pid e = p) ?es) = map Token (buffered tc p)" for p
    using assms by (auto simp: concat_payloads iterates_def buffered_def split: option.splits)
  have "?es = [] \<longleftrightarrow> (\<forall>p. buffered tc p = [])"
  proof
    assume all: "\<forall>p. buffered tc p = []"
    have "pid_events tc p = []" for p
      using all by (simp add: pid_events_def buffered_def)
    then show "?es = []" by simp
  next
    assume "?es = []"
    then have "map Token (buffered tc p) = []" for p unfolding p [symmetric] by simp
    then show "\<forall>p. buffered tc p = []" by simp
  qed
  with es p show ?thesis by (simp add: buffered_Flush del: concat_eq_Nil_conv)
qed

lemma tc_batch_tokens:
  assumes "iterates order (buffers tc)" and "tc_Flush order tc = (Some b, tc')"
  shows "map ge_payload (filter (\<lambda>e. ge_pid e = p) (gb_batch b)) = map Token (buffered tc p)"
  using conjunct1 [OF flush_tokens [OF assms(1)], THEN spec, of p] assms(2) by simp

section \<open>Properties\<close>

text \<open>
  The time-series collector reports every event once: over any interleaving of arrivals and
  ticks, the tokens of a process in the batches plus those still buffered are its arrivals.
\<close>

lemma timeserie_conserves:
  assumes "ticks_fit (tc_Update b2s) tc_Flush (\<lambda>order tc. iterates order (buffers tc)) ops
      (NewTimeSeriesCollector interval)"
  shows "sum_list (map (\<lambda>b. events_for p (gb_batch b))
        (fst (collector_run (tc_Update b2s) tc_Flush ops (NewTimeSeriesCollector interval))))
      + tc_pending p (snd (collector_run (tc_Update b2s) tc_Flush ops (NewTimeSeriesCollector interval)))
    = of_nat (arrivals p ops)"
proof -
  have "tc_pending p (NewTimeSeriesCollector interval) = 0"
    by (simp add: tc_pending_def NewTimeSeriesCollector_def)
  with ts.run_conserves [OF _ assms, of p] show ?thesis by simp
qed

lemma timeserie_conserves_witness:
  "(let r = collector_run (tc_Update (\<lambda>c. c)) tc_Flush [Arrive 1 sample_copy, Tick [42], Arrive 2 sample_copy]
        (NewTimeSeriesCollector 5)
    in sum_list (map (\<lambda>b. events_for 42 (gb_batch b)) (fst r)) + tc_pending 42 (snd r)) = 2"
  using timeserie_conserves [of "\<lambda>c. c" "[Arrive 1 sample_copy, Tick [42], Arrive 2 sample_copy]" 5 42]
  by (simp add: sample_copy_def tc_Update_def EventToToken_def tc_put_def tc_Flush_def
      NewTimeSeriesCollector_def iterates_def Let_def pid_events_def)

text \<open>
  C17: In any run of arrivals and flushes, the batch of a flush holds, for every process, exactly the tokens of the
  events that arrived since the flush before it, in order of arrival, each with the value, direction and clock
  reading of its event; there is no batch when there are none, and nothing is left buffered.
\<close>

lemma timeserie_batch_is_history:
  assumes "ticks_fit (tc_Update b2s) tc_Flush (\<lambda>order tc. iterates order (buffers tc)) (ops @ [Tick order])
      (NewTimeSeriesCollector interval)"
  shows "let tc = snd (collector_run (tc_Update b2s) tc_Flush ops (NewTimeSeriesCollector interval));
      (b, tc') = tc_Flush order tc
    in (\<forall>p. map ge_payload (filter (\<lambda>e. ge_pid e = p) (case b of None \<Rightarrow> [] | Some b \<Rightarrow> gb_batch b)) =
        map Token (tokens_of p (since_flush [] ops))) \<and>
      (b = None \<longleftrightarrow> (\<forall>p. tokens_of p (since_flush [] ops) = [])) \<and>
      (\<forall>p. buffered tc' p = [])"
proof -
  let ?tc = "snd (collector_run (tc_Update b2s) tc_Flush ops (NewTimeSeriesCollector interval))"
  have "\<And>p. buffered (NewTimeSeriesCollector interval) p = tokens_of p []"
    by (simp add: buffered_def NewTimeSeriesCollector_def)
  from run_buffered [OF this] have b: "\<And>p. buffered ?tc p = tokens_of p (since_flush [] ops)" .
  have "iterates order (buffers ?tc)" using assms by (simp add: ticks_fit_append)
  from flush_tokens [OF this] show ?thesis unfolding b [symmetric] Let_def by (simp add: case_prod_unfold)
qed

text \<open>Two flushes: the second reports only what came after the first.\<close>

lemma timeserie_batch_is_history_witness:
  "\<exists>b. fst (tc_Flush [42] (snd (collector_run (tc_Update (\<lambda>c. c)) tc_Flush
      [Arrive 5 sample_copy, Tick [42], Arrive 7 sample_copy] (NewTimeSeriesCollector 5)))) = Some b \<and>
    map ge_payload (filter (\<lambda>e. ge_pid e = 42) (gb_batch b)) =
      [Token \<lparr>tok_timestamp = 7, tok_event_type = 3, tok_value = f64_of 512, tok_dir = 0\<rparr>]"
proof -
  let ?ops = "[Arrive 5 sample_copy, Tick [42], Arrive 7 sample_copy]"
  have "ticks_fit (tc_Update (\<lambda>c. c)) tc_Flush (\<lambda>order tc. iterates order (buffers tc)) (?ops @ [Tick [42]])
      (NewTimeSeriesCollector 5)"
    by (simp add: sample_copy_def tc_Update_def EventToToken_def tc_put_def tc_Flush_def NewTimeSeriesCollector_def
        iterates_def Let_def)
  note r = timeserie_batch_is_history [OF this, unfolded Let_def case_prod_unfold]
  have t: "tokens_of 42 (since_flush [] ?ops) =
      [\<lparr>tok_timestamp = 7, tok_event_type = 3, tok_value = f64_of 512, tok_dir = 0\<rparr>]"
    by (simp add: sample_copy_def EventToToken_def Let_def types_consts)
  then have "\<not> (\<forall>p. tokens_of p (since_flush [] ?ops) = [])" by (metis not_Cons_self2)
  with r obtain b where "fst (tc_Flush [42] (snd (collector_run (tc_Update (\<lambda>c. c)) tc_Flush ?ops
      (NewTimeSeriesCollector 5)))) = Some b" by blast
  with conjunct1 [OF r, THEN spec, of 42] t show ?thesis by simp
qed

end
