(* ===== verification/Aggregator.thy ===== *)
theory Aggregator
  imports Collector
begin

text \<open>
  The fingerprint aggregator (\<open>internal/collector/aggregator\<close>): one time window of running counters
  per process, closed and reported by the first flush after its end. \<open>now\<close> is the result of \<open>time.Now()\<close>, \<open>b2s\<close> is \<open>unix.ByteSliceToString\<close> and
  \<open>order\<close> the order in which Go happens to iterate over the windows.
\<close>

section \<open>State\<close>

record GPUFingerprint =
  PID :: u32
  FpComm :: bytes
  WindowStart :: gotime
  WindowEnd :: gotime
  KernelLaunchCount :: u64
  MemAllocCount :: u64
  MemcpyCount :: u64
  StreamSyncCount :: u64
  AvgThreadsPerKernel :: f64
  MaxThreadsPerKernel :: u64
  AvgBlocksPerKernel :: f64
  TotalThreadsLaunched :: u64
  TotalMemAllocBytes :: u64
  AvgMemAllocBytes :: f64
  TotalMemcpyBytes :: u64
  AvgMemcpyBytes :: f64
  HTODBytes :: u64
  DTOHBytes :: u64
  HTODRatio :: f64
  AvgSyncTimeNs :: f64
  MaxSyncTimeNs :: u64
  SyncFraction :: f64
  LaunchRate :: f64
  MemcpyRate :: f64
  AllocRate :: f64

record GPUAggregator =
  windows :: "u32 \<rightharpoonup> GPUFingerprint"
  windowDuration :: int
  lastFlush :: gotime

definition NewGPUAggregator :: "gotime \<Rightarrow> int \<Rightarrow> GPUAggregator" where
  "NewGPUAggregator now window = \<lparr>windows = Map.empty, windowDuration = window, lastFlush = now\<rparr>"

text \<open>A Go composite literal leaves the fields it does not name zero.\<close>

definition new_window :: "u32 \<Rightarrow> bytes \<Rightarrow> gotime \<Rightarrow> gotime \<Rightarrow> GPUFingerprint" where
  "new_window pid comm start end =
    \<lparr>PID = pid, FpComm = comm, WindowStart = start, WindowEnd = end,
     KernelLaunchCount = 0, MemAllocCount = 0, MemcpyCount = 0, StreamSyncCount = 0,
     AvgThreadsPerKernel = 0, MaxThreadsPerKernel = 0, AvgBlocksPerKernel = 0,
     TotalThreadsLaunched = 0, TotalMemAllocBytes = 0, AvgMemAllocBytes = 0, TotalMemcpyBytes = 0,
     AvgMemcpyBytes = 0, HTODBytes = 0, DTOHBytes = 0, HTODRatio = 0, AvgSyncTimeNs = 0,
     MaxSyncTimeNs = 0, SyncFraction = 0, LaunchRate = 0, MemcpyRate = 0, AllocRate = 0\<rparr>"

definition ensureWindow ::
  "(bytes \<Rightarrow> bytes) \<Rightarrow> gotime \<Rightarrow> u32 \<Rightarrow> bytes \<Rightarrow> GPUAggregator \<Rightarrow> GPUFingerprint \<times> GPUAggregator" where
  "ensureWindow b2s now pid comm ga =
    (case windows ga pid of
       Some win \<Rightarrow> (win, ga)
     | None \<Rightarrow>
        (let win = new_window pid (b2s comm) now (Add now (windowDuration ga))
         in (win, ga\<lparr>windows := (windows ga)(pid \<mapsto> win)\<rparr>)))"

section \<open>Update\<close>

definition max_u64 :: "u64 \<Rightarrow> u64 \<Rightarrow> u64" where
  "max_u64 a b = (if a > b then a else b)"

text \<open>The expression \<open>((avg * float64(n-1)) + float64(x)) / float64(n)\<close>.\<close>

definition avg_expr :: "f64 \<Rightarrow> u64 \<Rightarrow> u64 \<Rightarrow> f64" where
  "avg_expr avg n x = f64_div (f64_add (f64_mul avg (f64_of (n - 1))) (f64_of x)) (f64_of n)"

text \<open>The product of the grid dimensions is taken on 32 bits and only then widened.\<close>

definition launch_blocks :: "GpuprintGpuKernelLaunchEventT \<Rightarrow> u64" where
  "launch_blocks e = ucast (Gridx e * Gridy e * Gridz e)"

text \<open>The four branches of the type switch act on the window through its pointer.\<close>

definition on_launch :: "GpuprintGpuKernelLaunchEventT \<Rightarrow> GPUFingerprint \<Rightarrow> GPUFingerprint" where
  "on_launch e w =
    (let w = w\<lparr>KernelLaunchCount := KernelLaunchCount w + 1\<rparr>;
         totalThreads = TotalThreads e;
         w = w\<lparr>TotalThreadsLaunched := TotalThreadsLaunched w + totalThreads\<rparr>;
         w = w\<lparr>AvgThreadsPerKernel :=
                 avg_expr (AvgThreadsPerKernel w) (KernelLaunchCount w) totalThreads\<rparr>;
         w = w\<lparr>MaxThreadsPerKernel := max_u64 (MaxThreadsPerKernel w) totalThreads\<rparr>;
         blocks = launch_blocks e
     in w\<lparr>AvgBlocksPerKernel := avg_expr (AvgBlocksPerKernel w) (KernelLaunchCount w) blocks\<rparr>)"

definition on_memalloc :: "GpuprintGpuMemallocEventT \<Rightarrow> GPUFingerprint \<Rightarrow> GPUFingerprint" where
  "on_memalloc e w =
    (let w = w\<lparr>MemAllocCount := MemAllocCount w + 1\<rparr>;
         w = w\<lparr>TotalMemAllocBytes := TotalMemAllocBytes w + ByteSize e\<rparr>
     in w\<lparr>AvgMemAllocBytes := avg_expr (AvgMemAllocBytes w) (MemAllocCount w) (ByteSize e)\<rparr>)"

definition on_memcpy :: "GpuprintGpuMemcpyEventT \<Rightarrow> GPUFingerprint \<Rightarrow> GPUFingerprint" where
  "on_memcpy e w =
    (let w = w\<lparr>MemcpyCount := MemcpyCount w + 1\<rparr>;
         w = w\<lparr>TotalMemcpyBytes := TotalMemcpyBytes w + CopySize e\<rparr>;
         w = w\<lparr>AvgMemcpyBytes := avg_expr (AvgMemcpyBytes w) (MemcpyCount w) (CopySize e)\<rparr>
     in if uint (Kind e) = types_DIR_HTOD
        then w\<lparr>HTODBytes := HTODBytes w + CopySize e\<rparr>
        else w\<lparr>DTOHBytes := DTOHBytes w + CopySize e\<rparr>)"

definition on_stream :: "GpuprintGpuStreamEventT \<Rightarrow> GPUFingerprint \<Rightarrow> GPUFingerprint" where
  "on_stream e w =
    (let w = w\<lparr>StreamSyncCount := StreamSyncCount w + 1\<rparr>;
         w = w\<lparr>AvgSyncTimeNs := avg_expr (AvgSyncTimeNs w) (StreamSyncCount w) (DeltaNs e)\<rparr>
     in w\<lparr>MaxSyncTimeNs := max_u64 (MaxSyncTimeNs w) (DeltaNs e)\<rparr>)"

definition with_window ::
  "(bytes \<Rightarrow> bytes) \<Rightarrow> gotime \<Rightarrow> u32 \<Rightarrow> bytes \<Rightarrow> (GPUFingerprint \<Rightarrow> GPUFingerprint) \<Rightarrow>
    GPUAggregator \<Rightarrow> GPUAggregator" where
  "with_window b2s now pid comm f ga =
    (let (w, ga) = ensureWindow b2s now pid comm ga
     in ga\<lparr>windows := (windows ga)(pid \<mapsto> f w)\<rparr>)"

definition ga_Update :: "(bytes \<Rightarrow> bytes) \<Rightarrow> gotime \<Rightarrow> gpu_event \<Rightarrow> GPUAggregator \<Rightarrow> GPUAggregator" where
  "ga_Update b2s now ev ga =
    (case ev of
       KernelLaunchEvent e \<Rightarrow> with_window b2s now (Pid e) (Comm e) (on_launch e) ga
     | MemallocEvent e \<Rightarrow> with_window b2s now (Pid e) (Comm e) (on_memalloc e) ga
     | MemcpyEvent e \<Rightarrow> with_window b2s now (Pid e) (Comm e) (on_memcpy e) ga
     | StreamEvent e \<Rightarrow> with_window b2s now (Pid e) (Comm e) (on_stream e) ga
     | OtherEvent \<Rightarrow> ga)"

section \<open>Flush\<close>

text \<open>\<open>Duration.Seconds\<close>: whole seconds and the rest, both truncated towards zero.\<close>

definition duration_seconds :: "int \<Rightarrow> f64" where
  "duration_seconds d =
    (let sec = sgn d * (\<bar>d\<bar> div 1000000000); nsec = sgn d * (\<bar>d\<bar> mod 1000000000)
     in f64_add (f64_round (of_int sec)) (f64_div (f64_round (of_int nsec)) (f64_round 1000000000)))"

definition finish_window :: "GPUFingerprint \<Rightarrow> GPUFingerprint" where
  "finish_window w =
    (let duration = duration_seconds (Sub (WindowEnd w) (WindowStart w));
         w = (if TotalMemcpyBytes w > 0
              then w\<lparr>HTODRatio := f64_div (f64_of (HTODBytes w)) (f64_of (TotalMemcpyBytes w))\<rparr> else w);
         totalEvents = KernelLaunchCount w + MemcpyCount w + MemAllocCount w + StreamSyncCount w;
         w = (if totalEvents > 0
              then w\<lparr>SyncFraction := f64_div (f64_of (StreamSyncCount w)) (f64_of totalEvents)\<rparr> else w)
     in if duration > 0
        then w\<lparr>LaunchRate := f64_div (f64_of (KernelLaunchCount w)) duration,
               MemcpyRate := f64_div (f64_of (MemcpyCount w)) duration,
               AllocRate := f64_div (f64_of (MemAllocCount w)) duration\<rparr>
        else w)"

definition time_window :: "GPUFingerprint \<Rightarrow> GpuTimeWindow" where
  "time_window w =
    \<lparr>tw_window_start_ns = UnixNano (WindowStart w), tw_window_end_ns = UnixNano (WindowEnd w),
     tw_kernel_launch_count = KernelLaunchCount w, tw_mem_alloc_count = MemAllocCount w,
     tw_memcpy_count = MemcpyCount w, tw_stream_sync_count = StreamSyncCount w,
     tw_avg_threads_per_kernel = AvgThreadsPerKernel w,
     tw_max_threads_per_kernel = MaxThreadsPerKernel w,
     tw_avg_blocks_per_kernel = AvgBlocksPerKernel w,
     tw_total_threads_launched = TotalThreadsLaunched w,
     tw_total_mem_alloc_bytes = TotalMemAllocBytes w, tw_avg_mem_alloc_bytes = AvgMemAllocBytes w,
     tw_total_memcpy_bytes = TotalMemcpyBytes w, tw_avg_memcpy_bytes = AvgMemcpyBytes w,
     tw_htod_bytes = HTODBytes w, tw_dtoh_bytes = DTOHBytes w, tw_htod_ratio = HTODRatio w,
     tw_avg_sync_time_ns = AvgSyncTimeNs w, tw_max_sync_time_ns = MaxSyncTimeNs w,
     tw_sync_fraction = SyncFraction w, tw_launch_rate = LaunchRate w,
     tw_memcpy_rate = MemcpyRate w, tw_alloc_rate = AllocRate w\<rparr>"

definition window_event :: "GPUFingerprint \<Rightarrow> GpuEvent" where
  "window_event w = (let w = finish_window w in
    \<lparr>ge_pid = PID w, ge_comm = FpComm w, ge_event_type = ''GPU_TIME_WINDOW'',
     ge_payload = Tw (time_window w)\<rparr>)"

fun flush_loop ::
  "gotime \<Rightarrow> u32 list \<Rightarrow> (u32 \<rightharpoonup> GPUFingerprint) \<Rightarrow> GpuEvent list \<times> (u32 \<rightharpoonup> GPUFingerprint)" where
  "flush_loop now [] m = ([], m)"
| "flush_loop now (pid # order) m =
     (case m pid of
        None \<Rightarrow> flush_loop now order m
      | Some w \<Rightarrow>
          if After now (WindowEnd w)
          then (let (es, m) = flush_loop now order (m(pid := None)) in (window_event w # es, m))
          else flush_loop now order m)"

definition ga_Flush :: "gotime \<times> u32 list \<Rightarrow> GPUAggregator \<Rightarrow> GpuBatch option \<times> GPUAggregator" where
  "ga_Flush f ga =
    (let (now, order) = f;
         (events, ws) = flush_loop now order (windows ga);
         ga = ga\<lparr>windows := ws\<rparr>
     in if length events = 0 then (None, ga)
        else (Some \<lparr>gb_type = ''gpu_time_window'', gb_batch = events\<rparr>, ga\<lparr>lastFlush := now\<rparr>))"

section \<open>What a window stands for\<close>

text \<open>
  The abstract window: when it was opened, the process name it was opened with, and the events it has
  absorbed, oldest first. \<open>observed\<close> is the fingerprint those events amount to, each statistic given
  outright: counts, sums on 64 bits, maxima, and rounded running means.
\<close>

fun launches :: "gpu_event list \<Rightarrow> GpuprintGpuKernelLaunchEventT list" where
  "launches [] = []"
| "launches (KernelLaunchEvent e # evs) = e # launches evs"
| "launches (_ # evs) = launches evs"

fun memallocs :: "gpu_event list \<Rightarrow> GpuprintGpuMemallocEventT list" where
  "memallocs [] = []"
| "memallocs (MemallocEvent e # evs) = e # memallocs evs"
| "memallocs (_ # evs) = memallocs evs"

fun memcpys :: "gpu_event list \<Rightarrow> GpuprintGpuMemcpyEventT list" where
  "memcpys [] = []"
| "memcpys (MemcpyEvent e # evs) = e # memcpys evs"
| "memcpys (_ # evs) = memcpys evs"

fun streams :: "gpu_event list \<Rightarrow> GpuprintGpuStreamEventT list" where
  "streams [] = []"
| "streams (StreamEvent e # evs) = e # streams evs"
| "streams (_ # evs) = streams evs"

definition exact :: "u64 \<Rightarrow> rat" where
  "exact x = of_nat (unat x)"

definition mean_of :: "u64 list \<Rightarrow> f64" where
  "mean_of xs = f64.running_mean 0 0 (map exact xs)"

definition max_of :: "u64 list \<Rightarrow> u64" where
  "max_of xs = Max (set (0 # xs))"

definition is_htod :: "GpuprintGpuMemcpyEventT \<Rightarrow> bool" where
  "is_htod e \<longleftrightarrow> uint (Kind e) = types_DIR_HTOD"

definition observed :: "u32 \<Rightarrow> bytes \<Rightarrow> gotime \<Rightarrow> gotime \<Rightarrow> gpu_event list \<Rightarrow> GPUFingerprint" where
  "observed p c t t' evs = (new_window p c t t')
    \<lparr>KernelLaunchCount := of_nat (length (launches evs)),
     MemAllocCount := of_nat (length (memallocs evs)),
     MemcpyCount := of_nat (length (memcpys evs)),
     StreamSyncCount := of_nat (length (streams evs)),
     AvgThreadsPerKernel := mean_of (map TotalThreads (launches evs)),
     MaxThreadsPerKernel := max_of (map TotalThreads (launches evs)),
     AvgBlocksPerKernel := mean_of (map launch_blocks (launches evs)),
     TotalThreadsLaunched := sum_list (map TotalThreads (launches evs)),
     TotalMemAllocBytes := sum_list (map ByteSize (memallocs evs)),
     AvgMemAllocBytes := mean_of (map ByteSize (memallocs evs)),
     TotalMemcpyBytes := sum_list (map CopySize (memcpys evs)),
     AvgMemcpyBytes := mean_of (map CopySize (memcpys evs)),
     HTODBytes := sum_list (map CopySize (filter is_htod (memcpys evs))),
     DTOHBytes := sum_list (map CopySize (filter (\<lambda>e. \<not> is_htod e) (memcpys evs))),
     AvgSyncTimeNs := mean_of (map DeltaNs (streams evs)),
     MaxSyncTimeNs := max_of (map DeltaNs (streams evs))\<rparr>"

lemma observed_Nil: "observed p c t t' [] = new_window p c t t'"
  by (simp add: observed_def new_window_def mean_of_def max_of_def)

lemma split_events_snoc [simp]:
  "launches (evs @ [ev]) = launches evs @ launches [ev]"
  "memallocs (evs @ [ev]) = memallocs evs @ memallocs [ev]"
  "memcpys (evs @ [ev]) = memcpys evs @ memcpys [ev]"
  "streams (evs @ [ev]) = streams evs @ streams [ev]"
  by (induction evs rule: launches.induct; cases ev; simp)+

lemma split_events_length:
  "length (launches evs) \<le> length evs" "length (memallocs evs) \<le> length evs"
  "length (memcpys evs) \<le> length evs" "length (streams evs) \<le> length evs"
  by (induction evs rule: launches.induct; simp)+

lemma max_u64_max: "max_u64 a b = max a b"
  by (auto simp: max_u64_def max_def not_less)

lemma max_of_snoc: "max_of (xs @ [x]) = max_u64 (max_of xs) x"
proof -
  have "set (0 # (xs @ [x])) = insert x (set (0 # xs))" by auto
  then have "max_of (xs @ [x]) = max x (Max (set (0 # xs)))" unfolding max_of_def by simp
  then show ?thesis by (simp add: max_u64_max max_of_def max.commute)
qed

lemma f64_of_nat: "n \<le> 2 ^ 53 \<Longrightarrow> f64_of (of_nat n) = of_nat n"
proof -
  assume n: "n \<le> 2 ^ 53"
  then have "n < 2 ^ LENGTH(64)" by simp
  then have "unat (of_nat n :: u64) = n" by (simp add: unat_of_nat take_bit_nat_eq_self)
  with n show ?thesis by (simp add: f64_of_def f64.rnd_nat)
qed

lemma mean_of_snoc:
  assumes "length xs < 2 ^ 53"
  shows "mean_of (xs @ [x]) = avg_expr (mean_of xs) (of_nat (length xs) + 1) x"
proof -
  have "of_nat (length xs) + 1 - 1 = (of_nat (length xs) :: u64)" by simp
  moreover have "f64_of (of_nat (length xs)) = of_nat (length xs)" using assms by (intro f64_of_nat) simp
  moreover have "f64_of (of_nat (length xs) + 1) = of_nat (Suc (length xs))"
    using assms f64_of_nat [of "Suc (length xs)"] by (simp add: add.commute)
  ultimately show ?thesis
    by (simp add: mean_of_def f64.running_mean_append f64.mean_step_def avg_expr_def
        f64_div_def f64_add_def f64_mul_def f64_of_def exact_def)
qed

section \<open>Updates refine appending to the history\<close>

text \<open>The branch of the type switch an event takes, on the window.\<close>

fun absorb :: "gpu_event \<Rightarrow> GPUFingerprint \<Rightarrow> GPUFingerprint" where
  "absorb (KernelLaunchEvent e) w = on_launch e w"
| "absorb (MemallocEvent e) w = on_memalloc e w"
| "absorb (MemcpyEvent e) w = on_memcpy e w"
| "absorb (StreamEvent e) w = on_stream e w"
| "absorb OtherEvent w = w"

lemma absorb_observed:
  assumes "length evs < 2 ^ 53"
  shows "absorb ev (observed p c t t' evs) = observed p c t t' (evs @ [ev])"
proof (cases ev)
  case (KernelLaunchEvent e)
  have "length (launches evs) < 2 ^ 53" using assms split_events_length(1) [of evs] by linarith
  then show ?thesis unfolding KernelLaunchEvent
    by (simp add: observed_def on_launch_def Let_def mean_of_snoc max_of_snoc)
next
  case (MemallocEvent e)
  have "length (memallocs evs) < 2 ^ 53" using assms split_events_length(2) [of evs] by linarith
  then show ?thesis unfolding MemallocEvent
    by (simp add: observed_def on_memalloc_def Let_def mean_of_snoc)
next
  case (MemcpyEvent e)
  have "length (memcpys evs) < 2 ^ 53" using assms split_events_length(3) [of evs] by linarith
  then show ?thesis unfolding MemcpyEvent
    by (simp add: observed_def on_memcpy_def Let_def mean_of_snoc is_htod_def)
next
  case (StreamEvent e)
  have "length (streams evs) < 2 ^ 53" using assms split_events_length(4) [of evs] by linarith
  then show ?thesis unfolding StreamEvent
    by (simp add: observed_def on_stream_def Let_def mean_of_snoc max_of_snoc)
next
  case OtherEvent
  then show ?thesis by (simp add: observed_def)
qed

fun event_comm :: "gpu_event \<Rightarrow> bytes" where
  "event_comm (KernelLaunchEvent e) = Comm e"
| "event_comm (MemallocEvent e) = Comm e"
| "event_comm (MemcpyEvent e) = Comm e"
| "event_comm (StreamEvent e) = Comm e"
| "event_comm OtherEvent = []"

lemma absorb_eqs:
  "absorb (KernelLaunchEvent l) = on_launch l" "absorb (MemallocEvent m) = on_memalloc m"
  "absorb (MemcpyEvent k) = on_memcpy k" "absorb (StreamEvent s) = on_stream s"
  by auto

lemma ga_Update_alt:
  "ga_Update b2s now ev ga =
    (case event_pid ev of None \<Rightarrow> ga
     | Some p \<Rightarrow> with_window b2s now p (event_comm ev) (absorb ev) ga)"
  by (cases ev) (simp_all add: ga_Update_def absorb_eqs)

type_synonym history = "u32 \<rightharpoonup> gotime \<times> bytes \<times> gpu_event list"

definition history_update ::
  "(bytes \<Rightarrow> bytes) \<Rightarrow> gotime \<Rightarrow> gpu_event \<Rightarrow> history \<Rightarrow> history" where
  "history_update b2s now ev h =
    (case event_pid ev of None \<Rightarrow> h
     | Some p \<Rightarrow> h(p \<mapsto> (case h p of None \<Rightarrow> (now, b2s (event_comm ev), [ev])
                       | Some (t, c, evs) \<Rightarrow> (t, c, evs @ [ev]))))"

definition fingerprints :: "int \<Rightarrow> history \<Rightarrow> (u32 \<rightharpoonup> GPUFingerprint)" where
  "fingerprints dur h p = map_option (\<lambda>(t, c, evs). observed p c t (Add t dur) evs) (h p)"

definition small_history :: "history \<Rightarrow> bool" where
  "small_history h \<longleftrightarrow> (\<forall>p t c evs. h p = Some (t, c, evs) \<longrightarrow> length evs < 2 ^ 53)"

lemma with_window_windows:
  "windows (with_window b2s now p comm f ga) = (windows ga)(p \<mapsto>
    f (case windows ga p of Some w \<Rightarrow> w | None \<Rightarrow> new_window p (b2s comm) now (Add now (windowDuration ga))))"
  by (simp add: with_window_def ensureWindow_def Let_def split: option.splits)

lemma with_window_rest [simp]:
  "windowDuration (with_window b2s now p comm f ga) = windowDuration ga"
  "lastFlush (with_window b2s now p comm f ga) = lastFlush ga"
  by (simp_all add: with_window_def ensureWindow_def Let_def split: option.splits)

lemma ga_Update_rest [simp]:
  "windowDuration (ga_Update b2s now ev ga) = windowDuration ga"
  "lastFlush (ga_Update b2s now ev ga) = lastFlush ga"
  by (simp_all add: ga_Update_alt split: option.splits)

lemma ga_Update_refines:
  assumes "windows ga = fingerprints (windowDuration ga) h" and "small_history h"
  shows "windows (ga_Update b2s now ev ga)
    = fingerprints (windowDuration ga) (history_update b2s now ev h)"
proof (cases "event_pid ev")
  case None
  then show ?thesis using assms by (simp add: ga_Update_alt history_update_def)
next
  case (Some p)
  have "absorb ev (observed p c t t' []) = observed p c t t' [ev]" for c t t'
    using absorb_observed [of "[]" ev p c t t'] by simp
  moreover have "absorb ev (observed p c t t' evs) = observed p c t t' (evs @ [ev])"
    if "h p = Some (u, d, evs)" for c t t' u d evs
    using that assms(2) by (intro absorb_observed) (auto simp: small_history_def)
  ultimately show ?thesis using Some assms
    by (auto simp: ga_Update_alt history_update_def with_window_windows fingerprints_def fun_eq_iff
        split: option.splits simp flip: observed_Nil)
qed

section \<open>What a flush closes\<close>

definition expired :: "gotime \<Rightarrow> (u32 \<rightharpoonup> GPUFingerprint) \<Rightarrow> u32 \<Rightarrow> bool" where
  "expired now m p = (case m p of None \<Rightarrow> False | Some w \<Rightarrow> After now (WindowEnd w))"

lemma flush_loop_eq:
  "distinct order \<Longrightarrow> flush_loop now order m =
    (map (\<lambda>p. window_event (the (m p))) (filter (expired now m) order),
     (\<lambda>p. if p \<in> set order \<and> expired now m p then None else m p))"
proof (induction order arbitrary: m)
  case Nil
  then show ?case by simp
next
  case (Cons a order)
  show ?case
  proof (cases "expired now m a")
    case True
    then obtain w where w: "m a = Some w" "After now (WindowEnd w)"
      by (auto simp: expired_def split: option.splits)
    define m' where "m' = m(a := None)"
    have same: "expired now m' p = expired now m p" "m' p = m p" if "p \<noteq> a" for p
      using that by (auto simp: m'_def expired_def)
    have a: "m' a = None" by (simp add: m'_def)
    have f: "filter (expired now m') order = filter (expired now m) order"
      using Cons.prems by (intro filter_cong refl same) auto
    have "map (\<lambda>p. window_event (the (m' p))) (filter (expired now m) order)
      = map (\<lambda>p. window_event (the (m p))) (filter (expired now m) order)"
      using Cons.prems by (intro map_cong refl, subst same(2)) auto
    then have "flush_loop now order m' = (map (\<lambda>p. window_event (the (m p))) (filter (expired now m) order),
      (\<lambda>p. if p \<in> set order \<and> expired now m' p then None else m' p))"
      using Cons.IH [of m'] Cons.prems f by simp
    moreover have "(\<lambda>p. if p \<in> set order \<and> expired now m' p then None else m' p)
      = (\<lambda>p. if p \<in> set (a # order) \<and> expired now m p then None else m p)"
    proof
      fix p show "(if p \<in> set order \<and> expired now m' p then None else m' p)
        = (if p \<in> set (a # order) \<and> expired now m p then None else m p)"
        using a True by (cases "p = a") (simp_all add: same)
    qed
    ultimately show ?thesis using True w by (simp add: m'_def [symmetric])
  next
    case False
    then have "flush_loop now (a # order) m = flush_loop now order m"
      by (auto simp: expired_def split: option.splits)
    with False Cons show ?thesis by (auto simp: fun_eq_iff)
  qed
qed

lemma ga_Flush_eq:
  assumes "iterates order (windows ga)"
  shows "ga_Flush (now, order) ga =
    (let ps = filter (expired now (windows ga)) order;
         ws = (\<lambda>p. if expired now (windows ga) p then None else windows ga p)
     in if ps = [] then (None, ga\<lparr>windows := ws\<rparr>)
        else (Some \<lparr>gb_type = ''gpu_time_window'',
                gb_batch = map (\<lambda>p. window_event (the (windows ga p))) ps\<rparr>,
              ga\<lparr>windows := ws, lastFlush := now\<rparr>))"
proof -
  have "(\<lambda>p. if p \<in> set order \<and> expired now (windows ga) p then None else windows ga p)
    = (\<lambda>p. if expired now (windows ga) p then None else windows ga p)"
    using assms by (auto simp: iterates_def expired_def fun_eq_iff split: option.splits)
  then show ?thesis using assms by (simp add: ga_Flush_def flush_loop_eq iterates_def Let_def)
qed

lemma ga_Flush_rest [simp]: "windowDuration (snd (ga_Flush f ga)) = windowDuration ga"
  by (simp add: ga_Flush_def Let_def split: prod.splits)

section \<open>The contract of the interface\<close>

definition window_count :: "GPUFingerprint \<Rightarrow> u64" where
  "window_count w = KernelLaunchCount w + MemAllocCount w + MemcpyCount w + StreamSyncCount w"

definition ga_pending :: "u32 \<Rightarrow> GPUAggregator \<Rightarrow> u64" where
  "ga_pending p ga = (case windows ga p of None \<Rightarrow> 0 | Some w \<Rightarrow> window_count w)"

text \<open>
  The invariant: a window is filed under its own process, spans the configured duration, and splits its
  copied bytes by direction.
\<close>

definition window_ok :: "int \<Rightarrow> u32 \<Rightarrow> GPUFingerprint \<Rightarrow> bool" where
  "window_ok dur p w \<longleftrightarrow> PID w = p \<and> WindowEnd w = Add (WindowStart w) dur \<and>
     TotalMemcpyBytes w = HTODBytes w + DTOHBytes w"

definition ga_inv :: "GPUAggregator \<Rightarrow> bool" where
  "ga_inv ga \<longleftrightarrow> (\<forall>p w. windows ga p = Some w \<longrightarrow> window_ok (windowDuration ga) p w)"

lemmas on_defs = on_launch_def on_memalloc_def on_memcpy_def on_stream_def

lemma absorb_ok: "window_ok dur p w \<Longrightarrow> window_ok dur p (absorb ev w)"
  by (cases ev) (simp_all add: on_defs Let_def window_ok_def)

lemma absorb_count:
  "event_pid ev = Some p \<Longrightarrow> window_count (absorb ev w) = window_count w + 1"
  by (cases ev) (simp_all add: on_defs Let_def window_count_def)

lemma new_window_ok: "window_ok dur p (new_window p c t (Add t dur))"
  by (simp add: window_ok_def new_window_def)

lemma new_window_count: "window_count (new_window p c t t') = 0"
  by (simp add: window_count_def new_window_def)

lemma ga_Update_inv: "ga_inv ga \<Longrightarrow> ga_inv (ga_Update b2s now ev ga)"
  by (auto simp: ga_inv_def ga_Update_alt with_window_windows absorb_ok new_window_ok
      split: option.splits if_splits)

lemma ga_Update_pending:
  "ga_pending p (ga_Update b2s now ev ga) = ga_pending p ga + (if event_pid ev = Some p then 1 else 0)"
  by (auto simp: ga_Update_alt ga_pending_def with_window_windows absorb_count new_window_count
      split: option.splits)

lemma window_event_simps [simp]:
  "ge_pid (window_event w) = PID w" "ge_comm (window_event w) = FpComm w"
  "payload_events (ge_payload (window_event w)) = window_count w"
  by (simp_all add: window_event_def finish_window_def time_window_def window_count_def Let_def)

lemma events_for_windows:
  assumes "ga_inv ga" "distinct ps" "set ps \<subseteq> dom (windows ga)"
  shows "events_for p (map (\<lambda>p. window_event (the (windows ga p))) ps) =
    (if p \<in> set ps then ga_pending p ga else 0)"
  using assms(2,3)
proof (induction ps)
  case (Cons a ps)
  then obtain w where w: "windows ga a = Some w" by auto
  then have "PID w = a" using assms(1) by (auto simp: ga_inv_def window_ok_def)
  with Cons w show ?case by (auto simp: ga_pending_def)
qed simp

lemma ga_Flush_pending:
  assumes "ga_inv ga" "iterates order (windows ga)"
  shows "batch_events p (fst (ga_Flush (now, order) ga)) + ga_pending p (snd (ga_Flush (now, order) ga))
    = ga_pending p ga"
proof -
  let ?ps = "filter (expired now (windows ga)) order"
  have "events_for p (map (\<lambda>p. window_event (the (windows ga p))) ?ps) =
    (if p \<in> set ?ps then ga_pending p ga else 0)"
    using assms by (intro events_for_windows) (auto simp: iterates_def)
  moreover have "p \<in> set order" if "expired now (windows ga) p"
    using that assms(2) by (auto simp: iterates_def expired_def split: option.splits)
  ultimately have "events_for p (map (\<lambda>p. window_event (the (windows ga p))) ?ps) =
    (if expired now (windows ga) p then ga_pending p ga else 0)" by auto
  then show ?thesis unfolding ga_Flush_eq [OF assms(2)]
    by (cases "?ps = []")
      (auto simp: Let_def batch_events_def ga_pending_def split: option.splits if_splits)
qed

interpretation agg: gpu_collector "ga_Update b2s" ga_Flush ga_pending ga_inv
    "\<lambda>(now, order) ga. iterates order (windows ga)"
proof (unfold_locales, goal_cases)
  case (1 s t ev)
  then show ?case by (rule ga_Update_inv)
next
  case (2 s p t ev)
  show ?case by (rule ga_Update_pending)
next
  case (3 s f)
  then show ?case
    by (cases f) (auto simp: ga_Flush_eq Let_def ga_inv_def split: if_splits)
next
  case (4 s f p)
  then show ?case by (cases f) (simp add: ga_Flush_pending)
next
  case (5 f s b)
  then show ?case by (auto simp: ga_Flush_def Let_def split: if_splits prod.splits)
qed

section \<open>Whole runs refine the history\<close>

text \<open>The abstract flush: report and forget the histories whose window is over.\<close>

definition closed_at :: "int \<Rightarrow> gotime \<Rightarrow> history \<Rightarrow> u32 \<Rightarrow> bool" where
  "closed_at dur now h p = (case h p of None \<Rightarrow> False | Some (t, _, _) \<Rightarrow> After now (Add t dur))"

definition history_flush :: "int \<Rightarrow> gotime \<times> u32 list \<Rightarrow> history \<Rightarrow> GpuBatch option \<times> history" where
  "history_flush dur f h =
    (let (now, order) = f; ps = filter (closed_at dur now h) order
     in (if ps = [] then None
         else Some \<lparr>gb_type = ''gpu_time_window'',
                gb_batch = map (\<lambda>p. window_event (the (fingerprints dur h p))) ps\<rparr>,
         (\<lambda>p. if closed_at dur now h p then None else h p)))"

lemma expired_fingerprints: "expired now (fingerprints dur h) = closed_at dur now h"
  by (auto simp: fun_eq_iff expired_def fingerprints_def closed_at_def observed_def new_window_def
      split: option.splits)

lemma dom_fingerprints [simp]: "dom (fingerprints dur h) = dom h"
  by (auto simp: fingerprints_def dom_def)

lemma iterates_fingerprints: "iterates order (fingerprints dur h) = iterates order h"
  by (simp add: iterates_def)

lemma ga_Flush_refines:
  assumes "windows ga = fingerprints (windowDuration ga) h" and "iterates order h"
  shows "fst (ga_Flush (now, order) ga) = fst (history_flush (windowDuration ga) (now, order) h)"
    and "windows (snd (ga_Flush (now, order) ga))
      = fingerprints (windowDuration ga) (snd (history_flush (windowDuration ga) (now, order) h))"
proof -
  let ?d = "windowDuration ga"
  let ?ps = "filter (closed_at ?d now h) order"
  have it: "iterates order (windows ga)" using assms by (simp add: iterates_fingerprints)
  have m: "(\<lambda>p. if closed_at ?d now h p then None else fingerprints ?d h p)
    = fingerprints ?d (\<lambda>p. if closed_at ?d now h p then None else h p)"
    by (auto simp: fun_eq_iff fingerprints_def)
  show "fst (ga_Flush (now, order) ga) = fst (history_flush ?d (now, order) h)"
    unfolding ga_Flush_eq [OF it] history_flush_def assms(1) expired_fingerprints by (simp add: Let_def)
  show "windows (snd (ga_Flush (now, order) ga)) = fingerprints ?d (snd (history_flush ?d (now, order) h))"
    unfolding ga_Flush_eq [OF it] history_flush_def assms(1) expired_fingerprints by (simp add: Let_def m)
qed

text \<open>No process has more than \<open>n\<close> events in its window.\<close>

definition history_bound :: "nat \<Rightarrow> history \<Rightarrow> bool" where
  "history_bound n h \<longleftrightarrow> (\<forall>p t c evs. h p = Some (t, c, evs) \<longrightarrow> length evs \<le> n)"

lemma history_update_bound: "history_bound n h \<Longrightarrow> history_bound (Suc n) (history_update b2s now ev h)"
  by (fastforce simp: history_bound_def history_update_def split: option.splits if_splits)

lemma history_flush_bound: "history_bound n h \<Longrightarrow> history_bound n (snd (history_flush dur f h))"
  by (auto simp: history_bound_def history_flush_def Let_def split: prod.splits if_splits)

lemma dom_history_update:
  "windows ga = fingerprints dur h \<Longrightarrow>
    dom (windows (ga_Update b2s now ev ga)) = dom (history_update b2s now ev h)"
  by (auto simp: ga_Update_alt history_update_def with_window_windows fingerprints_def dom_def
      split: option.splits if_splits)

lemma agg_run_refines:
  assumes "windows ga = fingerprints (windowDuration ga) h"
    and "ticks_fit (ga_Update b2s) ga_Flush (\<lambda>(now, order) ga. iterates order (windows ga)) ops ga"
    and "history_bound n h" and "n + length ops < 2 ^ 53"
  shows "fst (collector_run (ga_Update b2s) ga_Flush ops ga)
      = fst (collector_run (history_update b2s) (history_flush (windowDuration ga)) ops h)
    \<and> windows (snd (collector_run (ga_Update b2s) ga_Flush ops ga))
      = fingerprints (windowDuration ga)
          (snd (collector_run (history_update b2s) (history_flush (windowDuration ga)) ops h))"
  using assms
proof (induction ops arbitrary: ga h n rule: arrivals.induct [of _ undefined])
  case 1
  then show ?case by simp
next
  case (2 p t ev ops)
  have small: "small_history h" using "2.prems"(3,4) by (fastforce simp: history_bound_def small_history_def)
  have "history_bound (Suc n) (history_update b2s t ev h)" using "2.prems"(3) by (rule history_update_bound)
  then show ?case
    using "2.IH" [of "ga_Update b2s t ev ga" "history_update b2s t ev h" "Suc n"]
      ga_Update_refines [OF "2.prems"(1) small] "2.prems" by simp
next
  case (3 p f ops)
  obtain now order where f: "f = (now, order)" by (cases f)
  have it: "iterates order h" using "3.prems"(1,2) f by (simp add: iterates_fingerprints)
  note r = ga_Flush_refines [OF "3.prems"(1) it, of now]
  have "history_bound n (snd (history_flush (windowDuration ga) f h))"
    using "3.prems"(3) by (rule history_flush_bound)
  with "3.IH" [of "snd (ga_Flush f ga)" "snd (history_flush (windowDuration ga) f h)" n] r "3.prems" f
  show ?case by (simp add: case_prod_unfold Let_def split: option.splits)
qed

section \<open>What a report says\<close>

lemma exact_nonneg [simp]: "0 \<le> exact x"
  unfolding exact_def by (rule of_nat_0_le_iff)

lemma mean_of_bounds:
  "(1 - eps64) ^ (3 * length xs) * sum_list (map exact xs) \<le> mean_of xs * of_nat (length xs)"
  "mean_of xs * of_nat (length xs) \<le> (1 + eps64) ^ (3 * length xs) * sum_list (map exact xs)"
  using f64.running_mean_bounds [of 0 "map exact xs" 0] by (simp_all add: mean_of_def)

text \<open>Sums that do not wrap.\<close>

lemma sum_exact:
  "sum_list (map unat xs) < 2 ^ 64 \<Longrightarrow> unat (sum_list xs :: u64) = sum_list (map unat xs)"
proof (induction xs)
  case (Cons x xs)
  then have "unat x + unat (sum_list xs) < 2 ^ 64" by simp
  then have "unat (x + sum_list xs) = unat x + unat (sum_list xs)" by (rule unat_add_u64)
  with Cons show ?case by simp
qed simp

lemma sum_exact_rat:
  "sum_list (map unat xs) < 2 ^ 64 \<Longrightarrow> sum_list (map exact xs) = exact (sum_list xs)"
proof -
  have "sum_list (map exact xs) = of_nat (sum_list (map unat xs))"
    by (induction xs) (simp_all add: exact_def)
  then show "sum_list (map unat xs) < 2 ^ 64 \<Longrightarrow> ?thesis" by (simp add: sum_exact exact_def)
qed

lemma f64_ratio:
  fixes h t :: u64
  assumes "unat h \<le> unat t" "0 < t"
  shows "0 \<le> f64_div (f64_of h) (f64_of t) \<and> f64_div (f64_of h) (f64_of t) \<le> 1"
  using f64.rnd_ratio [of "unat h" "unat t"] assms by (simp add: f64_div_def f64_of_def word_less_nat_alt)

lemma word_part_le:
  fixes a b :: u64
  assumes "unat a + unat b < 2 ^ 64"
  shows "unat a \<le> unat (a + b)"
proof -
  have "unat (a + b) = unat a + unat b" using assms by (rule unat_add_u64)
  then show ?thesis by simp
qed

lemma finish_htod_ratio:
  assumes "window_ok dur p w" "unat (HTODBytes w) + unat (DTOHBytes w) < 2 ^ 64"
    and "HTODRatio w = 0"
  shows "0 \<le> HTODRatio (finish_window w) \<and> HTODRatio (finish_window w) \<le> 1"
proof -
  have "unat (HTODBytes w) \<le> unat (TotalMemcpyBytes w)"
    using word_part_le [OF assms(2)] assms(1) by (simp add: window_ok_def)
  then have "0 < TotalMemcpyBytes w \<Longrightarrow> ?thesis"
    using f64_ratio [of "HTODBytes w" "TotalMemcpyBytes w"] by (simp add: finish_window_def Let_def)
  moreover have "\<not> 0 < TotalMemcpyBytes w \<Longrightarrow> ?thesis" using assms(3) by (simp add: finish_window_def Let_def)
  ultimately show ?thesis by blast
qed

lemma finish_window_simps [simp]:
  "PID (finish_window w) = PID w" "FpComm (finish_window w) = FpComm w"
  "WindowStart (finish_window w) = WindowStart w" "WindowEnd (finish_window w) = WindowEnd w"
  "KernelLaunchCount (finish_window w) = KernelLaunchCount w"
  "MemAllocCount (finish_window w) = MemAllocCount w" "MemcpyCount (finish_window w) = MemcpyCount w"
  "StreamSyncCount (finish_window w) = StreamSyncCount w"
  "AvgThreadsPerKernel (finish_window w) = AvgThreadsPerKernel w"
  "MaxThreadsPerKernel (finish_window w) = MaxThreadsPerKernel w"
  "AvgBlocksPerKernel (finish_window w) = AvgBlocksPerKernel w"
  "TotalThreadsLaunched (finish_window w) = TotalThreadsLaunched w"
  "TotalMemAllocBytes (finish_window w) = TotalMemAllocBytes w"
  "AvgMemAllocBytes (finish_window w) = AvgMemAllocBytes w"
  "TotalMemcpyBytes (finish_window w) = TotalMemcpyBytes w"
  "AvgMemcpyBytes (finish_window w) = AvgMemcpyBytes w"
  "HTODBytes (finish_window w) = HTODBytes w" "DTOHBytes (finish_window w) = DTOHBytes w"
  "AvgSyncTimeNs (finish_window w) = AvgSyncTimeNs w" "MaxSyncTimeNs (finish_window w) = MaxSyncTimeNs w"
  by (simp_all add: finish_window_def Let_def)

lemma finish_window_ratios:
  "HTODRatio (finish_window w) =
    (if TotalMemcpyBytes w > 0 then f64_div (f64_of (HTODBytes w)) (f64_of (TotalMemcpyBytes w)) else HTODRatio w)"
  "SyncFraction (finish_window w) =
    (if window_count w > 0 then f64_div (f64_of (StreamSyncCount w)) (f64_of (window_count w)) else SyncFraction w)"
  by (simp_all add: finish_window_def Let_def window_count_def ac_simps)

lemma finish_window_rates:
  assumes "duration_seconds (Sub (WindowEnd w) (WindowStart w)) > 0"
  shows "LaunchRate (finish_window w) =
      f64_div (f64_of (KernelLaunchCount w)) (duration_seconds (Sub (WindowEnd w) (WindowStart w)))"
    "MemcpyRate (finish_window w) =
      f64_div (f64_of (MemcpyCount w)) (duration_seconds (Sub (WindowEnd w) (WindowStart w)))"
    "AllocRate (finish_window w) =
      f64_div (f64_of (MemAllocCount w)) (duration_seconds (Sub (WindowEnd w) (WindowStart w)))"
  using assms by (simp_all add: finish_window_def Let_def)

text \<open>The nominal length of a window in seconds, and a rate, up to rounding.\<close>

lemma duration_seconds_bounds:
  assumes "0 \<le> d"
  shows "(1 - eps64) ^ 3 * (of_int d / 1000000000) \<le> duration_seconds d"
    and "duration_seconds d \<le> (1 + eps64) ^ 3 * (of_int d / 1000000000)"
proof -
  let ?s = "of_int (d div 1000000000) :: rat" and ?n = "of_int (d mod 1000000000) :: rat"
  let ?l = "1 - eps64" and ?u = "1 + eps64"
  have l: "0 \<le> ?l" "?l \<le> 1" and u: "1 \<le> ?u" by (simp_all add: eps64_def)
  have nn: "0 \<le> ?s" "0 \<le> ?n" using assms by simp_all
  have G: "f64_round 1000000000 = 1000000000" using f64.rnd_exact [of 1000000000] by simp
  have d: "of_int d / 1000000000 = ?s + ?n / 1000000000"
  proof -
    have "(of_int d :: rat) = of_int (1000000000 * (d div 1000000000) + d mod 1000000000)" by simp
    also have "\<dots> = 1000000000 * ?s + ?n" by (simp only: of_int_add of_int_mult of_int_numeral)
    finally show ?thesis by (simp only: add_divide_distrib)
  qed
  let ?q = "f64_round ?n / 1000000000"
  let ?a = "f64_round ?s + f64_round ?q"
  have D: "duration_seconds d = f64_round ?a"
  proof (cases "d = 0")
    case False
    with assms have "sgn d = 1" "\<bar>d\<bar> = d" by auto
    then show ?thesis by (simp add: duration_seconds_def Let_def f64_add_def f64_div_def G)
  qed (simp add: duration_seconds_def Let_def f64_add_def f64_div_def)
  have n0: "0 \<le> f64_round ?n" and s0: "0 \<le> f64_round ?s" using nn by (simp_all add: f64.rnd_nonneg)
  then have q0: "0 \<le> ?q" by simp
  have a0: "0 \<le> ?a" using s0 f64.rnd_nonneg [OF q0] by simp
  have up_n: "?q \<le> ?u * (?n / 1000000000)" using f64.rnd_upper [OF nn(2)] by (simp add: field_simps)
  have lo_n: "?l * (?n / 1000000000) \<le> ?q" using f64.rnd_lower [OF nn(2)] by (simp add: field_simps)
  have "f64_round ?q \<le> ?u * (?u * (?n / 1000000000))"
    using f64.rnd_upper [OF q0] mult_left_mono [OF up_n, of ?u] u by linarith
  moreover have "f64_round ?s \<le> ?u * (?u * ?s)"
  proof -
    have "?s \<le> ?u * ?s" using u nn by (simp add: mult_le_cancel_right1 not_less)
    then show ?thesis using f64.rnd_upper [OF nn(1)] mult_left_mono [of ?s "?u * ?s" ?u] u by linarith
  qed
  ultimately have "?a \<le> ?u * (?u * ?s) + ?u * (?u * (?n / 1000000000))" by linarith
  also have "\<dots> = ?u * (?u * (of_int d / 1000000000))" unfolding d by (simp only: distrib_left)
  finally have "?a \<le> ?u * (?u * (of_int d / 1000000000))" .
  then have "?u * ?a \<le> ?u * (?u * (?u * (of_int d / 1000000000)))" using u by (intro mult_left_mono) auto
  from order_trans [OF f64.rnd_upper [OF a0] this]
  show "duration_seconds d \<le> ?u ^ 3 * (of_int d / 1000000000)"
    unfolding D power3_eq_cube mult.assoc .
  have "?l * (?l * (?n / 1000000000)) \<le> f64_round ?q"
    using f64.rnd_lower [OF q0] mult_left_mono [OF lo_n, of ?l] l by linarith
  moreover have "?l * (?l * ?s) \<le> f64_round ?s"
  proof -
    have "?l * ?s \<le> ?s" using l nn by (simp add: mult_left_le_one_le)
    then show ?thesis using f64.rnd_lower [OF nn(1)] mult_left_mono [of "?l * ?s" ?s ?l] l by linarith
  qed
  ultimately have "?l * (?l * ?s) + ?l * (?l * (?n / 1000000000)) \<le> ?a" by linarith
  then have "?l * (?l * (of_int d / 1000000000)) \<le> ?a" unfolding d by (simp only: distrib_left)
  then have "?l * (?l * (?l * (of_int d / 1000000000))) \<le> ?l * ?a" using l by (intro mult_left_mono) auto
  from order_trans [OF this f64.rnd_lower [OF a0]]
  show "?l ^ 3 * (of_int d / 1000000000) \<le> duration_seconds d"
    unfolding D power3_eq_cube mult.assoc .
qed

lemma duration_seconds_pos: "0 < d \<Longrightarrow> 0 < duration_seconds d"
proof -
  assume "0 < d"
  then have "0 < (1 - eps64) ^ 3 * (of_int d / 1000000000 :: rat)" by (simp add: eps64_def)
  with duration_seconds_bounds(1) [of d] \<open>0 < d\<close> show ?thesis by linarith
qed

lemma rate_bounds:
  assumes "0 < d"
  shows "(1 - eps64) ^ 2 * exact c \<le> f64_div (f64_of c) (duration_seconds d) * ((1 + eps64) ^ 3 * (of_int d / 1000000000))"
    and "f64_div (f64_of c) (duration_seconds d) * ((1 - eps64) ^ 3 * (of_int d / 1000000000)) \<le> (1 + eps64) ^ 2 * exact c"
proof -
  let ?D = "duration_seconds d" and ?r = "f64_div (f64_of c) (duration_seconds d)"
  have D: "0 < ?D" using assms by (rule duration_seconds_pos)
  have c0: "0 \<le> f64_of c" unfolding f64_of_def by (intro f64.rnd_nonneg of_nat_0_le_iff)
  have r0: "0 \<le> ?r" unfolding f64_div_def using c0 D by (intro f64.rnd_nonneg) simp
  have cb: "(1 - eps64) * exact c \<le> f64_of c" "f64_of c \<le> (1 + eps64) * exact c"
    unfolding f64_of_def exact_def by (rule f64.rnd_lower f64.rnd_upper, rule of_nat_0_le_iff)+
  have "(1 - eps64) * (f64_of c / ?D) \<le> ?r" "?r \<le> (1 + eps64) * (f64_of c / ?D)"
    unfolding f64_div_def using divide_nonneg_pos [OF c0 D] by (rule f64.rnd_lower f64.rnd_upper)+
  then have rb: "(1 - eps64) * f64_of c \<le> ?r * ?D" "?r * ?D \<le> (1 + eps64) * f64_of c"
    using D by (simp_all add: field_simps)
  have "(1 - eps64) ^ 2 * exact c \<le> (1 - eps64) * f64_of c"
    using mult_left_mono [OF cb(1), of "1 - eps64"] by (simp add: power2_eq_square mult.assoc eps64_def)
  also note rb(1)
  also have "?r * ?D \<le> ?r * ((1 + eps64) ^ 3 * (of_int d / 1000000000))"
    using duration_seconds_bounds(2) [of d] assms r0 by (intro mult_left_mono) auto
  finally show "(1 - eps64) ^ 2 * exact c \<le> ?r * ((1 + eps64) ^ 3 * (of_int d / 1000000000))" .
  have "?r * ((1 - eps64) ^ 3 * (of_int d / 1000000000)) \<le> ?r * ?D"
    using duration_seconds_bounds(1) [of d] assms r0 by (intro mult_left_mono) auto
  also note rb(2)
  also have "(1 + eps64) * f64_of c \<le> (1 + eps64) ^ 2 * exact c"
    using mult_left_mono [OF cb(2), of "1 + eps64"] by (simp add: power2_eq_square mult.assoc eps64_def)
  finally show "?r * ((1 - eps64) ^ 3 * (of_int d / 1000000000)) \<le> (1 + eps64) ^ 2 * exact c" .
qed

lemma fold_absorb_observed:
  "length evs < 2 ^ 53 \<Longrightarrow> fold absorb evs (new_window p c t t') = observed p c t t' evs"
proof (induction evs rule: rev_induct)
  case Nil
  then show ?case by (simp add: observed_Nil)
next
  case (snoc ev evs)
  then show ?case by (simp add: absorb_observed)
qed

lemma split_events_total:
  "length (launches evs) + length (memallocs evs) + length (memcpys evs) + length (streams evs) \<le> length evs"
  by (induction evs rule: launches.induct) simp_all

lemma observed_counts:
  assumes "length evs < 2 ^ 53"
  shows "unat (window_count (observed p c t t' evs)) =
      length (launches evs) + length (memallocs evs) + length (memcpys evs) + length (streams evs)"
    and "unat (StreamSyncCount (observed p c t t' evs)) = length (streams evs)"
proof -
  let ?n = "length (launches evs) + length (memallocs evs) + length (memcpys evs) + length (streams evs)"
  have n: "?n < 2 ^ LENGTH(64)" using assms split_events_total [of evs] by simp
  have "window_count (observed p c t t' evs) = of_nat ?n" by (simp add: window_count_def observed_def)
  then show "unat (window_count (observed p c t t' evs)) = ?n"
    using n by (simp only: unat_of_nat mod_less)
  have "length (streams evs) < 2 ^ LENGTH(64)" using n by linarith
  then show "unat (StreamSyncCount (observed p c t t' evs)) = length (streams evs)"
    by (simp add: observed_def unat_of_nat take_bit_nat_eq_self)
qed

lemma filter_sums:
  "sum_list (map unat (map CopySize (filter P ms))) + sum_list (map unat (map CopySize (filter (\<lambda>e. \<not> P e) ms)))
    = sum_list (map unat (map CopySize ms))"
  by (induction ms) simp_all

section \<open>Properties\<close>

text \<open>
  C10: Over any run of arrivals and ticks (fewer than \<open>2 ^ 53\<close> of them), the aggregator's batches and
  windows are those of the abstract history: each process's window is the exact list of the events it
  absorbed, closed by the first tick after its end, and every statistic is the one its events amount to.
\<close>

lemma aggregator_refines_history:
  assumes "ticks_fit (ga_Update b2s) ga_Flush (\<lambda>(now, order) ga. iterates order (windows ga)) ops
      (NewGPUAggregator now0 dur)"
    and "length ops < 2 ^ 53"
  shows "fst (collector_run (ga_Update b2s) ga_Flush ops (NewGPUAggregator now0 dur))
      = fst (collector_run (history_update b2s) (history_flush dur) ops Map.empty) \<and>
    windows (snd (collector_run (ga_Update b2s) ga_Flush ops (NewGPUAggregator now0 dur)))
      = fingerprints dur (snd (collector_run (history_update b2s) (history_flush dur) ops Map.empty))"
proof -
  have "windows (NewGPUAggregator now0 dur) = fingerprints dur Map.empty"
    and "windowDuration (NewGPUAggregator now0 dur) = dur"
    by (auto simp: NewGPUAggregator_def fingerprints_def)
  with agg_run_refines [of "NewGPUAggregator now0 dur" Map.empty b2s ops 0] assms show ?thesis
    by (simp add: history_bound_def)
qed

lemma aggregator_refines_history_witness:
  "windows (snd (collector_run (ga_Update (\<lambda>c. c)) ga_Flush [Arrive 1 sample_copy, Arrive 2 sample_copy]
      (NewGPUAggregator 0 10))) 42
    = Some (observed 42 (replicate 150 0) 1 11 [sample_copy, sample_copy])"
proof -
  have f: "ticks_fit (ga_Update (\<lambda>c. c)) ga_Flush (\<lambda>(now, order) ga. iterates order (windows ga))
     [Arrive 1 sample_copy, Arrive 2 sample_copy] (NewGPUAggregator 0 10)" by simp
  from aggregator_refines_history [OF f] show ?thesis
    by (simp add: history_update_def fingerprints_def) (simp add: sample_copy_def)
qed

text \<open>
  The aggregator reports every event once: the event counts in a process's reported windows plus
  those of its open window are its arrivals, on the counters' width.
\<close>

lemma aggregator_conserves:
  assumes "ticks_fit (ga_Update b2s) ga_Flush (\<lambda>(now, order) ga. iterates order (windows ga)) ops
      (NewGPUAggregator now0 dur)"
  shows "sum_list (map (\<lambda>b. events_for p (gb_batch b))
        (fst (collector_run (ga_Update b2s) ga_Flush ops (NewGPUAggregator now0 dur))))
      + ga_pending p (snd (collector_run (ga_Update b2s) ga_Flush ops (NewGPUAggregator now0 dur)))
    = of_nat (arrivals p ops)"
proof -
  have "ga_inv (NewGPUAggregator now0 dur)" "ga_pending p (NewGPUAggregator now0 dur) = 0"
    by (simp_all add: ga_inv_def ga_pending_def NewGPUAggregator_def)
  with agg.run_conserves [OF _ assms, of p] show ?thesis by simp
qed

lemma aggregator_conserves_witness:
  "(let r = collector_run (ga_Update (\<lambda>c. c)) ga_Flush [Arrive 1 sample_copy, Tick (20, [42]), Arrive 25 sample_copy]
        (NewGPUAggregator 0 10)
    in sum_list (map (\<lambda>b. events_for 42 (gb_batch b)) (fst r)) + ga_pending 42 (snd r)) = 2"
proof -
  have f: "ticks_fit (ga_Update (\<lambda>c. c)) ga_Flush (\<lambda>(now, order) ga. iterates order (windows ga))
     [Arrive 1 sample_copy, Tick (20, [42]), Arrive 25 sample_copy] (NewGPUAggregator 0 10)"
    by (simp add: sample_copy_def ga_Update_alt with_window_windows NewGPUAggregator_def iterates_def)
  from aggregator_conserves [OF f, of 42] show ?thesis by (simp add: sample_copy_def Let_def)
qed

text \<open>
  C19: Every average a window keeps incrementally is the mean of its observations up to three
  roundings per event: after \<open>n\<close> events the relative error is at most \<open>(1 + 2 ^ -53) ^ (3 n) - 1\<close>.
\<close>

lemma averages_accurate:
  assumes "length evs < 2 ^ 53"
  shows "let w = fold absorb evs (new_window p c t t');
      close = (\<lambda>avg xs. (1 - eps64) ^ (3 * length xs) * sum_list (map exact xs) \<le> avg * of_nat (length xs) \<and>
        avg * of_nat (length xs) \<le> (1 + eps64) ^ (3 * length xs) * sum_list (map exact xs))
    in close (AvgThreadsPerKernel w) (map TotalThreads (launches evs)) \<and>
       close (AvgBlocksPerKernel w) (map launch_blocks (launches evs)) \<and>
       close (AvgMemAllocBytes w) (map ByteSize (memallocs evs)) \<and>
       close (AvgMemcpyBytes w) (map CopySize (memcpys evs)) \<and>
       close (AvgSyncTimeNs w) (map DeltaNs (streams evs))"
  unfolding Let_def fold_absorb_observed [OF assms]
  using mean_of_bounds [of "map TotalThreads (launches evs)"] mean_of_bounds [of "map launch_blocks (launches evs)"]
    mean_of_bounds [of "map ByteSize (memallocs evs)"] mean_of_bounds [of "map CopySize (memcpys evs)"]
    mean_of_bounds [of "map DeltaNs (streams evs)"]
  by (simp add: observed_def)

lemma averages_accurate_witness:
  "512 * (1 - eps64) ^ 6 \<le> AvgMemcpyBytes (fold absorb [sample_copy, sample_copy] (new_window 42 [] 0 10))"
  using averages_accurate [of "[sample_copy, sample_copy]" 42 "[]" 0 10]
  by (simp add: sample_copy_def Let_def exact_def)

text \<open>
  C24: The two ratios a report carries lie between 0 and 1, for any window whose copied bytes do not
  exceed the 64-bit counters.
\<close>

lemma ratios_in_range:
  assumes "length evs < 2 ^ 53" and "sum_list (map unat (map CopySize (memcpys evs))) < 2 ^ 64"
  shows "let w = finish_window (fold absorb evs (new_window p c t t'))
    in 0 \<le> HTODRatio w \<and> HTODRatio w \<le> 1 \<and> 0 \<le> SyncFraction w \<and> SyncFraction w \<le> 1"
proof -
  let ?w = "observed p c t t' evs"
  let ?h = "map CopySize (filter is_htod (memcpys evs))"
  let ?d = "map CopySize (filter (\<lambda>e. \<not> is_htod e) (memcpys evs))"
  have fs: "sum_list (map unat ?h) + sum_list (map unat ?d) < 2 ^ 64"
    using assms(2) filter_sums [of is_htod "memcpys evs"] by simp
  have "unat (HTODBytes ?w) = sum_list (map unat ?h)"
    using fs sum_exact [of ?h] by (simp add: observed_def)
  moreover have "unat (TotalMemcpyBytes ?w) = sum_list (map unat (map CopySize (memcpys evs)))"
    using sum_exact [OF assms(2)] by (simp add: observed_def)
  ultimately have b: "unat (HTODBytes ?w) \<le> unat (TotalMemcpyBytes ?w)"
    using filter_sums [of is_htod "memcpys evs"] by simp
  have n: "unat (StreamSyncCount ?w) \<le> unat (window_count ?w)" using observed_counts [OF assms(1)] by simp
  have z: "HTODRatio ?w = 0" "SyncFraction ?w = 0" by (simp_all add: observed_def new_window_def)
  show ?thesis unfolding Let_def fold_absorb_observed [OF assms(1)] finish_window_ratios z
    using f64_ratio [OF b] f64_ratio [OF n] by auto
qed

lemma ratios_in_range_witness:
  "0 \<le> HTODRatio (finish_window (fold absorb [sample_copy] (new_window 42 [] 0 10)))"
  using ratios_in_range [of "[sample_copy]" 42 "[]" 0 10] by (simp add: sample_copy_def Let_def)

text \<open>
  C25: The rates a report carries are the event counts per second of the window's nominal length, up to
  five roundings; a window of non-positive length gets no rates.
\<close>

lemma rates_accurate:
  assumes "WindowEnd w = Add (WindowStart w) dur" and "0 < dur"
  shows "let w' = finish_window w; s = of_int dur / 1000000000;
      close = (\<lambda>rate n. (1 - eps64) ^ 2 * exact n \<le> rate * ((1 + eps64) ^ 3 * s) \<and>
        rate * ((1 - eps64) ^ 3 * s) \<le> (1 + eps64) ^ 2 * exact n)
    in close (LaunchRate w') (KernelLaunchCount w) \<and> close (MemcpyRate w') (MemcpyCount w) \<and>
       close (AllocRate w') (MemAllocCount w)"
proof -
  have d: "Sub (WindowEnd w) (WindowStart w) = dur" using assms(1) by simp
  have "0 < duration_seconds (Sub (WindowEnd w) (WindowStart w))"
    unfolding d using assms(2) by (rule duration_seconds_pos)
  from finish_window_rates [OF this] show ?thesis
    unfolding Let_def d using rate_bounds [OF assms(2)] by simp
qed

lemma rates_accurate_witness:
  "(1 - eps64) ^ 2 * 4 \<le>
    LaunchRate (finish_window ((new_window 42 [] 0 2000000000)\<lparr>KernelLaunchCount := 4\<rparr>)) * ((1 + eps64) ^ 3 * 2)"
proof -
  let ?w = "(new_window 42 [] 0 2000000000)\<lparr>KernelLaunchCount := 4\<rparr>"
  have "WindowEnd ?w = Add (WindowStart ?w) 2000000000" by (simp add: new_window_def)
  from rates_accurate [OF this]
  have "(1 - eps64) ^ 2 * exact (KernelLaunchCount ?w) \<le>
    LaunchRate (finish_window ?w) * ((1 + eps64) ^ 3 * (of_int 2000000000 / 1000000000))"
    unfolding Let_def by (simp only: simp_thms)
  moreover have "exact (KernelLaunchCount ?w) = 4" by (simp add: exact_def)
  ultimately show ?thesis by simp
qed

text \<open>
  C20: A flush reports and closes exactly the windows whose end lies strictly before the clock reading,
  each once and under its own process; the others stay as they are, and nothing is sent when none ended.
\<close>

lemma flush_closes_ended:
  assumes "ga_inv ga" and "iterates order (windows ga)"
  shows "let (b, ga') = ga_Flush (now, order) ga; ended = (\<lambda>p. \<exists>w. windows ga p = Some w \<and> After now (WindowEnd w))
    in windows ga' = (\<lambda>p. if ended p then None else windows ga p) \<and>
       (b = None \<longleftrightarrow> (\<forall>p. \<not> ended p)) \<and>
       (\<forall>b'. b = Some b' \<longrightarrow> distinct (map ge_pid (gb_batch b')) \<and>
          set (gb_batch b') = {window_event w |p w. windows ga p = Some w \<and> After now (WindowEnd w)})"
proof -
  let ?m = "windows ga" and ?ps = "filter (expired now (windows ga)) order"
  have ex: "expired now ?m p \<longleftrightarrow> (\<exists>w. ?m p = Some w \<and> After now (WindowEnd w))" for p
    by (auto simp: expired_def split: option.splits)
  have ps: "set ?ps = {p. expired now ?m p}"
    using assms(2) by (auto simp: iterates_def expired_def split: option.splits)
  have pid: "PID (the (?m p)) = p" if "p \<in> dom ?m" for p
    using assms(1) that by (auto simp: ga_inv_def window_ok_def)
  have pids: "map (\<lambda>p. ge_pid (window_event (the (?m p)))) ?ps = ?ps"
    using assms(2) pid by (intro map_idI) (auto simp: iterates_def)
  have "distinct ?ps" using assms(2) by (simp add: iterates_def)
  then have dist: "distinct (map ge_pid (map (\<lambda>p. window_event (the (?m p))) ?ps))"
    unfolding map_map comp_def pids .
  have evs: "(\<lambda>p. window_event (the (?m p))) ` set ?ps = {window_event w |p w. ?m p = Some w \<and> After now (WindowEnd w)}"
    unfolding ps ex by force
  have "?ps = [] \<longleftrightarrow> (\<forall>p. \<not> expired now ?m p)" using ps by (metis (mono_tags, lifting) empty_iff mem_Collect_eq set_empty set_empty2 subsetI subset_empty)
  then show ?thesis
    using dist evs unfolding ga_Flush_eq [OF assms(2)] Let_def ex [symmetric]
    by (cases "?ps = []") (auto simp del: set_filter)
qed

lemma flush_closes_ended_witness:
  "windows (snd (ga_Flush (20, [42]) (ga_Update (\<lambda>c. c) 1 sample_copy (NewGPUAggregator 0 10)))) = Map.empty"
proof -
  let ?ga = "ga_Update (\<lambda>c. c) 1 sample_copy (NewGPUAggregator 0 10)"
  have "ga_inv (NewGPUAggregator 0 10)" by (simp add: ga_inv_def NewGPUAggregator_def)
  then have inv: "ga_inv ?ga" by (rule ga_Update_inv)
  have w: "windows ?ga = [42 \<mapsto> observed 42 (replicate 150 0) 1 11 [sample_copy]]"
  proof -
    have "event_pid sample_copy = Some 42" "event_comm sample_copy = replicate 150 0"
      by (simp_all add: sample_copy_def)
    moreover have "absorb sample_copy (new_window 42 (replicate 150 0) 1 11) =
      observed 42 (replicate 150 0) 1 11 [sample_copy]"
      using absorb_observed [of "[]" sample_copy 42 "replicate 150 0" 1 11] by (simp add: observed_Nil)
    ultimately show ?thesis by (simp add: ga_Update_alt with_window_windows NewGPUAggregator_def)
  qed
  then have "iterates [42] (windows ?ga)" by (simp add: iterates_def)
  from flush_closes_ended [OF inv this, of 20] show ?thesis
    by (auto simp: w case_prod_unfold Let_def fun_eq_iff observed_def new_window_def After_def split: if_splits)
qed

end
