(* ===== verification/Loader.thy ===== *)
theory Loader
  imports Probe_System Kernel_Layout Timeserie Aggregator
begin

text \<open>
  The loader (\<open>internal/loaders/gpuprint_tracer_loader.go\<close> and \<open>factory.go\<close>): which program is attached
  to which symbol of the driver library, what happens when attaching fails, and the loop that hands every
  decoded event to all collectors. The ebpf library is a parameter: \<open>attach_env\<close> says what each of
  its calls returns.
\<close>

section \<open>Programs and their attachment\<close>

datatype ebpf_program =
    HandleCuLaunchkernel
  | HandleCuMemAlloc
  | HandleCuMemcpyHtod
  | HandleCuMemcpyHtodAsync
  | HandleCuMemcpyDtoh
  | HandleCuMemcpyDtohAsync
  | HandleCuStreamSync
  | HandleCuStreamSynchronizeRet
  | HandleCuCtxSync
  | HandleCuCtxSyncRet
  | WatchdogIoctl
  | HandleProcessExit

definition functions_entry :: "(string \<times> ebpf_program) list" where
  "functions_entry =
    [(''cuLaunchKernel'', HandleCuLaunchkernel),
     (''cuLaunchKernel_ptsz'', HandleCuLaunchkernel),
     (''cuMemAlloc_v2'', HandleCuMemAlloc),
     (''cuMemAlloc'', HandleCuMemAlloc),
     (''cuMemcpyHtoD_v2'', HandleCuMemcpyHtod),
     (''cuMemcpyHtoDAsync_v2'', HandleCuMemcpyHtodAsync),
     (''cuMemcpyHtoD'', HandleCuMemcpyHtod),
     (''cuMemcpyHtoDAsync'', HandleCuMemcpyHtodAsync),
     (''cuMemcpyHtoDAsync_v2_ptsz'', HandleCuMemcpyHtod),
     (''cuMemcpyHtoD_v2_ptds'', HandleCuMemcpyHtodAsync),
     (''cuMemcpyDtoH_v2'', HandleCuMemcpyDtoh),
     (''cuMemcpyDtoHAsync_v2'', HandleCuMemcpyDtohAsync),
     (''cuMemcpyDtoH'', HandleCuMemcpyDtoh),
     (''cuMemcpyDtoHAsync'', HandleCuMemcpyDtohAsync),
     (''cuMemcpyDtoHAsync_v2_ptsz'', HandleCuMemcpyDtoh),
     (''cuMemcpyDtoH_v2_ptds'', HandleCuMemcpyDtohAsync),
     (''cuStreamSynchronize'', HandleCuStreamSync),
     (''cuStreamSynchronize_ptsz'', HandleCuStreamSync),
     (''cuCtxSynchronize'', HandleCuCtxSync),
     (''cuCtxSynchronize_v2'', HandleCuCtxSync)]"

definition functions_exit :: "(string \<times> ebpf_program) list" where
  "functions_exit =
    [(''cuStreamSynchronize'', HandleCuStreamSynchronizeRet),
     (''cuStreamSynchronize_ptsz'', HandleCuStreamSynchronizeRet),
     (''cuCtxSynchronize'', HandleCuCtxSyncRet),
     (''cuCtxSynchronize_v2'', HandleCuCtxSyncRet)]"

text \<open>What firing a program with its context in memory runs.\<close>

fun fire :: "ebpf_program \<Rightarrow> bytes \<Rightarrow> probe_call" where
  "fire HandleCuLaunchkernel r = LaunchKernel (kprobe_sp r) (kprobe_arg 0 r) (kprobe_arg 1 r)
     (kprobe_arg 2 r) (kprobe_arg 3 r) (kprobe_arg 4 r) (kprobe_arg 5 r)"
| "fire HandleCuMemAlloc r = MemAlloc (kprobe_arg 0 r) (kprobe_arg 1 r)"
| "fire HandleCuMemcpyHtod r = MemcpyHtoD (kprobe_arg 0 r) (kprobe_arg 1 r) (kprobe_arg 2 r)"
| "fire HandleCuMemcpyHtodAsync r =
     MemcpyHtoDAsync (kprobe_arg 0 r) (kprobe_arg 1 r) (kprobe_arg 2 r) (kprobe_arg 3 r)"
| "fire HandleCuMemcpyDtoh r = MemcpyDtoH (kprobe_arg 0 r) (kprobe_arg 1 r) (kprobe_arg 2 r)"
| "fire HandleCuMemcpyDtohAsync r =
     MemcpyDtoHAsync (kprobe_arg 0 r) (kprobe_arg 1 r) (kprobe_arg 2 r) (kprobe_arg 3 r)"
| "fire HandleCuStreamSync r = StreamSync (kprobe_arg 0 r)"
| "fire HandleCuStreamSynchronizeRet r = StreamSyncRet"
| "fire HandleCuCtxSync r = CtxSync"
| "fire HandleCuCtxSyncRet r = CtxSyncRet"
| "fire WatchdogIoctl c = Ioctl (sys_enter_arg0 c)"
| "fire HandleProcessExit c = ProcessExit"

section \<open>Construction\<close>

record ('l, 'r) attach_env =
  remove_memlock :: "string option"
  load_objects :: "string option"
  open_executable :: "string \<Rightarrow> string option"
  env_uprobe :: "string \<Rightarrow> ebpf_program \<Rightarrow> string + 'l"
  env_uretprobe :: "string \<Rightarrow> ebpf_program \<Rightarrow> string + 'l"
  env_tracepoint :: "string \<Rightarrow> string \<Rightarrow> ebpf_program \<Rightarrow> string + 'l"
  new_reader :: "string + 'r"

record ('l, 'r, 'c) GpuprintLoader =
  Objs :: bool
  Up :: "'l list"
  Rb :: "'r option"
  collectors :: "'c list"

datatype ('l, 'r) resource = ObjsResource | LinkResource 'l | ReaderResource 'r

text \<open>\<open>Close\<close>, as the resources it releases, in order.\<close>

definition Close :: "('l, 'r, 'c) GpuprintLoader \<Rightarrow> ('l, 'r) resource list" where
  "Close gt = (if Objs gt then [ObjsResource] else []) @ map LinkResource (Up gt) @
     (case Rb gt of Some rb \<Rightarrow> [ReaderResource rb] | None \<Rightarrow> [])"

text \<open>The two attach loops: a failure skips the function and keeps the others.\<close>

fun attach_all ::
  "(string \<Rightarrow> ebpf_program \<Rightarrow> string + 'l) \<Rightarrow> (string \<times> ebpf_program) list \<Rightarrow>
    ('l, 'r, 'c) GpuprintLoader \<Rightarrow> ('l, 'r, 'c) GpuprintLoader" where
  "attach_all att [] gt = gt"
| "attach_all att ((name, prog) # fns) gt =
     (case att name prog of
        Inl err \<Rightarrow> attach_all att fns gt
      | Inr up \<Rightarrow> attach_all att fns (gt\<lparr>Up := Up gt @ [up]\<rparr>))"

definition attach_tracepoint ::
  "('l, 'r) attach_env \<Rightarrow> string \<Rightarrow> string \<Rightarrow> ebpf_program \<Rightarrow>
    ('l, 'r, 'c) GpuprintLoader \<Rightarrow> ('l, 'r, 'c) GpuprintLoader" where
  "attach_tracepoint env grp name prog gt =
    (case env_tracepoint env grp name prog of
       Inl err \<Rightarrow> gt
     | Inr tp \<Rightarrow> gt\<lparr>Up := Up gt @ [tp]\<rparr>)"

text \<open>The result, and the resources released on the way out of a failure.\<close>

definition NewGpuprinterLoader ::
  "('l, 'r) attach_env \<Rightarrow> string \<Rightarrow> 'c list \<Rightarrow>
    (string + ('l, 'r, 'c) GpuprintLoader) \<times> ('l, 'r) resource list" where
  "NewGpuprinterLoader env cudaLibraryPath cs =
    (case remove_memlock env of
       Some err \<Rightarrow> (Inl err, [])
     | None \<Rightarrow>
    (case load_objects env of
       Some err \<Rightarrow> (Inl err, [])
     | None \<Rightarrow>
    (let gput = \<lparr>Objs = True, Up = [], Rb = None, collectors = []\<rparr> in
     case open_executable env cudaLibraryPath of
       Some err \<Rightarrow> (Inl err, Close gput)
     | None \<Rightarrow>
    (let gput = attach_all (env_uprobe env) functions_entry gput;
         gput = attach_all (env_uretprobe env) functions_exit gput;
         gput = attach_tracepoint env ''syscalls'' ''sys_enter_ioctl'' WatchdogIoctl gput;
         gput = attach_tracepoint env ''sched'' ''sched_process_exit'' HandleProcessExit gput
     in case new_reader env of
          Inl err \<Rightarrow> (Inl err, Close gput)
        | Inr rb \<Rightarrow>
            (let gput = gput\<lparr>Rb := Some rb\<rparr>;
                 gput = gput\<lparr>collectors := collectors gput @ cs\<rparr>
             in (Inr gput, []))))))"

section \<open>The attachments\<close>

fun successes :: "('e + 'l) list \<Rightarrow> 'l list" where
  "successes [] = []"
| "successes (Inl e # xs) = successes xs"
| "successes (Inr l # xs) = l # successes xs"

text \<open>All links a construction acquires, in order.\<close>

definition links :: "('l, 'r) attach_env \<Rightarrow> 'l list" where
  "links env = successes
    (map (\<lambda>(name, prog). env_uprobe env name prog) functions_entry @
     map (\<lambda>(name, prog). env_uretprobe env name prog) functions_exit @
     [env_tracepoint env ''syscalls'' ''sys_enter_ioctl'' WatchdogIoctl,
      env_tracepoint env ''sched'' ''sched_process_exit'' HandleProcessExit])"

lemma successes_append: "successes (xs @ ys) = successes xs @ successes ys"
  by (induction xs rule: successes.induct) simp_all

lemma successes_two: "successes [x, y] = successes [x] @ successes [y]"
  by (cases x; cases y) simp_all

lemma attach_all_eq:
  "attach_all att fns gt = gt\<lparr>Up := Up gt @ successes (map (\<lambda>(name, prog). att name prog) fns)\<rparr>"
  by (induction att fns gt rule: attach_all.induct) (auto split: sum.splits)

lemma attach_tracepoint_eq:
  "attach_tracepoint env g n p gt = gt\<lparr>Up := Up gt @ successes [env_tracepoint env g n p]\<rparr>"
  by (simp add: attach_tracepoint_def split: sum.splits)

lemma new_loader_eq:
  "NewGpuprinterLoader env path cs =
    (case remove_memlock env of Some err \<Rightarrow> (Inl err, []) | None \<Rightarrow>
     case load_objects env of Some err \<Rightarrow> (Inl err, []) | None \<Rightarrow>
     case open_executable env path of Some err \<Rightarrow> (Inl err, [ObjsResource]) | None \<Rightarrow>
     case new_reader env of
       Inl err \<Rightarrow> (Inl err, ObjsResource # map LinkResource (links env))
     | Inr rb \<Rightarrow> (Inr \<lparr>Objs = True, Up = links env, Rb = Some rb, collectors = cs\<rparr>, []))"
  by (simp add: NewGpuprinterLoader_def Let_def attach_all_eq attach_tracepoint_eq links_def
      successes_append successes_two Close_def split: option.splits sum.splits)

text \<open>The probe a driver symbol calls for, by its name.\<close>

definition symbol_call :: "string \<Rightarrow> bytes \<Rightarrow> probe_call" where
  "symbol_call name r =
    (if take 14 name = ''cuLaunchKernel'' then fire HandleCuLaunchkernel r
     else if take 10 name = ''cuMemAlloc'' then fire HandleCuMemAlloc r
     else if take 12 name = ''cuMemcpyHtoD'' then fire HandleCuMemcpyHtod r
     else if take 12 name = ''cuMemcpyDtoH'' then fire HandleCuMemcpyDtoh r
     else fire HandleCuStreamSync r)"


text \<open>
  The \<open>_ptsz\<close> and \<open>_ptds\<close> rows attach the asynchronous program to the synchronous symbol and the
  other way round; since both programs are the same function of the first three arguments, every
  symbol still gets the probe its name calls for.
\<close>

lemma entry_symbols:
  assumes "(name, prog) \<in> set functions_entry"
  shows "run_probe H R (fire prog r) s = run_probe H R (symbol_call name r) s"
proof -
  have "handle_cuCtxSync H s = handle_cuStreamSync H (kprobe_arg 0 r) s"
    by (simp only: ctx_sync_same(1) [of H "kprobe_arg 0 r"])
  with assms show ?thesis
    by (auto simp: functions_entry_def symbol_call_def memcpy_async_same)
qed

lemma exit_symbols:
  "(name, prog) \<in> set functions_exit \<Longrightarrow>
    run_probe H R (fire prog r) s = handle_cuStreamSynchronize_ret H s"
  by (auto simp: functions_exit_def ctx_sync_same(2))

text \<open>Start and end of a synchronisation are probed on the same symbols.\<close>

lemma sync_paired:
  "map fst functions_exit =
    map fst (filter (\<lambda>(_, p). p = HandleCuStreamSync \<or> p = HandleCuCtxSync) functions_entry)"
  by (simp add: functions_exit_def functions_entry_def)

section \<open>Collectors of a loader\<close>

text \<open>The dynamic types behind the interface \<open>Gpu_collectors\<close>.\<close>

datatype gpu_collector_state = Fingerprint GPUAggregator | Series TimeSeriesCollector

fun collector_Update ::
  "(bytes \<Rightarrow> bytes) \<Rightarrow> gotime \<Rightarrow> gpu_event \<Rightarrow> gpu_collector_state \<Rightarrow> gpu_collector_state" where
  "collector_Update b2s now ev (Fingerprint ga) = Fingerprint (ga_Update b2s now ev ga)"
| "collector_Update b2s now ev (Series tc) = Series (tc_Update b2s now ev tc)"

text \<open>\<open>nows\<close> are the clock readings of the collectors, one each.\<close>

definition sendToCollectors ::
  "(bytes \<Rightarrow> bytes) \<Rightarrow> gotime list \<Rightarrow> gpu_event \<Rightarrow> gpu_collector_state list \<Rightarrow> gpu_collector_state list" where
  "sendToCollectors b2s nows ev cs = map2 (\<lambda>now c. collector_Update b2s now ev c) nows cs"

text \<open>The read loop of \<open>Run\<close> with its effect on the collectors.\<close>

fun loader_loop ::
  "(bytes \<Rightarrow> bytes) \<Rightarrow> (turn \<times> gotime list) list \<Rightarrow> gpu_collector_state list \<Rightarrow> gpu_collector_state list" where
  "loader_loop b2s [] cs = cs"
| "loader_loop b2s ((t, nows) # ts) cs =
     (case t of
        CtxDone \<Rightarrow> cs
      | ReadClosed \<Rightarrow> cs
      | ReadError \<Rightarrow> loader_loop b2s ts cs
      | ReadRecord raw \<Rightarrow>
          (case handle_record raw of
             Dispatch ev \<Rightarrow> loader_loop b2s ts (sendToCollectors b2s nows ev cs)
           | _ \<Rightarrow> loader_loop b2s ts cs))"

text \<open>Each collector on its own sees the decoded events, in order, with its own clock readings.\<close>

fun arrivals_at :: "nat \<Rightarrow> (turn \<times> gotime list) list \<Rightarrow> (gotime \<times> gpu_event) list" where
  "arrivals_at i [] = []"
| "arrivals_at i ((t, nows) # ts) =
     (case t of
        CtxDone \<Rightarrow> []
      | ReadClosed \<Rightarrow> []
      | ReadError \<Rightarrow> arrivals_at i ts
      | ReadRecord raw \<Rightarrow>
          (case handle_record raw of
             Dispatch ev \<Rightarrow> (nows ! i, ev) # arrivals_at i ts
           | _ \<Rightarrow> arrivals_at i ts))"

lemma arrivals_at_events: "map snd (arrivals_at i ts) = reader_loop (map fst ts)"
  by (induction i ts rule: arrivals_at.induct) (auto split: turn.splits outcome.splits)

lemma loader_loop_collector:
  assumes "\<forall>(t, nows) \<in> set ts. length nows = length cs" and "i < length cs"
  shows "length (loader_loop b2s ts cs) = length cs \<and>
    loader_loop b2s ts cs ! i = fold (\<lambda>(now, ev). collector_Update b2s now ev) (arrivals_at i ts) (cs ! i)"
  using assms
proof (induction b2s ts cs rule: loader_loop.induct)
  case (2 b2s t nows ts cs)
  have len: "length (sendToCollectors b2s nows ev cs) = length cs"
    and nth: "sendToCollectors b2s nows ev cs ! i = collector_Update b2s (nows ! i) ev (cs ! i)" for ev
    using 2(6,7) by (auto simp: sendToCollectors_def)
  show ?case
  proof (cases t)
    case (ReadRecord raw)
    then show ?thesis using 2 len nth by (cases "handle_record raw") auto
  qed (use 2 in auto)
qed simp

section \<open>The factory\<close>

definition LoaderFingerprint :: string where "LoaderFingerprint = ''fingerprint''"

definition NewEbpfGpuLoaders ::
  "('l, 'r) attach_env \<Rightarrow> gotime \<Rightarrow> string \<Rightarrow> string \<Rightarrow> int \<Rightarrow>
    (string + ('l, 'r, gpu_collector_state) GpuprintLoader) \<times> ('l, 'r) resource list" where
  "NewEbpfGpuLoaders env now programs cudaLibraryPath timeWindow =
    (if programs = LoaderFingerprint then
       (let c1 = NewGPUAggregator now timeWindow;
            c2 = NewTimeSeriesCollector (5 * 1000000000)
        in NewGpuprinterLoader env cudaLibraryPath [Fingerprint c1, Series c2])
     else (Inl ''Unsuported or unknow program'', []))"

section \<open>Properties\<close>

text \<open>
  C23: Every row of the two attach tables gives its driver symbol the probe its name calls for: launch,
  allocation, copy in the named direction, or start of a synchronisation, with the arguments of the
  call; and exactly the synchronisation symbols get a return probe, which ends the synchronisation.
\<close>

lemma attach_tables_sound:
  "(\<forall>(name, prog) \<in> set functions_entry.
      run_probe H R (fire prog regs) s = run_probe H R (symbol_call name regs) s) \<and>
   (\<forall>(name, prog) \<in> set functions_exit.
      run_probe H R (fire prog regs) s = handle_cuStreamSynchronize_ret H s) \<and>
   map fst functions_exit =
     map fst (filter (\<lambda>(_, p). p = HandleCuStreamSync \<or> p = HandleCuCtxSync) functions_entry)"
  by (intro conjI sync_paired) (auto intro: entry_symbols exit_symbols)

lemma attach_tables_sound_witness:
  "run_probe reference_kernel sample_offsets (fire HandleCuMemcpyHtod (replicate 168 0)) sample_kernel =
   run_probe reference_kernel sample_offsets
     (symbol_call ''cuMemcpyHtoDAsync_v2_ptsz'' (replicate 168 0)) sample_kernel"
proof -
  have "(''cuMemcpyHtoDAsync_v2_ptsz'', HandleCuMemcpyHtod) \<in> set functions_entry"
    by (simp add: functions_entry_def)
  with attach_tables_sound [of reference_kernel sample_offsets "replicate 168 0" sample_kernel]
  show ?thesis by blast
qed

text \<open>
  C29: Creating a loader either fails and has then released everything it acquired (the BPF objects and
  every link attached before), or succeeds with the links of all attachments that worked, in order, the
  reader and the given collectors; an attachment that fails is skipped and fails nothing else.
\<close>

lemma new_loader_no_leak:
  "NewGpuprinterLoader env path cs =
    (case remove_memlock env of Some err \<Rightarrow> (Inl err, []) | None \<Rightarrow>
     case load_objects env of Some err \<Rightarrow> (Inl err, []) | None \<Rightarrow>
     case open_executable env path of Some err \<Rightarrow> (Inl err, [ObjsResource]) | None \<Rightarrow>
     case new_reader env of
       Inl err \<Rightarrow> (Inl err, ObjsResource # map LinkResource (links env))
     | Inr rb \<Rightarrow> (Inr \<lparr>Objs = True, Up = links env, Rb = Some rb, collectors = cs\<rparr>, []))"
  by (rule new_loader_eq)

text \<open>
  The read loop gives each collector, independently of the others and of its position, every
  decoded event in the order of the ring buffer, with that collector's own clock readings.
\<close>

lemma collectors_see_all_events:
  assumes "\<forall>(t, nows) \<in> set ts. length nows = length cs" and "i < length cs"
  shows "loader_loop b2s ts cs ! i =
      fold (\<lambda>(now, ev). collector_Update b2s now ev) (arrivals_at i ts) (cs ! i) \<and>
    map snd (arrivals_at i ts) = reader_loop (map fst ts)"
  using loader_loop_collector [OF assms] arrivals_at_events by blast

lemma collectors_see_all_events_witness:
  "loader_loop (\<lambda>c. c) [(ReadError, [1, 2]), (ReadRecord (2 # replicate 167 0), [3, 4])]
     [Fingerprint (NewGPUAggregator 0 10), Series (NewTimeSeriesCollector 5)] ! 1 =
   Series (tc_Update (\<lambda>c. c) 4 (MemallocEvent (decode_memalloc (2 # replicate 167 0))) (NewTimeSeriesCollector 5))"
  using collectors_see_all_events [of "[(ReadError, [1, 2]), (ReadRecord (2 # replicate 167 0), [3, 4])]"
      "[Fingerprint (NewGPUAggregator 0 10), Series (NewTimeSeriesCollector 5)]" 1 "\<lambda>c. c"]
  by (simp add: handle_record_simps Let_def)

end
