(* ===== verification/Config.thy ===== *)
theory Config
  imports Prelude
begin

text \<open>
  The configuration (\<open>internal/config/load_config.go\<close>): flags first, then environment variables, then
  defaults. The parsed flags, the environment, the host name and the file system are arguments.
  Strings are ASCII. \<open>logger.Fatal\<close> ends the process; it is the error case of the result.
\<close>

section \<open>The library functions it uses\<close>

text \<open>\<open>strings.Split(s, sep)\<close> for a one-character separator.\<close>

fun split_on :: "char \<Rightarrow> string \<Rightarrow> string list" where
  "split_on sep [] = [[]]"
| "split_on sep (c # s) =
     (if c = sep then [] # split_on sep s
      else (case split_on sep s of [] \<Rightarrow> [[c]] | p # ps \<Rightarrow> (c # p) # ps))"

definition is_space :: "char \<Rightarrow> bool" where
  "is_space c \<longleftrightarrow> c \<in> {CHR 0x09, CHR 0x0A, CHR 0x0B, CHR 0x0C, CHR 0x0D, CHR '' ''}"

definition TrimSpace :: "string \<Rightarrow> string" where
  "TrimSpace s = rev (dropWhile is_space (rev (dropWhile is_space s)))"

definition digit :: "char \<Rightarrow> nat option" where
  "digit c = (let n = of_char c :: nat in if 48 \<le> n \<and> n \<le> 57 then Some (n - 48) else None)"

fun digits_value :: "nat \<Rightarrow> string \<Rightarrow> nat option" where
  "digits_value acc [] = Some acc"
| "digits_value acc (c # s) =
     (case digit c of None \<Rightarrow> None | Some d \<Rightarrow> digits_value (10 * acc + d) s)"

text \<open>\<open>strconv.ParseInt(s, 10, 64)\<close>: no value for a syntax error or a value out of range.\<close>

definition ParseInt :: "string \<Rightarrow> int option" where
  "ParseInt s =
    (let (neg, ds) = (case s of
           [] \<Rightarrow> (False, [])
         | c # ds \<Rightarrow> if c = CHR ''+'' then (False, ds) else if c = CHR ''-'' then (True, ds) else (False, s))
     in if ds = [] then None
        else (case digits_value 0 ds of
                None \<Rightarrow> None
              | Some n \<Rightarrow>
                  if neg then (if n \<le> 2 ^ 63 then Some (- int n) else None)
                  else (if n < 2 ^ 63 then Some (int n) else None)))"

text \<open>Multiplication of \<open>int64\<close> values.\<close>

definition int64_mul :: "int \<Rightarrow> int \<Rightarrow> int" where
  "int64_mul a b = sint (word_of_int (a * b) :: 64 word)"

section \<open>LoadConfig\<close>

record flags =
  f_tracer :: string
  f_serverAddr :: string
  f_serverPort :: string
  f_prometheusPort :: string
  f_cudaLibPath :: string
  f_timeWindow :: string

record host =
  Getenv :: "string \<Rightarrow> string"
  Hostname :: "string option"
  file_exists :: "string \<Rightarrow> bool"

record Programsconfig =
  EnableProbes :: "string list"
  ServerAdress :: string
  Serverport :: string
  PrometheusPort :: string
  Nodename :: string
  CudaLibraryPath :: string
  TimeWindow :: int

definition common_libs :: "string list" where
  "common_libs =
    [''/usr/lib/x86_64-linux-gnu/libcuda.so.1'', ''/usr/local/cuda/compat/libcuda.so.1'']"

definition LoadConfig :: "flags \<Rightarrow> host \<Rightarrow> string + Programsconfig" where
  "LoadConfig f h =
    (let serverAddr = (if f_serverAddr f = [] then Getenv h ''SERVER_ADDR'' else f_serverAddr f);
         serverPort = (if f_serverPort f = [] then Getenv h ''SERVER_PORT'' else f_serverPort f)
     in if serverAddr = [] then Inl ''Server address is missing''
     else if serverPort = [] then Inl ''Server port is missing''
     else let prometheusPort =
                (if f_prometheusPort f = [] then Getenv h ''PROMETHEUS_PORT'' else f_prometheusPort f);
              tracer = (if f_tracer f = [] then Getenv h ''TRACER'' else f_tracer f)
     in if tracer = [] then Inl ''No probes specified for the program to run''
     else let nodeName = Getenv h ''NODE_NAME'';
              nodeName = (if nodeName = []
                          then (case Hostname h of None \<Rightarrow> ''unknown-host'' | Some n \<Rightarrow> n) else nodeName);
              probeList = map TrimSpace (split_on CHR '','' tracer);
              cudaLibPath = (if f_cudaLibPath f = [] then Getenv h ''CUDA_LIB_PATH'' else f_cudaLibPath f);
              cudaLibPath = (if cudaLibPath = []
                             then (case find (file_exists h) common_libs of Some p \<Rightarrow> p | None \<Rightarrow> [])
                             else cudaLibPath)
     in if cudaLibPath = [] then Inl ''Libcuda.so not found''
     else let timeWindow = (if f_timeWindow f = [] then ''2'' else f_timeWindow f);
              window = (case ParseInt timeWindow of None \<Rightarrow> 2 | Some w \<Rightarrow> w);
              duration = int64_mul window 1000000000
     in Inr \<lparr>EnableProbes = probeList, ServerAdress = serverAddr, Serverport = serverPort,
             PrometheusPort = prometheusPort, Nodename = nodeName, CudaLibraryPath = cudaLibPath,
             TimeWindow = duration\<rparr>)"

section \<open>Properties of the pieces\<close>

lemma split_on_nonempty [simp]: "split_on sep s \<noteq> []"
  by (induction sep s rule: split_on.induct) (auto split: list.splits)

text \<open>Splitting undoes joining: the parts hold no separator and join to the string.\<close>

fun join :: "char \<Rightarrow> string list \<Rightarrow> string" where
  "join sep [] = []"
| "join sep [p] = p"
| "join sep (p # ps) = p @ sep # join sep ps"

lemma join_Cons: "ps \<noteq> [] \<Longrightarrow> join sep (p # ps) = p @ sep # join sep ps"
  by (cases ps) simp_all

lemma join_split: "join sep (split_on sep s) = s"
proof (induction sep s rule: split_on.induct)
  case (2 sep c s)
  show ?case
  proof (cases "c = sep")
    case True
    with 2 show ?thesis by (simp add: join_Cons)
  next
    case False
    obtain p ps where ps: "split_on sep s = p # ps" by (cases "split_on sep s") simp_all
    with 2 False show ?thesis by (cases ps) (simp_all add: ps)
  qed
qed simp

lemma split_no_sep: "p \<in> set (split_on sep s) \<Longrightarrow> sep \<notin> set p"
  by (induction sep s arbitrary: p rule: split_on.induct) (auto split: list.splits if_splits)

lemma split_join:
  "ps \<noteq> [] \<Longrightarrow> \<forall>p \<in> set ps. sep \<notin> set p \<Longrightarrow> split_on sep (join sep ps) = ps"
proof (induction sep ps rule: join.induct)
  case (2 sep p)
  have "sep \<notin> set p \<Longrightarrow> split_on sep p = [p]" for p by (induction p) auto
  with 2 show ?case by simp
next
  case (3 sep p q ps)
  have "sep \<notin> set p \<Longrightarrow> split_on sep (p @ sep # s) = p # split_on sep s" for p s
    by (induction p) auto
  with 3 show ?case by simp
qed simp

lemma TrimSpace_ends: "TrimSpace s \<noteq> [] \<Longrightarrow> \<not> is_space (hd (TrimSpace s)) \<and> \<not> is_space (last (TrimSpace s))"
proof
  let ?t = "dropWhile is_space s"
  assume ne: "TrimSpace s \<noteq> []"
  then have "dropWhile is_space (rev ?t) \<noteq> []" by (simp add: TrimSpace_def)
  then show "\<not> is_space (last (TrimSpace s))"
    using hd_dropWhile [of is_space "rev ?t"] by (simp add: TrimSpace_def last_rev)
  have "?t \<noteq> []" using ne by (metis TrimSpace_def dropWhile.simps(1) rev.simps(1))
  then have h: "\<not> is_space (hd ?t)" using hd_dropWhile [of is_space s] by auto
  obtain ys where "?t = TrimSpace s @ ys"
    using takeWhile_dropWhile_id [of is_space "rev ?t"] by (metis TrimSpace_def rev_append rev_rev_ident)
  with h ne show "\<not> is_space (hd (TrimSpace s))" by (cases "TrimSpace s") auto
qed

lemma int64_mul_exact: "- (2 ^ 63) \<le> a * b \<Longrightarrow> a * b < 2 ^ 63 \<Longrightarrow> int64_mul a b = a * b"
  unfolding int64_mul_def by (subst signed_of_int) (simp add: signed_take_bit_int_eq_self)

section \<open>Properties\<close>

text \<open>
  C33: The configuration is refused, with the first missing item, exactly when the server address, the
  server port, the probe list or the library path is given neither by flag nor by environment (nor, for
  the library, found at a default place).
\<close>

lemma config_refused:
  "(\<exists>err. LoadConfig f h = Inl err) \<longleftrightarrow>
    f_serverAddr f = [] \<and> Getenv h ''SERVER_ADDR'' = [] \<or>
    f_serverPort f = [] \<and> Getenv h ''SERVER_PORT'' = [] \<or>
    f_tracer f = [] \<and> Getenv h ''TRACER'' = [] \<or>
    f_cudaLibPath f = [] \<and> Getenv h ''CUDA_LIB_PATH'' = [] \<and> (\<forall>p \<in> set common_libs. \<not> file_exists h p)"
proof -
  have lib: "(case find (file_exists h) common_libs of Some p \<Rightarrow> p | None \<Rightarrow> []) = [] \<longleftrightarrow>
    (\<forall>p \<in> set common_libs. \<not> file_exists h p)"
    by (auto simp: common_libs_def)
  show ?thesis unfolding LoadConfig_def Let_def by (auto simp: lib)
qed

lemma config_refused_witness:
  "\<exists>err. LoadConfig \<lparr>f_tracer = ''fingerprint'', f_serverAddr = ''127.0.0.1'', f_serverPort = [],
      f_prometheusPort = [], f_cudaLibPath = [], f_timeWindow = []\<rparr>
    \<lparr>Getenv = (\<lambda>_. []), Hostname = None, file_exists = (\<lambda>_. True)\<rparr> = Inl err"
  unfolding config_refused by simp

text \<open>
  C32: The time window of an accepted configuration is the number of seconds of the flag in nanoseconds,
  2 seconds without a flag or with one that is no decimal 64-bit integer, and exact as long as the
  product fits an \<open>int64\<close>.
\<close>

lemma config_time_window:
  assumes "LoadConfig f h = Inr cfg"
    and "window = (case ParseInt (f_timeWindow f) of None \<Rightarrow> 2 | Some w \<Rightarrow> w)"
    and "- 9223372036 \<le> window" and "window \<le> 9223372036"
  shows "TimeWindow cfg = window * 1000000000"
proof -
  have "ParseInt [] = None" by (simp add: ParseInt_def)
  moreover have "ParseInt ''2'' = Some 2" by (simp add: ParseInt_def digit_def Let_def)
  ultimately have "TimeWindow cfg = int64_mul window 1000000000"
    using assms(1,2) unfolding LoadConfig_def Let_def by (auto split: if_splits)
  also have "\<dots> = window * 1000000000" using assms(3,4) by (intro int64_mul_exact) auto
  finally show ?thesis .
qed

lemma config_time_window_witness:
  "\<exists>cfg. LoadConfig \<lparr>f_tracer = ''fingerprint'', f_serverAddr = ''a'', f_serverPort = ''1'',
      f_prometheusPort = [], f_cudaLibPath = ''l'', f_timeWindow = ''30''\<rparr>
    \<lparr>Getenv = (\<lambda>_. []), Hostname = None, file_exists = (\<lambda>_. True)\<rparr> = Inr cfg \<and> TimeWindow cfg = 30000000000"
proof -
  let ?f = "\<lparr>f_tracer = ''fingerprint'', f_serverAddr = ''a'', f_serverPort = ''1'',
      f_prometheusPort = [], f_cudaLibPath = ''l'', f_timeWindow = ''30''\<rparr>"
  let ?h = "\<lparr>Getenv = (\<lambda>_. []), Hostname = None, file_exists = (\<lambda>_. True)\<rparr>"
  obtain cfg where c: "LoadConfig ?f ?h = Inr cfg" by (simp add: LoadConfig_def Let_def)
  have "ParseInt ''30'' = Some 30" by (simp add: ParseInt_def digit_def Let_def)
  with config_time_window [OF c, of 30] c show ?thesis by simp
qed

text \<open>
  The probe names of an accepted configuration are the comma-separated parts of the tracer list,
  each without surrounding white space, and none of them contains a comma.
\<close>

lemma config_probe_names:
  assumes "LoadConfig f h = Inr cfg" and "f_tracer f = join CHR '','' names" and "names \<noteq> []"
    and "f_tracer f \<noteq> []" and "\<forall>nm \<in> set names. CHR '','' \<notin> set nm"
  shows "EnableProbes cfg = map TrimSpace names"
proof -
  have "EnableProbes cfg = map TrimSpace (split_on CHR '','' (f_tracer f))"
    using assms(1,4) unfolding LoadConfig_def Let_def by (auto split: if_splits)
  then show ?thesis using split_join [OF assms(3,5)] assms(2) by simp
qed

lemma config_probe_names_witness:
  "\<exists>cfg. LoadConfig \<lparr>f_tracer = ''fingerprint, other'', f_serverAddr = ''a'', f_serverPort = ''1'',
      f_prometheusPort = [], f_cudaLibPath = ''l'', f_timeWindow = []\<rparr>
    \<lparr>Getenv = (\<lambda>_. []), Hostname = None, file_exists = (\<lambda>_. True)\<rparr> = Inr cfg \<and>
    EnableProbes cfg = [''fingerprint'', ''other'']"
proof -
  let ?f = "\<lparr>f_tracer = ''fingerprint, other'', f_serverAddr = ''a'', f_serverPort = ''1'',
      f_prometheusPort = [], f_cudaLibPath = ''l'', f_timeWindow = []\<rparr>"
  let ?h = "\<lparr>Getenv = (\<lambda>_. []), Hostname = None, file_exists = (\<lambda>_. True)\<rparr>"
  obtain cfg where c: "LoadConfig ?f ?h = Inr cfg" by (simp add: LoadConfig_def Let_def)
  have "map TrimSpace [''fingerprint'', '' other''] = [''fingerprint'', ''other'']"
    by (simp add: TrimSpace_def is_space_def)
  with config_probe_names [OF c, of "[''fingerprint'', '' other'']"] c show ?thesis by simp
qed

end
