(* ===== verification/Client.thy ===== *)
theory Client
  imports Loader Config "HOL-Library.Multiset" "HOL-Library.Sublist"
begin

text \<open>
  The gRPC client (\<open>internal/grpc/grpc_client.go\<close>) and the start of the program (\<open>cmd/main.go\<close>): the
  loaders named in the configuration are created, their batches are sent one by one, and the client
  stops at cancellation or when the server is gone. The result of every call of the gRPC stub is an input.
\<close>

section \<open>The send loop\<close>

text \<open>A failed call: \<open>status.FromError\<close> recognises it as a status with a code, or not.\<close>

datatype grpc_code = Unavailable | Canceled | OtherCode

datatype send_result = SendOk | SendError "grpc_code option"

datatype select_case = CtxDone_case | Event_case GpuBatch send_result

datatype run_result = Waiting | ReturnNil | ReturnErr grpc_code

fun client_run :: "select_case list \<Rightarrow> GpuBatch list \<times> run_result" where
  "client_run [] = ([], Waiting)"
| "client_run (CtxDone_case # cs) = ([], ReturnNil)"
| "client_run (Event_case b r # cs) =
     (case r of
        SendError (Some code) \<Rightarrow>
          if code = Unavailable \<or> code = Canceled then ([b], ReturnErr code)
          else (let (bs, res) = client_run cs in (b # bs, res))
      | _ \<Rightarrow> (let (bs, res) = client_run cs in (b # bs, res)))"

text \<open>The turns after which the loop goes on.\<close>

fun goes_on :: "select_case \<Rightarrow> bool" where
  "goes_on CtxDone_case = False"
| "goes_on (Event_case b (SendError (Some code))) = (code = OtherCode)"
| "goes_on (Event_case b _) = True"

fun turn_batch :: "select_case \<Rightarrow> GpuBatch list" where
  "turn_batch CtxDone_case = []"
| "turn_batch (Event_case b r) = [b]"

lemma client_run_goes_on:
  "goes_on c \<Longrightarrow> client_run (c # cs) =
    (turn_batch c @ fst (client_run cs), snd (client_run cs))"
  by (cases c rule: goes_on.cases)
    (auto simp: case_prod_unfold Let_def split: send_result.splits option.splits grpc_code.splits)

lemma client_run_prefix:
  "\<forall>c \<in> set cs. goes_on c \<Longrightarrow> client_run (cs @ ds) =
    (concat (map turn_batch cs) @ fst (client_run ds), snd (client_run ds))"
  by (induction cs) (simp_all add: client_run_goes_on del: client_run.simps)

section \<open>Fan-in of the loaders\<close>

text \<open>
  The goroutines forward the batches of several channels into one: any merge that keeps each
  channel's order.
\<close>

inductive merges :: "'a list list \<Rightarrow> 'a list \<Rightarrow> bool" where
  drained: "\<forall>c \<in> set cs. c = [] \<Longrightarrow> merges cs []"
| forward: "i < length cs \<Longrightarrow> cs ! i = x # rest \<Longrightarrow> merges (cs[i := rest]) xs \<Longrightarrow> merges cs (x # xs)"

lemma mset_list_update:
  "i < length cs \<Longrightarrow> cs ! i = x # rest \<Longrightarrow>
    sum_list (map mset cs) = add_mset x (sum_list (map mset (cs[i := rest])))"
proof (induction cs arbitrary: i)
  case (Cons c cs)
  then show ?case by (cases i) auto
qed simp

text \<open>Nothing is lost or duplicated, and every channel's batches stay in order.\<close>

lemma merges_mset: "merges cs xs \<Longrightarrow> mset xs = sum_list (map mset cs)"
proof (induction rule: merges.induct)
  case (drained cs)
  then show ?case by (induction cs) auto
qed (simp add: mset_list_update)

lemma merges_subseq: "merges cs xs \<Longrightarrow> j < length cs \<Longrightarrow> subseq (cs ! j) xs"
proof (induction rule: merges.induct)
  case (forward i cs x rest xs)
  then show ?case by (cases "i = j") (auto simp: nth_list_update intro: list_emb_Cons)
qed (metis list_emb_Nil nth_mem)

section \<open>main\<close>

text \<open>The loaders of the configured programs; a program that cannot be loaded is logged and skipped.\<close>

fun main_loaders ::
  "(string \<Rightarrow> ('l, 'r) attach_env) \<Rightarrow> gotime \<Rightarrow> Programsconfig \<Rightarrow> string list \<Rightarrow>
    ('l, 'r, gpu_collector_state) GpuprintLoader list" where
  "main_loaders env now cfg [] = []"
| "main_loaders env now cfg (program # programs) =
     (case fst (NewEbpfGpuLoaders (env program) now program (CudaLibraryPath cfg) (TimeWindow cfg)) of
        Inr ld \<Rightarrow> ld # main_loaders env now cfg programs
      | Inl err \<Rightarrow> main_loaders env now cfg programs)"

section \<open>Properties\<close>

text \<open>
  C34: The send loop sends the batches in the order they arrive and survives every failure other than an
  unavailable or cancelled server; at the first of those it stops with that error, at cancellation
  it stops without, and what lies behind the stop is not sent.
\<close>

lemma client_sends_until_stop:
  assumes "\<forall>c \<in> set cs. goes_on c" and "\<not> goes_on stop"
  shows "client_run (cs @ stop # ds) = (concat (map turn_batch (cs @ [stop])),
    (case stop of Event_case _ (SendError (Some code)) \<Rightarrow> ReturnErr code | _ \<Rightarrow> ReturnNil))"
proof -
  have "client_run (stop # ds) = (turn_batch stop,
    (case stop of Event_case _ (SendError (Some code)) \<Rightarrow> ReturnErr code | _ \<Rightarrow> ReturnNil))"
    using assms(2) by (cases stop rule: goes_on.cases) (auto split: grpc_code.splits intro: grpc_code.exhaust)
  then show ?thesis using client_run_prefix [OF assms(1), of "stop # ds"] by simp
qed

lemma client_sends_until_stop_witness:
  "client_run ([Event_case \<lparr>gb_type = ''a'', gb_batch = []\<rparr> SendOk,
        Event_case \<lparr>gb_type = ''b'', gb_batch = []\<rparr> (SendError None)] @
      Event_case \<lparr>gb_type = ''c'', gb_batch = []\<rparr> (SendError (Some Unavailable)) #
      [Event_case \<lparr>gb_type = ''d'', gb_batch = []\<rparr> SendOk]) =
    ([\<lparr>gb_type = ''a'', gb_batch = []\<rparr>, \<lparr>gb_type = ''b'', gb_batch = []\<rparr>,
      \<lparr>gb_type = ''c'', gb_batch = []\<rparr>], ReturnErr Unavailable)"
  by (subst client_sends_until_stop) simp_all

text \<open>
  Forwarding the loaders' channels into one loses and repeats no batch, and keeps every
  loader's batches in their order.
\<close>

lemma fan_in_complete:
  assumes "merges cs xs"
  shows "mset xs = sum_list (map mset cs) \<and> (\<forall>j < length cs. subseq (cs ! j) xs)"
  using merges_mset [OF assms] merges_subseq [OF assms] by blast

lemma fan_in_complete_witness:
  "mset [1, 3, 2] = mset [1, 2] + mset [3 :: nat]"
proof -
  have "merges [[1, 2], [3 :: nat]] [1, 3, 2]"
    by (rule merges.forward [of 0 _ 1 "[2]"], simp, simp, rule merges.forward [of 1 _ 3 "[]"], simp, simp,
        rule merges.forward [of 0 _ 2 "[]"]) (auto intro: merges.drained)
  from fan_in_complete [OF this] show ?thesis by simp
qed

text \<open>
  The program runs one loader, with an aggregator of the configured window and a time-series
  collector, for every configured probe that is the supported one and whose loading succeeds; every
  other name is skipped without effect on the rest.
\<close>

lemma main_loads_supported:
  "main_loaders env now cfg programs =
    concat (map (\<lambda>program. case fst (NewGpuprinterLoader (env program) (CudaLibraryPath cfg)
         [Fingerprint (NewGPUAggregator now (TimeWindow cfg)), Series (NewTimeSeriesCollector 5000000000)]) of
       Inl _ \<Rightarrow> [] | Inr ld \<Rightarrow> [ld]) (filter (\<lambda>program. program = ''fingerprint'') programs))"
  by (induction programs) (auto simp: NewEbpfGpuLoaders_def LoaderFingerprint_def Let_def split: sum.splits)

end
