(* ===== verification/Agent.thy ===== *)
theory Agent
  imports Client
begin

text \<open>
  The running agent: every goroutine that \<open>loaders/gpuprint_tracer_loader.go\<close> (\<open>Run\<close>), the two
  \<open>runner.go\<close> files and \<open>grpc_client.go\<close> (\<open>Run\<close>) start, with the channels between them, as one machine.
  A loader has a goroutine that reads the ring buffer, and for each collector a runner, which flushes at
  every tick, and a forwarder, which copies the runner's channel to the loader's. The client has one
  goroutine per loader, which moves batches to the channel \<open>eventCh\<close>, and the loop that sends them.
  Channels without capacity are rendezvous of two goroutines. A step is one action of one goroutine, or the
  cancellation of the context; the scheduler, the clock, the ring buffer and the server choose the actions.
\<close>

section \<open>State\<close>

text \<open>Where each goroutine stands.\<close>

datatype reader_pc = ReaderSelect | ReaderReading | Handing gpu_event nat | ReaderDone

datatype runner_pc = RunnerSelect | RunnerSend GpuBatch | RunnerDone

datatype forwarder_pc = ForwarderRange | ForwarderSend GpuBatch | ForwarderDone

datatype puller_pc = PullerSelect | PullerPush GpuBatch | PullerDone

text \<open>A lane is a collector of a loader, by their positions.\<close>

type_synonym lane = "nat \<times> nat"

record agent =
  cancelled :: bool
  reader :: "nat \<Rightarrow> reader_pc"
  collector :: "lane \<Rightarrow> gpu_collector_state"
  runner :: "lane \<Rightarrow> runner_pc"
  forwarder :: "lane \<Rightarrow> forwarder_pc"
  puller :: "nat \<Rightarrow> puller_pc"
  eventCh :: "GpuBatch list"
  client :: run_result
  calls :: "(GpuBatch \<times> send_result) list"

text \<open>
  \<open>calls\<close> logs the calls of \<open>SendGpuBatch\<close> with their results: the batches handed to it, which is what
  \<open>sent\<close> means of a batch here, and among them those the server accepted. The loop never repeats a call, so a
  batch whose call failed is lost.
\<close>

abbreviation handed :: "agent \<Rightarrow> GpuBatch list" where
  "handed s \<equiv> map fst (calls s)"

definition accepted :: "agent \<Rightarrow> GpuBatch list" where
  "accepted s = map fst (filter (\<lambda>c. snd c = SendOk) (calls s))"

definition eventCh_capacity :: nat where "eventCh_capacity = 500"

text \<open>The agent after \<open>Client.Run\<close> has started its loaders, given the collectors of each.\<close>

definition start_agent :: "gpu_collector_state list list \<Rightarrow> agent" where
  "start_agent cols =
    \<lparr>cancelled = False, reader = (\<lambda>_. ReaderSelect), collector = (\<lambda>(l, i). cols ! l ! i),
     runner = (\<lambda>_. RunnerSelect), forwarder = (\<lambda>_. ForwarderRange), puller = (\<lambda>_. PullerSelect),
     eventCh = [], client = Waiting, calls = []\<rparr>"

text \<open>The loaders and the number of collectors of each.\<close>

type_synonym topology = "nat list"

definition lanes :: "topology \<Rightarrow> lane set" where
  "lanes topo = {(l, i). l < length topo \<and> i < topo ! l}"

section \<open>The goroutines\<close>

definition enabled :: "bool \<Rightarrow> agent \<Rightarrow> agent option" where
  "enabled g s = (if g then Some s else None)"

text \<open>The reader: the \<open>select\<close> with its \<open>default\<close>, one result of \<open>Read\<close>, and one call of \<open>Update\<close>.\<close>

definition reader_enter :: "nat \<Rightarrow> agent \<Rightarrow> agent option" where
  "reader_enter l s = enabled (reader s l = ReaderSelect \<and> \<not> cancelled s)
     (s\<lparr>reader := (reader s)(l := ReaderReading)\<rparr>)"

definition handing :: "gpu_event \<Rightarrow> nat \<Rightarrow> nat \<Rightarrow> reader_pc" where
  "handing ev i n = (if i < n then Handing ev i else ReaderSelect)"

definition reader_turn :: "topology \<Rightarrow> nat \<Rightarrow> turn \<Rightarrow> agent \<Rightarrow> agent option" where
  "reader_turn topo l t s =
    (case t of
       CtxDone \<Rightarrow> enabled (reader s l = ReaderSelect \<and> cancelled s)
         (s\<lparr>reader := (reader s)(l := ReaderDone)\<rparr>)
     | ReadClosed \<Rightarrow> enabled (reader s l = ReaderReading) (s\<lparr>reader := (reader s)(l := ReaderDone)\<rparr>)
     | ReadError \<Rightarrow> enabled (reader s l = ReaderReading) (s\<lparr>reader := (reader s)(l := ReaderSelect)\<rparr>)
     | ReadRecord raw \<Rightarrow> enabled (reader s l = ReaderReading)
         (s\<lparr>reader := (reader s)(l :=
              (case handle_record raw of Dispatch ev \<Rightarrow> handing ev 0 (topo ! l) | _ \<Rightarrow> ReaderSelect))\<rparr>))"

definition deliver :: "(bytes \<Rightarrow> bytes) \<Rightarrow> topology \<Rightarrow> lane \<Rightarrow> gotime \<Rightarrow> gpu_event \<Rightarrow> agent \<Rightarrow> agent option" where
  "deliver b2s topo x now ev s = enabled (reader s (fst x) = Handing ev (snd x))
     (s\<lparr>collector := (collector s)(x := collector_Update b2s now ev (collector s x)),
        reader := (reader s)(fst x := handing ev (Suc (snd x)) (topo ! fst x))\<rparr>)"

text \<open>\<open>Flush\<close> through the interface; the time series ignores the clock.\<close>

fun collector_Flush ::
  "gotime \<times> u32 list \<Rightarrow> gpu_collector_state \<Rightarrow> GpuBatch option \<times> gpu_collector_state" where
  "collector_Flush f (Fingerprint ga) = (case ga_Flush f ga of (b, ga) \<Rightarrow> (b, Fingerprint ga))"
| "collector_Flush f (Series tc) = (case tc_Flush (snd f) tc of (b, tc) \<Rightarrow> (b, Series tc))"

text \<open>A runner: a tick, with the flush it causes, and cancellation.\<close>

definition runner_tick :: "lane \<Rightarrow> gotime \<times> u32 list \<Rightarrow> agent \<Rightarrow> agent option" where
  "runner_tick x f s =
    (let (batch, c) = collector_Flush f (collector s x)
     in enabled (runner s x = RunnerSelect)
       (s\<lparr>collector := (collector s)(x := c),
          runner := (runner s)(x := (case batch of None \<Rightarrow> RunnerSelect | Some b \<Rightarrow> RunnerSend b))\<rparr>))"

definition runner_stop :: "lane \<Rightarrow> agent \<Rightarrow> agent option" where
  "runner_stop x s = enabled (runner s x = RunnerSelect \<and> cancelled s)
     (s\<lparr>runner := (runner s)(x := RunnerDone)\<rparr>)"

text \<open>A forwarder: it takes the runner's batch, or the end of a closed channel.\<close>

definition forward_take :: "lane \<Rightarrow> agent \<Rightarrow> agent option" where
  "forward_take x s =
    (case runner s x of
       RunnerSend b \<Rightarrow> enabled (forwarder s x = ForwarderRange)
         (s\<lparr>runner := (runner s)(x := RunnerSelect), forwarder := (forwarder s)(x := ForwarderSend b)\<rparr>)
     | _ \<Rightarrow> None)"

definition forward_end :: "lane \<Rightarrow> agent \<Rightarrow> agent option" where
  "forward_end x s = enabled (runner s x = RunnerDone \<and> forwarder s x = ForwarderRange)
     (s\<lparr>forwarder := (forwarder s)(x := ForwarderDone)\<rparr>)"

text \<open>The client's goroutine of a loader.\<close>

definition puller_take :: "lane \<Rightarrow> agent \<Rightarrow> agent option" where
  "puller_take x s =
    (case forwarder s x of
       ForwarderSend b \<Rightarrow> enabled (puller s (fst x) = PullerSelect)
         (s\<lparr>forwarder := (forwarder s)(x := ForwarderRange), puller := (puller s)(fst x := PullerPush b)\<rparr>)
     | _ \<Rightarrow> None)"

definition puller_push :: "nat \<Rightarrow> agent \<Rightarrow> agent option" where
  "puller_push l s =
    (case puller s l of
       PullerPush b \<Rightarrow> enabled (length (eventCh s) < eventCh_capacity)
         (s\<lparr>puller := (puller s)(l := PullerSelect), eventCh := eventCh s @ [b]\<rparr>)
     | _ \<Rightarrow> None)"

definition puller_stop :: "nat \<Rightarrow> agent \<Rightarrow> agent option" where
  "puller_stop l s = enabled (puller s l = PullerSelect \<and> cancelled s)
     (s\<lparr>puller := (puller s)(l := PullerDone)\<rparr>)"

text \<open>The send loop: one turn with an event and the server's answer, or with the cancelled context.\<close>

definition client_send :: "send_result \<Rightarrow> agent \<Rightarrow> agent option" where
  "client_send r s =
    (case eventCh s of
       b # rest \<Rightarrow> enabled (client s = Waiting)
         (s\<lparr>eventCh := rest, calls := calls s @ [(b, r)],
            client := snd (client_run [Event_case b r])\<rparr>)
     | [] \<Rightarrow> None)"

definition client_stop :: "agent \<Rightarrow> agent option" where
  "client_stop s = enabled (client s = Waiting \<and> cancelled s)
     (s\<lparr>client := snd (client_run [CtxDone_case])\<rparr>)"

section \<open>Executions\<close>

datatype action =
    Enter nat
  | Turn nat turn
  | Deliver lane gotime gpu_event
  | TickAt lane "gotime \<times> u32 list"
  | StopRunner lane
  | Forward lane
  | EndForward lane
  | Pull lane
  | Push nat
  | StopPuller nat
  | Send send_result
  | StopClient
  | Cancel

definition in_range :: "topology \<Rightarrow> action \<Rightarrow> bool" where
  "in_range topo a =
    (case a of
       Enter l \<Rightarrow> l < length topo | Turn l t \<Rightarrow> l < length topo
     | Deliver x now ev \<Rightarrow> x \<in> lanes topo | TickAt x f \<Rightarrow> x \<in> lanes topo
     | StopRunner x \<Rightarrow> x \<in> lanes topo | Forward x \<Rightarrow> x \<in> lanes topo
     | EndForward x \<Rightarrow> x \<in> lanes topo | Pull x \<Rightarrow> x \<in> lanes topo
     | Push l \<Rightarrow> l < length topo | StopPuller l \<Rightarrow> l < length topo
     | Send r \<Rightarrow> True | StopClient \<Rightarrow> True | Cancel \<Rightarrow> True)"

fun act :: "(bytes \<Rightarrow> bytes) \<Rightarrow> topology \<Rightarrow> action \<Rightarrow> agent \<Rightarrow> agent option" where
  "act b2s topo (Enter l) s = reader_enter l s"
| "act b2s topo (Turn l t) s = reader_turn topo l t s"
| "act b2s topo (Deliver x now ev) s = deliver b2s topo x now ev s"
| "act b2s topo (TickAt x f) s = runner_tick x f s"
| "act b2s topo (StopRunner x) s = runner_stop x s"
| "act b2s topo (Forward x) s = forward_take x s"
| "act b2s topo (EndForward x) s = forward_end x s"
| "act b2s topo (Pull x) s = puller_take x s"
| "act b2s topo (Push l) s = puller_push l s"
| "act b2s topo (StopPuller l) s = puller_stop l s"
| "act b2s topo (Send r) s = client_send r s"
| "act b2s topo StopClient s = client_stop s"
| "act b2s topo Cancel s = Some (s\<lparr>cancelled := True\<rparr>)"

definition agent_step :: "(bytes \<Rightarrow> bytes) \<Rightarrow> topology \<Rightarrow> action \<Rightarrow> agent \<Rightarrow> agent option" where
  "agent_step b2s topo a s = (if in_range topo a then act b2s topo a s else None)"

abbreviation runs where "runs b2s topo \<equiv> step_runs (agent_step b2s topo)"
abbreviation exec where "exec b2s topo \<equiv> step_exec (agent_step b2s topo)"

lemma agent_stepD: "agent_step b2s topo a s = Some s' \<Longrightarrow> in_range topo a \<and> act b2s topo a s = Some s'"
  by (simp add: agent_step_def split: if_splits)

lemma runs_induct [consumes 1, case_names start step]:
  assumes "runs b2s topo s as s'" and "P [] s"
    and "\<And>as s1 a s2. runs b2s topo s as s1 \<Longrightarrow> P as s1 \<Longrightarrow> in_range topo a \<Longrightarrow> act b2s topo a s1 = Some s2 \<Longrightarrow>
      P (as @ [a]) s2"
  shows "P as s'"
  using assms by (induction rule: step_runs.induct) (auto dest: agent_stepD)

lemmas act_defs = enabled_def reader_enter_def reader_turn_def deliver_def runner_tick_def runner_stop_def
  forward_take_def forward_end_def puller_take_def puller_push_def puller_stop_def client_send_def
  client_stop_def

section \<open>What a lane sees\<close>

text \<open>The operations on a collector, and the events a reader dispatched, in an execution.\<close>

fun lane_op :: "lane \<Rightarrow> action \<Rightarrow> (gotime, gotime \<times> u32 list) collector_op list" where
  "lane_op x (Deliver y now ev) = (if y = x then [Arrive now ev] else [])"
| "lane_op x (TickAt y f) = (if y = x then [Tick f] else [])"
| "lane_op x a = []"

definition lane_ops :: "lane \<Rightarrow> action list \<Rightarrow> (gotime, gotime \<times> u32 list) collector_op list" where
  "lane_ops x as = concat (map (lane_op x) as)"

lemma lane_ops_simps [simp]:
  "lane_ops x [] = []" "lane_ops x (as @ [a]) = lane_ops x as @ lane_op x a"
  by (simp_all add: lane_ops_def)

definition lane_run :: "(bytes \<Rightarrow> bytes) \<Rightarrow> lane \<Rightarrow> action list \<Rightarrow> agent \<Rightarrow> GpuBatch list \<times> gpu_collector_state" where
  "lane_run b2s x as s = collector_run (collector_Update b2s) collector_Flush (lane_ops x as) (collector s x)"

lemma runs_collector:
  "runs b2s topo s as s' \<Longrightarrow> collector s' x = snd (lane_run b2s x as s)"
proof (induction rule: runs_induct)
  case start
  show ?case by (simp add: lane_run_def)
next
  case (step as s1 a s2)
  then show ?case
    by (cases a) (auto simp: lane_run_def act_defs collector_run_append case_prod_unfold Let_def
        split: if_splits turn.splits runner_pc.splits forwarder_pc.splits puller_pc.splits list.splits)
qed

section \<open>Batches in flight\<close>

text \<open>Lanes are quantified over as a whole.\<close>

declare split_paired_All [simp del]
declare split_paired_Ex [simp del]

fun runner_batches :: "runner_pc \<Rightarrow> GpuBatch list" where
  "runner_batches (RunnerSend b) = [b]"
| "runner_batches _ = []"

fun forwarder_batches :: "forwarder_pc \<Rightarrow> GpuBatch list" where
  "forwarder_batches (ForwarderSend b) = [b]"
| "forwarder_batches _ = []"

fun puller_batches :: "puller_pc \<Rightarrow> GpuBatch list" where
  "puller_batches (PullerPush b) = [b]"
| "puller_batches _ = []"

definition of_lane :: "lane \<Rightarrow> (lane \<times> GpuBatch) list \<Rightarrow> GpuBatch list" where
  "of_lane x ts = map snd (filter (\<lambda>t. fst t = x) ts)"

lemma of_lane_simps [simp]:
  "of_lane x [] = []" "of_lane x (ts @ us) = of_lane x ts @ of_lane x us"
  "of_lane x (t # ts) = (if fst t = x then [snd t] else []) @ of_lane x ts"
  by (simp_all add: of_lane_def)

text \<open>
  \<open>ts\<close> says which lane every batch in \<open>sent\<close> and \<open>eventCh\<close> came from, \<open>pt\<close> the same for the
  pullers; \<open>fl\<close> are the batches each lane has flushed.
\<close>

definition pipe :: "agent \<Rightarrow> (nat \<Rightarrow> lane) \<Rightarrow> lane \<Rightarrow> GpuBatch list" where
  "pipe s pt x = (if pt (fst x) = x then puller_batches (puller s (fst x)) else []) @
     forwarder_batches (forwarder s x) @ runner_batches (runner s x)"

definition traced ::
  "agent \<Rightarrow> (lane \<Rightarrow> GpuBatch list) \<Rightarrow> (lane \<times> GpuBatch) list \<Rightarrow> (nat \<Rightarrow> lane) \<Rightarrow> bool" where
  "traced s fl ts pt \<longleftrightarrow> map snd ts = handed s @ eventCh s \<and> (\<forall>l. fst (pt l) = l) \<and>
     (\<forall>x. fl x = of_lane x ts @ pipe s pt x)"

lemma client_run_one [simp]: "fst (client_run [Event_case b r]) = [b]"
  by (auto split: send_result.splits option.splits)

lemma traced_start: "traced (start_agent cols) (\<lambda>_. []) [] (\<lambda>l. (l, 0))"
  by (simp add: traced_def start_agent_def pipe_def)

lemma traced_same:
  "traced s fl ts pt \<Longrightarrow> handed s' = handed s \<Longrightarrow> eventCh s' = eventCh s \<Longrightarrow> pipe s' pt = pipe s pt \<Longrightarrow> traced s' fl ts pt"
  by (simp add: traced_def)

text \<open>The batch an action flushes at a lane.\<close>

fun flushes :: "action \<Rightarrow> agent \<Rightarrow> lane \<Rightarrow> GpuBatch list" where
  "flushes (TickAt y f) s x =
     (if y = x then (case fst (collector_Flush f (collector s x)) of None \<Rightarrow> [] | Some b \<Rightarrow> [b]) else [])"
| "flushes _ s x = []"

lemma traced_tick:
  assumes "traced s fl ts pt" and "runner_tick y f s = Some s'"
  shows "traced s' (\<lambda>x. fl x @ flushes (TickAt y f) s x) ts pt"
proof -
  have "pipe s' pt x = pipe s pt x @ flushes (TickAt y f) s x" for x
    using assms(2) by (cases "y = x")
      (auto simp: runner_tick_def enabled_def pipe_def case_prod_unfold Let_def split: if_splits option.splits)
  moreover have "handed s' = handed s" "eventCh s' = eventCh s"
    using assms(2) by (auto simp: runner_tick_def enabled_def case_prod_unfold Let_def split: if_splits)
  ultimately show ?thesis using assms(1) by (simp add: traced_def)
qed

lemma traced_push:
  assumes tr: "traced s fl ts pt" and push: "puller_push l s = Some s'"
  shows "traced s' fl (ts @ [(pt l, hd (puller_batches (puller s l)))]) pt"
proof -
  from push obtain b where b: "puller s l = PullerPush b"
    and s': "s' = s\<lparr>puller := (puller s)(l := PullerSelect), eventCh := eventCh s @ [b]\<rparr>"
    by (auto simp: puller_push_def enabled_def split: puller_pc.splits if_splits)
  have "fl x = of_lane x (ts @ [(pt l, b)]) @ pipe s' pt x" for x
  proof (cases "fst x = l")
    case True
    then show ?thesis using tr b s' by (auto simp: traced_def pipe_def)
  next
    case False
    then have "pt l \<noteq> x" using tr by (auto simp: traced_def)
    with False show ?thesis using tr s' by (simp add: traced_def pipe_def)
  qed
  with tr b s' show ?thesis by (auto simp: traced_def)
qed

lemma traced_pull:
  assumes tr: "traced s fl ts pt" and pull: "puller_take x s = Some s'"
  shows "traced s' fl ts (pt(fst x := x))"
proof -
  from pull obtain b where b: "forwarder s x = ForwarderSend b" "puller s (fst x) = PullerSelect"
    and s': "s' = s\<lparr>forwarder := (forwarder s)(x := ForwarderRange), puller := (puller s)(fst x := PullerPush b)\<rparr>"
    by (auto simp: puller_take_def enabled_def split: forwarder_pc.splits if_splits)
  have "pipe s' (pt(fst x := x)) y = pipe s pt y" for y
    using b by (cases "y = x") (auto simp: pipe_def s')
  with tr s' show ?thesis by (auto simp: traced_def)
qed

lemma pipe_forward:
  "forward_take x s = Some s' \<Longrightarrow> handed s' = handed s \<and> eventCh s' = eventCh s \<and> pipe s' pt = pipe s pt"
  by (auto simp: act_defs pipe_def fun_eq_iff split: runner_pc.splits if_splits)

lemma traced_step:
  assumes tr: "traced s fl ts pt" and step: "act b2s topo a s = Some s'"
  shows "\<exists>ts pt. traced s' (\<lambda>x. fl x @ flushes a s x) ts pt"
proof (cases a)
  case (TickAt y f)
  with traced_tick [OF tr, of y f s'] step show ?thesis by (simp del: flushes.simps) blast
next
  case (Push l)
  with traced_push [OF tr] step show ?thesis by auto
next
  case (Pull y)
  with traced_pull [OF tr, of y s'] step show ?thesis by auto
next
  case (Send r)
  then have "map snd ts = handed s' @ eventCh s' \<and> pipe s' pt = pipe s pt"
    using step tr by (auto simp: act_defs traced_def pipe_def fun_eq_iff simp del: client_run.simps split: list.splits if_splits)
  with tr Send have "traced s' (\<lambda>x. fl x @ flushes a s x) ts pt" by (simp add: traced_def)
  then show ?thesis by blast
next
  case (Forward y)
  with pipe_forward [of y s s' pt] traced_same [OF tr] step show ?thesis by auto
next
  case (Turn l t)
  have "handed s' = handed s \<and> eventCh s' = eventCh s \<and> pipe s' pt = pipe s pt"
    using step Turn by (cases t) (auto simp: act_defs pipe_def fun_eq_iff split: if_splits)
  with Turn traced_same [OF tr] show ?thesis by auto
qed (use step in \<open>auto simp: act_defs Let_def pipe_def fun_eq_iff
    intro!: exI traced_same [OF tr] split: if_splits\<close>)

lemma runs_traced:
  "runs b2s topo (start_agent cols) as s' \<Longrightarrow>
    \<exists>ts pt. traced s' (\<lambda>x. fst (lane_run b2s x as (start_agent cols))) ts pt"
proof (induction rule: runs_induct)
  case start
  then show ?case using traced_start by (auto simp: lane_run_def)
next
  case (step as s1 a s2)
  have "fst (lane_run b2s x (as @ [a]) (start_agent cols)) =
    fst (lane_run b2s x as (start_agent cols)) @ flushes a s1 x" for x
    using runs_collector [OF step.hyps(1), of x]
    by (cases a) (auto simp: lane_run_def collector_run_append Let_def case_prod_unfold split: option.splits)
  with step traced_step show ?case by fastforce
qed

section \<open>The send loop\<close>

text \<open>The server's answers in an execution.\<close>

fun answer :: "action \<Rightarrow> send_result list" where
  "answer (Send r) = [r]"
| "answer _ = []"

definition answers :: "action list \<Rightarrow> send_result list" where
  "answers as = concat (map answer as)"

lemma answers_simps [simp]: "answers [] = []" "answers (as @ [a]) = answers as @ answer a"
  by (simp_all add: answers_def)

text \<open>The turns of the send loop that an agent has behind it.\<close>

definition client_turns :: "agent \<Rightarrow> select_case list" where
  "client_turns s = map (\<lambda>(b, r). Event_case b r) (calls s) @ (if client s = ReturnNil then [CtxDone_case] else [])"

lemma client_run_append:
  "snd (client_run cs) = Waiting \<Longrightarrow>
    client_run (cs @ ds) = (fst (client_run cs) @ fst (client_run ds), snd (client_run ds))"
  by (induction cs rule: client_run.induct)
    (auto simp: case_prod_unfold Let_def split: send_result.splits option.splits if_splits)

lemma client_run_event: "client_run [Event_case b r] \<noteq> (bs, ReturnNil)"
  by (auto split: send_result.splits option.splits)

text \<open>The machine's loop is the one of \<open>client_run\<close>, one turn at a time.\<close>

lemma runs_client:
  "runs b2s topo (start_agent cols) as s \<Longrightarrow>
    client_run (client_turns s) = (handed s, client s) \<and> map snd (calls s) = answers as"
proof (induction rule: runs_induct)
  case start
  show ?case by (simp add: client_turns_def start_agent_def)
next
  case (step as s1 a s2)
  show ?case
  proof (cases a)
    case (Send r)
    then obtain b rest where e: "client s1 = Waiting"
      and s2: "s2 = s1\<lparr>eventCh := rest, calls := calls s1 @ [(b, r)], client := snd (client_run [Event_case b r])\<rparr>"
      using step.hyps(3) by (auto simp: act_defs simp del: client_run.simps split: list.splits if_splits)
    have w: "client_run (map (\<lambda>(b, r). Event_case b r) (calls s1)) = (handed s1, Waiting)"
      using step.IH e by (simp add: client_turns_def)
    have "client s2 \<noteq> ReturnNil" using client_run_event [of b r "[b]"] by (simp add: s2 prod_eq_iff del: client_run.simps)
    then show ?thesis using step.IH Send client_run_append [of _ "[Event_case b r]"] w
      by (simp add: client_turns_def s2 del: client_run.simps)
  next
    case StopClient
    then have e: "client s1 = Waiting" and s2: "s2 = s1\<lparr>client := ReturnNil\<rparr>"
      using step.hyps(3) by (auto simp: act_defs split: if_splits)
    have w: "client_run (map (\<lambda>(b, r). Event_case b r) (calls s1)) = (handed s1, Waiting)"
      using step.IH e by (simp add: client_turns_def)
    then show ?thesis using step.IH StopClient client_run_append [of _ "[CtxDone_case]"]
      by (simp add: client_turns_def s2)
  qed (use step in \<open>auto simp: client_turns_def act_defs Let_def case_prod_unfold split: if_splits turn.splits
    runner_pc.splits forwarder_pc.splits puller_pc.splits\<close>)
qed

section \<open>The reader and its lanes\<close>

text \<open>The events the reader of a loader has decoded.\<close>

fun dispatched_by :: "nat \<Rightarrow> action \<Rightarrow> gpu_event list" where
  "dispatched_by l (Turn m t) = (if m = l then turn_events t else [])"
| "dispatched_by l _ = []"

definition dispatched :: "nat \<Rightarrow> action list \<Rightarrow> gpu_event list" where
  "dispatched l as = concat (map (dispatched_by l) as)"

lemma dispatched_simps [simp]:
  "dispatched l [] = []" "dispatched l (as @ [a]) = dispatched l as @ dispatched_by l a"
  by (simp_all add: dispatched_def)

text \<open>The event a reader still owes a collector.\<close>

fun owed :: "nat \<Rightarrow> reader_pc \<Rightarrow> gpu_event list" where
  "owed i (Handing ev j) = (if j \<le> i then [ev] else [])"
| "owed i _ = []"

lemma owed_handing [simp]: "i < n \<Longrightarrow> owed i (handing ev j n) = (if j \<le> i then [ev] else [])"
  by (simp add: handing_def)

lemma runs_delivered:
  assumes "runs b2s topo (start_agent cols) as s" and x: "x \<in> lanes topo"
  shows "dispatched (fst x) as = arrived (lane_ops x as) @ owed (snd x) (reader s (fst x))"
  using assms(1)
proof (induction rule: runs_induct)
  case start
  then show ?case by (simp add: start_agent_def)
next
  case (step as s1 a s2)
  have n: "snd x < topo ! fst x" using x by (auto simp: lanes_def)
  show ?case
  proof (cases a)
    case (Turn l t)
    show ?thesis
    proof (cases t)
      case (ReadRecord raw)
      with step Turn n show ?thesis
        by (cases "handle_record raw") (auto simp: act_defs turn_events_def split: if_splits)
    qed (use step Turn in \<open>auto simp: act_defs turn_events_def split: if_splits\<close>)
  next
    case (Deliver y now ev)
    have "y = x \<or> fst y \<noteq> fst x \<or> fst y = fst x \<and> snd y \<noteq> snd x" by (metis prod.collapse)
    then show ?thesis using step Deliver n by (auto simp: act_defs split: if_splits)
  qed (use step in \<open>auto simp: act_defs Let_def case_prod_unfold split: if_splits runner_pc.splits
      forwarder_pc.splits puller_pc.splits list.splits\<close>)
qed

section \<open>Accounting\<close>

fun collector_pending :: "u32 \<Rightarrow> gpu_collector_state \<Rightarrow> u64" where
  "collector_pending p (Fingerprint ga) = ga_pending p ga"
| "collector_pending p (Series tc) = tc_pending p tc"

fun collector_inv :: "gpu_collector_state \<Rightarrow> bool" where
  "collector_inv (Fingerprint ga) = ga_inv ga"
| "collector_inv (Series tc) = True"

fun collector_fits :: "gotime \<times> u32 list \<Rightarrow> gpu_collector_state \<Rightarrow> bool" where
  "collector_fits f (Fingerprint ga) = iterates (snd f) (windows ga)"
| "collector_fits f (Series tc) = iterates (snd f) (buffers tc)"

interpretation col: gpu_collector "collector_Update b2s" collector_Flush collector_pending collector_inv
  collector_fits
proof (unfold_locales, goal_cases)
  case (1 s t ev)
  then show ?case by (cases s) (simp_all add: ga_Update_inv)
next
  case (2 s p t ev)
  then show ?case by (cases s) (simp_all add: ga_Update_pending tc_Update_pending)
next
  case (3 s f)
  then show ?case by (cases s; cases f) (use agg.flush_inv in \<open>auto simp: case_prod_unfold\<close>)
next
  case (4 s f p)
  then show ?case
  proof (cases s)
    case (Fingerprint ga)
    with 4 ga_Flush_pending [of ga "snd f" p "fst f"] show ?thesis by (simp add: case_prod_unfold)
  next
    case (Series tc)
    with 4 ts.flush_pending [of "snd f" tc p] show ?thesis by (simp add: case_prod_unfold)
  qed
next
  case (5 f s b)
  then show ?case
  proof (cases s)
    case (Fingerprint ga)
    with 5 agg.flush_nonempty [of f ga b] show ?thesis by (simp add: case_prod_unfold)
  next
    case (Series tc)
    with 5 ts.flush_nonempty [of "snd f" tc b] show ?thesis by (simp add: case_prod_unfold)
  qed
qed

definition batches_events :: "u32 \<Rightarrow> GpuBatch list \<Rightarrow> u64" where
  "batches_events p bs = sum_list (map (\<lambda>b. events_for p (gb_batch b)) bs)"

lemma batches_events_append [simp]: "batches_events p (bs @ cs) = batches_events p bs + batches_events p cs"
  by (simp add: batches_events_def)

lemma start_collector [simp]: "collector (start_agent cols) x = cols ! fst x ! snd x"
  by (simp add: start_agent_def case_prod_unfold)

lemma lane_conserves:
  assumes run: "runs b2s topo (start_agent cols) as s" and x: "x \<in> lanes topo"
    and fit: "ticks_fit (collector_Update b2s) collector_Flush collector_fits (lane_ops x as) (cols ! fst x ! snd x)"
    and inv: "collector_inv (cols ! fst x ! snd x)" and zero: "collector_pending p (cols ! fst x ! snd x) = 0"
    and tr: "traced s (\<lambda>x. fst (lane_run b2s x as (start_agent cols))) ts pt"
  shows "batches_events p (of_lane x ts) + batches_events p (pipe s pt x) + collector_pending p (collector s x)
      + of_nat (events_count p (owed (snd x) (reader s (fst x))))
    = of_nat (events_count p (dispatched (fst x) as))"
proof -
  have "batches_events p (fst (lane_run b2s x as (start_agent cols))) + collector_pending p (collector s x)
      = of_nat (events_count p (arrived (lane_ops x as)))"
    using col.run_conserves [OF inv fit, of p] zero runs_collector [OF run, of x]
    by (simp add: batches_events_def lane_run_def arrivals_arrived)
  moreover have "fst (lane_run b2s x as (start_agent cols)) = of_lane x ts @ pipe s pt x"
    using tr by (simp add: traced_def)
  ultimately show ?thesis using runs_delivered [OF run x] by simp
qed

declare split_paired_All [simp]
declare split_paired_Ex [simp]

end
