(* ===== verification/Agent_Progress.thy ===== *)
theory Agent_Progress
  imports Agent
begin

text \<open>
  The running agent makes progress: a bound on its internal actions, delivery of everything the collectors
  flush, accounting from the ring buffer to the server, and what a shutdown leaves behind.
\<close>

declare split_paired_All [simp del]
declare split_paired_Ex [simp del]

section \<open>Work\<close>

text \<open>
  How many internal actions a goroutine or a batch in flight can still cause. A batch weighs more the
  further it is from the server; a goroutine that has returned weighs nothing.
\<close>

fun reader_work :: "nat \<Rightarrow> reader_pc \<Rightarrow> nat" where
  "reader_work n ReaderSelect = 2"
| "reader_work n ReaderReading = 1"
| "reader_work n (Handing ev i) = 2 + (n - i)"
| "reader_work n ReaderDone = 0"

fun runner_work :: "runner_pc \<Rightarrow> nat" where
  "runner_work RunnerSelect = 1"
| "runner_work (RunnerSend b) = 5"
| "runner_work RunnerDone = 0"

fun forwarder_work :: "forwarder_pc \<Rightarrow> nat" where
  "forwarder_work ForwarderRange = 1"
| "forwarder_work (ForwarderSend b) = 4"
| "forwarder_work ForwarderDone = 0"

fun puller_work :: "puller_pc \<Rightarrow> nat" where
  "puller_work PullerSelect = 1"
| "puller_work (PullerPush b) = 3"
| "puller_work PullerDone = 0"

definition work :: "topology \<Rightarrow> agent \<Rightarrow> nat" where
  "work topo s = length (eventCh s) + (if client s = Waiting then 1 else 0) +
     (\<Sum>x\<in>lanes topo. runner_work (runner s x)) + (\<Sum>x\<in>lanes topo. forwarder_work (forwarder s x)) +
     (\<Sum>l<length topo. reader_work (topo ! l) (reader s l)) + (\<Sum>l<length topo. puller_work (puller s l))"

text \<open>The actions that bring in something new: a read that returns, a tick, the cancellation.\<close>

definition internal :: "action \<Rightarrow> bool" where
  "internal a =
    (case a of Turn l t \<Rightarrow> t = CtxDone \<or> t = ReadClosed | TickAt x f \<Rightarrow> False | Cancel \<Rightarrow> False | _ \<Rightarrow> True)"

definition input_work :: "topology \<Rightarrow> action \<Rightarrow> nat" where
  "input_work topo a =
    (case a of Turn l t \<Rightarrow> if t = CtxDone \<or> t = ReadClosed then 0 else Suc (topo ! l)
     | TickAt x f \<Rightarrow> 4 | _ \<Rightarrow> 0)"

lemma lanes_Sigma: "lanes topo = Sigma {..<length topo} (\<lambda>l. {..<topo ! l})"
  by (auto simp: lanes_def)

lemma finite_lanes [simp]: "finite (lanes topo)"
  by (simp add: lanes_Sigma)

text \<open>One goroutine moves: the sum changes by what it weighs.\<close>

lemmas runner_upd = sum_upd [where g = "\<lambda>_. runner_work"]
  and forwarder_upd = sum_upd [where g = "\<lambda>_. forwarder_work"]
  and puller_upd = sum_upd [where g = "\<lambda>_. puller_work"]

lemma reader_work_handing [simp]: "reader_work n (handing ev i n) = 2 + (n - i)"
  by (simp add: handing_def)

lemma client_after: "(if snd (client_run [c]) = Waiting then 1 else 0) \<le> (1 :: nat)"
  by simp

lemma act_work:
  assumes act: "act b2s topo a s = Some s'" and range: "in_range topo a"
  shows "work topo s' + (if internal a then 1 else 0) \<le> work topo s + input_work topo a"
proof (cases a)
  case (Enter l)
  with act range sum_upd [of "{..<length topo}" l "\<lambda>l. reader_work (topo ! l)" "reader s" ReaderReading]
  show ?thesis by (auto simp: act_defs work_def internal_def input_work_def in_range_def split: if_splits)
next
  case (Turn l t)
  then have l: "l \<in> {..<length topo}" using range by (simp add: in_range_def)
  from act Turn obtain v where s': "s' = s\<lparr>reader := (reader s)(l := v)\<rparr>"
    and v: "reader_work (topo ! l) v + (if internal a then 1 else 0) \<le>
      reader_work (topo ! l) (reader s l) + input_work topo a"
    by (cases t) (auto simp: act_defs internal_def input_work_def split: if_splits outcome.splits)
  from s' v sum_upd [OF _ l, of "\<lambda>l. reader_work (topo ! l)" "reader s" v]
  show ?thesis by (simp add: work_def)
next
  case (Deliver x now ev)
  then have l: "fst x \<in> {..<length topo}" and i: "snd x < topo ! fst x"
    using range by (auto simp: in_range_def lanes_def)
  from act Deliver i sum_upd [OF _ l, of "\<lambda>l. reader_work (topo ! l)" "reader s"
      "handing ev (Suc (snd x)) (topo ! fst x)"]
  show ?thesis by (auto simp: act_defs work_def internal_def input_work_def split: if_splits)
next
  case (TickAt x f)
  obtain batch c where f: "collector_Flush f (collector s x) = (batch, c)" by fastforce
  let ?v = "case batch of None \<Rightarrow> RunnerSelect | Some b \<Rightarrow> RunnerSend b"
  have "runner_work ?v \<le> 5" by (simp split: option.splits)
  with f act TickAt range runner_upd [of "lanes topo" x "runner s" ?v]
  show ?thesis
    by (auto simp: runner_tick_def enabled_def work_def internal_def input_work_def in_range_def split: if_splits)
next
  case (StopRunner x)
  with act range runner_upd [of "lanes topo" x "runner s" RunnerDone]
  show ?thesis by (auto simp: act_defs work_def internal_def input_work_def in_range_def split: if_splits)
next
  case (Forward x)
  then have x: "x \<in> lanes topo" using range by (simp add: in_range_def)
  from act Forward obtain b where b: "runner s x = RunnerSend b" "forwarder s x = ForwarderRange"
    and s': "s' = s\<lparr>runner := (runner s)(x := RunnerSelect), forwarder := (forwarder s)(x := ForwarderSend b)\<rparr>"
    by (auto simp: act_defs split: runner_pc.splits if_splits)
  from b s' x Forward runner_upd [of "lanes topo" x "runner s" RunnerSelect]
    forwarder_upd [of "lanes topo" x "forwarder s" "ForwarderSend b"]
  show ?thesis by (simp add: work_def internal_def input_work_def)
next
  case (EndForward x)
  with act range forwarder_upd [of "lanes topo" x "forwarder s" ForwarderDone]
  show ?thesis by (auto simp: act_defs work_def internal_def input_work_def in_range_def split: if_splits)
next
  case (Pull x)
  then have x: "x \<in> lanes topo" "fst x \<in> {..<length topo}" using range by (auto simp: in_range_def lanes_def)
  from act Pull obtain b where b: "forwarder s x = ForwarderSend b" "puller s (fst x) = PullerSelect"
    and s': "s' = s\<lparr>forwarder := (forwarder s)(x := ForwarderRange), puller := (puller s)(fst x := PullerPush b)\<rparr>"
    by (auto simp: act_defs split: forwarder_pc.splits if_splits)
  from b s' x Pull forwarder_upd [of "lanes topo" x "forwarder s" ForwarderRange]
    puller_upd [of "{..<length topo}" "fst x" "puller s" "PullerPush b"]
  show ?thesis by (simp add: work_def internal_def input_work_def)
next
  case (Push l)
  then have l: "l \<in> {..<length topo}" using range by (simp add: in_range_def)
  from act Push obtain b where b: "puller s l = PullerPush b"
    and s': "s' = s\<lparr>puller := (puller s)(l := PullerSelect), eventCh := eventCh s @ [b]\<rparr>"
    by (auto simp: act_defs split: puller_pc.splits if_splits)
  from b s' l Push puller_upd [of "{..<length topo}" l "puller s" PullerSelect]
  show ?thesis by (simp add: work_def internal_def input_work_def)
next
  case (StopPuller l)
  with act range puller_upd [of "{..<length topo}" l "puller s" PullerDone]
  show ?thesis by (auto simp: act_defs work_def internal_def input_work_def in_range_def split: if_splits)
next
  case (Send r)
  then obtain b rest where e: "eventCh s = b # rest" "client s = Waiting"
    and s': "s' = s\<lparr>eventCh := rest, calls := calls s @ [(b, r)],
      client := snd (client_run [Event_case b r])\<rparr>"
    using act by (auto simp: act_defs simp del: client_run.simps split: list.splits if_splits)
  show ?thesis using e s' Send client_after [of "Event_case b r"]
    by (simp add: work_def internal_def input_work_def del: client_run.simps)
next
  case StopClient
  with act show ?thesis by (auto simp: act_defs work_def internal_def input_work_def split: if_splits)
next
  case Cancel
  with act show ?thesis by (auto simp: work_def internal_def input_work_def)
qed

lemma runs_work:
  "runs b2s topo s as s' \<Longrightarrow>
    work topo s' + length (filter internal as) \<le> work topo s + sum_list (map (input_work topo) as)"
proof (induction rule: runs_induct)
  case (step as s1 a s2)
  from act_work [OF step.hyps(3,2)] step.IH show ?case by (cases "internal a") simp_all
qed simp


section \<open>Progress\<close>

text \<open>Goroutines return only after cancellation.\<close>

definition serving :: "agent \<Rightarrow> bool" where
  "serving s \<longleftrightarrow> (\<forall>x. runner s x \<noteq> RunnerDone) \<and> (\<forall>x. forwarder s x \<noteq> ForwarderDone) \<and>
     (\<forall>l. puller s l \<noteq> PullerDone)"

lemma act_serving:
  "act b2s topo a s = Some s' \<Longrightarrow> \<not> cancelled s \<Longrightarrow> serving s \<Longrightarrow> serving s'"
  by (cases a) (auto simp: act_defs serving_def Let_def case_prod_unfold simp del: client_run.simps
      split: if_splits turn.splits runner_pc.splits forwarder_pc.splits puller_pc.splits list.splits option.splits)

lemma act_cancelled: "act b2s topo a s = Some s' \<Longrightarrow> cancelled s \<Longrightarrow> cancelled s'"
  by (cases a) (auto simp: act_defs Let_def case_prod_unfold simp del: client_run.simps
      split: if_splits turn.splits runner_pc.splits forwarder_pc.splits puller_pc.splits list.splits)

lemma runs_serving:
  "runs b2s topo (start_agent cols) as s \<Longrightarrow> \<not> cancelled s \<Longrightarrow> serving s"
proof (induction rule: runs_induct)
  case start
  show ?case by (simp add: serving_def start_agent_def)
next
  case (step as s1 a s2)
  then show ?case using act_serving act_cancelled by blast
qed

text \<open>The actions that move batches towards the server, whose answers let the client go on.\<close>

fun transport :: "action \<Rightarrow> bool" where
  "transport (Forward x) = True"
| "transport (Pull x) = True"
| "transport (Push l) = True"
| "transport (Send r) = (snd (client_run [Event_case \<lparr>gb_type = [], gb_batch = []\<rparr> r]) = Waiting)"
| "transport _ = False"

definition drained :: "topology \<Rightarrow> agent \<Rightarrow> bool" where
  "drained topo s \<longleftrightarrow> eventCh s = [] \<and>
     (\<forall>x\<in>lanes topo. runner_batches (runner s x) = [] \<and> forwarder_batches (forwarder s x) = [] \<and>
        puller_batches (puller s (fst x)) = [])"

lemma transport_progress:
  assumes serving: "serving s" and waiting: "client s = Waiting" and "\<not> drained topo s"
  shows "\<exists>a s'. transport a \<and> in_range topo a \<and> act b2s topo a s = Some s'"
proof (cases "eventCh s")
  case (Cons b rest)
  then have "\<exists>s'. act b2s topo (Send SendOk) s = Some s'" using waiting by (simp add: act_defs)
  then show ?thesis by (intro exI [of _ "Send SendOk"]) (auto simp: in_range_def)
next
  case Nil
  with assms(3) obtain x where x: "x \<in> lanes topo" and
    "runner_batches (runner s x) \<noteq> [] \<or> forwarder_batches (forwarder s x) \<noteq> [] \<or>
     puller_batches (puller s (fst x)) \<noteq> []" by (auto simp: drained_def)
  then consider b where "puller s (fst x) = PullerPush b"
    | b where "puller_batches (puller s (fst x)) = []" "forwarder s x = ForwarderSend b"
    | b where "forwarder_batches (forwarder s x) = []" "runner s x = RunnerSend b"
    by (cases "puller s (fst x)"; cases "forwarder s x"; cases "runner s x") auto
  then show ?thesis
  proof cases
    case (1 b)
    then have "\<exists>s'. act b2s topo (Push (fst x)) s = Some s'"
      using Nil by (simp add: act_defs eventCh_capacity_def)
    then show ?thesis using x by (intro exI [of _ "Push (fst x)"]) (auto simp: in_range_def lanes_def)
  next
    case (2 b)
    then have "puller s (fst x) = PullerSelect" using serving by (cases "puller s (fst x)") (auto simp: serving_def)
    then have "\<exists>s'. act b2s topo (Pull x) s = Some s'" using 2 by (simp add: act_defs)
    then show ?thesis using x by (intro exI [of _ "Pull x"]) (auto simp: in_range_def)
  next
    case (3 b)
    then have "forwarder s x = ForwarderRange" using serving by (cases "forwarder s x") (auto simp: serving_def)
    then have "\<exists>s'. act b2s topo (Forward x) s = Some s'" using 3 by (simp add: act_defs)
    then show ?thesis using x by (intro exI [of _ "Forward x"]) (auto simp: in_range_def)
  qed
qed

lemma client_result_any:
  "snd (client_run [Event_case b r]) = snd (client_run [Event_case \<lparr>gb_type = [], gb_batch = []\<rparr> r])"
  by (auto simp: Let_def split: send_result.splits option.splits)

lemma transport_keeps:
  assumes "act b2s topo a s = Some s'" and "transport a"
  shows "cancelled s' = cancelled s \<and> (client s = Waiting \<longrightarrow> client s' = Waiting)"
proof (cases a)
  case (Send r)
  then show ?thesis using assms client_result_any [of _ r]
    by (auto simp: act_defs simp del: client_run.simps split: list.splits if_splits)
qed (use assms in \<open>auto simp: act_defs split: if_splits runner_pc.splits forwarder_pc.splits puller_pc.splits\<close>)

lemma runs_transport:
  "runs b2s topo s bs s' \<Longrightarrow> \<forall>a \<in> set bs. transport a \<Longrightarrow>
    cancelled s' = cancelled s \<and> (client s = Waiting \<longrightarrow> client s' = Waiting)"
proof (induction rule: runs_induct)
  case (step as s1 a s2)
  then show ?case using transport_keeps [OF step.hyps(3)] by auto
qed simp

lemma transport_internal: "transport a \<Longrightarrow> internal a \<and> input_work topo a = 0"
  by (cases a) (simp_all add: internal_def input_work_def)

lemma transport_no_ops: "transport a \<Longrightarrow> lane_op x a = []"
  by (cases a) simp_all

lemma transport_lane_ops: "\<forall>a \<in> set bs. transport a \<Longrightarrow> lane_ops x (as @ bs) = lane_ops x as"
  by (induction bs rule: rev_induct) (simp_all add: transport_no_ops flip: append_assoc)

lemma transport_bounded:
  assumes "runs b2s topo s bs s'" and "\<forall>a \<in> set bs. transport a"
  shows "length bs \<le> work topo s"
proof -
  have "filter internal bs = bs" using assms(2) transport_internal by (simp add: filter_id_conv)
  moreover have "sum_list (map (input_work topo) bs) = 0"
    using assms(2) transport_internal by (induction bs) auto
  ultimately show ?thesis using runs_work [OF assms(1)] by (simp only: add_0_right)
qed

text \<open>When transport comes to rest, every flushed batch has been sent, lane by lane in order.\<close>

lemma transport_delivers:
  assumes run: "runs b2s topo (start_agent cols) as s" and "\<not> cancelled s" and "client s = Waiting"
    and bs: "runs b2s topo s bs s'" "\<forall>a \<in> set bs. transport a"
    and rest: "\<forall>a. transport a \<and> in_range topo a \<longrightarrow> act b2s topo a s' = None"
  shows "drained topo s' \<and> (\<exists>ts. map snd ts = handed s' \<and>
    (\<forall>x\<in>lanes topo. of_lane x ts = fst (lane_run b2s x as (start_agent cols))))"
proof -
  note k = runs_transport [OF bs]
  note all = step_runs_append [OF bs(1) run]
  have dr: "drained topo s'"
    using transport_progress [OF runs_serving [OF all], of topo b2s] k assms(2,3) rest by force
  obtain ts pt where tr: "traced s' (\<lambda>x. fst (lane_run b2s x (as @ bs) (start_agent cols))) ts pt"
    using runs_traced [OF all] by blast
  have "of_lane x ts = fst (lane_run b2s x as (start_agent cols))" if "x \<in> lanes topo" for x
    using tr dr that bs(2) by (simp add: traced_def drained_def pipe_def lane_run_def transport_lane_ops)
  then show ?thesis using tr dr by (auto simp: traced_def drained_def)
qed

section \<open>Shutdown\<close>

lemma act_abandoned:
  "act b2s topo a s = Some s' \<Longrightarrow> puller s (fst x) = PullerDone \<Longrightarrow> forwarder s x = ForwarderSend b \<Longrightarrow>
    puller s' (fst x) = PullerDone \<and> forwarder s' x = ForwarderSend b"
  by (cases a) (auto simp: act_defs Let_def case_prod_unfold simp del: client_run.simps
      split: if_splits turn.splits runner_pc.splits forwarder_pc.splits puller_pc.splits list.splits)

lemma act_returned:
  "act b2s topo a s = Some s' \<Longrightarrow> client s \<noteq> Waiting \<Longrightarrow> client s' = client s \<and> handed s' = handed s"
  by (cases a) (auto simp: act_defs Let_def case_prod_unfold simp del: client_run.simps
      split: if_splits turn.splits runner_pc.splits forwarder_pc.splits puller_pc.splits list.splits)

lemma act_capacity:
  "act b2s topo a s = Some s' \<Longrightarrow> length (eventCh s) \<le> eventCh_capacity \<Longrightarrow> length (eventCh s') \<le> eventCh_capacity"
  by (cases a) (auto simp: act_defs Let_def case_prod_unfold simp del: client_run.simps
      split: if_splits turn.splits runner_pc.splits forwarder_pc.splits puller_pc.splits list.splits)

interpretation capacity: step_invariant "agent_step b2s topo" "\<lambda>s. length (eventCh s) \<le> eventCh_capacity"
  by unfold_locales (auto dest: agent_stepD act_capacity)

interpretation returned: step_invariant "agent_step b2s topo" "\<lambda>s. client s = c \<and> c \<noteq> Waiting \<and> handed s = bs"
  by unfold_locales (auto dest!: agent_stepD dest: act_returned)

interpretation abandoned: step_invariant "agent_step b2s topo"
    "\<lambda>s. puller s (fst x) = PullerDone \<and> forwarder s x = ForwarderSend b"
  by unfold_locales (auto dest!: agent_stepD dest: act_abandoned)

section \<open>A schedule\<close>

lemma lanes_one: "lanes [Suc 0] = {(0, 0)}"
  by (auto simp: lanes_def)

text \<open>A schedule: one record through one collector to the server.\<close>

definition sample_record :: bytes where "sample_record = 2 # replicate 167 0"

definition sample_schedule :: "action list" where
  "sample_schedule =
    [Enter 0, Turn 0 (ReadRecord sample_record),
     Deliver (0, 0) 7 (MemallocEvent (decode_memalloc sample_record)), TickAt (0, 0) (9, [0]),
     Forward (0, 0), Pull (0, 0), Push 0, Send SendOk]"

definition sample_collectors :: "gpu_collector_state list list" where
  "sample_collectors = [[Series (NewTimeSeriesCollector 5)]]"

lemma sample_event:
  "handle_record sample_record = Dispatch (MemallocEvent (decode_memalloc sample_record))"
  "Pid (decode_memalloc sample_record) = 0"
  by (simp_all add: sample_record_def handle_record_simps Let_def decode_memalloc_fields at_defs bslice_def)

lemma sample_exec:
  "\<exists>s b. exec (\<lambda>c. c) [1] sample_schedule (start_agent sample_collectors) = Some s \<and> calls s = [(b, SendOk)] \<and>
     eventCh s = [] \<and> client s = Waiting \<and> \<not> cancelled s \<and> drained [1] s \<and>
     reader s 0 = ReaderSelect"
  by (auto simp: sample_schedule_def sample_collectors_def agent_step_def in_range_def lanes_def act_defs start_agent_def
      sample_event handing_def tc_Update_def EventToToken_def tc_put_def tc_Flush_def pid_events_def
      NewTimeSeriesCollector_def Let_def eventCh_capacity_def drained_def)


lemma sample_fit:
  "ticks_fit (collector_Update (\<lambda>c. c)) collector_Flush collector_fits (lane_ops (0, 0) sample_schedule)
     (sample_collectors ! 0 ! 0)"
  by (simp add: sample_schedule_def lane_ops_def sample_collectors_def tc_Update_def EventToToken_def tc_put_def
      NewTimeSeriesCollector_def Let_def sample_event iterates_def)

text \<open>The same with a server that is gone.\<close>

definition failing_schedule :: "action list" where
  "failing_schedule = butlast sample_schedule @ [Send (SendError (Some Unavailable))]"

lemma failing_exec:
  "\<exists>s b. exec (\<lambda>c. c) [1] failing_schedule (start_agent sample_collectors) = Some s \<and>
     calls s = [(b, SendError (Some Unavailable))] \<and> eventCh s = [] \<and> client s = ReturnErr Unavailable \<and> drained [1] s"
  by (auto simp: failing_schedule_def sample_schedule_def sample_collectors_def agent_step_def in_range_def lanes_def
      act_defs start_agent_def sample_event handing_def tc_Update_def EventToToken_def tc_put_def tc_Flush_def
      pid_events_def NewTimeSeriesCollector_def Let_def eventCh_capacity_def drained_def)

text \<open>A batch the server accepted, by its position among the calls.\<close>

lemma accepted_zip:
  fixes ts :: "(lane \<times> GpuBatch) list"
  assumes "map snd ts = handed s @ eventCh s"
  shows "accepted s = map snd (map fst (filter (\<lambda>(t, r). r = SendOk) (zip ts (map snd (calls s)))))"
proof -
  have "map snd (map fst (filter (\<lambda>(t, r). r = SendOk) (zip ts rs))) = map fst (filter (\<lambda>c. snd c = SendOk) (cs :: (GpuBatch \<times> send_result) list))"
    if "map snd ts = map fst cs @ q" "rs = map snd cs" for ts :: "(lane \<times> GpuBatch) list" and cs q and rs :: "send_result list"
    using that by (induction cs arbitrary: ts rs) (auto simp: Cons_eq_map_conv)
  from this [OF assms refl] show ?thesis by (simp only: accepted_def)
qed

definition fresh_collector :: "gpu_collector_state \<Rightarrow> bool" where
  "fresh_collector c = (case c of Fingerprint ga \<Rightarrow> windows ga = Map.empty | Series tc \<Rightarrow> buffers tc = Map.empty)"

lemma fresh_collector:
  "fresh_collector c \<Longrightarrow> collector_inv c \<and> collector_pending p c = 0"
  by (cases c) (simp_all add: fresh_collector_def ga_inv_def ga_pending_def tc_pending_def)

section \<open>Properties\<close>

text \<open>
  C16: In every execution of the agent, each collector's flushed batches are handed to \<open>SendGpuBatch\<close> in order:
  what a lane has flushed is what has been handed over or is queued of it, followed by the batches its puller,
  forwarder and runner hold; nothing else is handed over or queued, and the queue never holds more than 500. The
  server has accepted exactly the batches whose call succeeded, in the order of the calls; a batch whose call failed
  is not offered again. The calls and the end of the loop are those of the send loop on the server's answers.
\<close>

lemma agent_delivers:
  assumes "runs b2s topo (start_agent cols) as s"
  shows "(\<exists>ts pt. map snd ts = handed s @ eventCh s \<and> length (eventCh s) \<le> 500 \<and>
      accepted s = map snd (map fst (filter (\<lambda>(t, r). r = SendOk) (zip ts (answers as)))) \<and>
      (\<forall>x. fst (lane_run b2s x as (start_agent cols)) = of_lane x ts @
         (if pt (fst x) = x then puller_batches (puller s (fst x)) else []) @
         forwarder_batches (forwarder s x) @ runner_batches (runner s x))) \<and>
    client_run (map2 Event_case (handed s) (answers as) @ (if client s = ReturnNil then [CtxDone_case] else [])) =
      (handed s, client s)"
proof
  have cap: "length (eventCh s) \<le> 500"
    using capacity.runs_keep [OF assms] by (simp add: start_agent_def eventCh_capacity_def)
  have ans: "answers as = map snd (calls s)" using runs_client [OF assms] by simp
  obtain ts pt where ts: "map snd ts = handed s @ eventCh s" and
    fl: "\<forall>x. fst (lane_run b2s x as (start_agent cols)) = of_lane x ts @
       (if pt (fst x) = x then puller_batches (puller s (fst x)) else []) @
       forwarder_batches (forwarder s x) @ runner_batches (runner s x)"
    using runs_traced [OF assms] unfolding traced_def pipe_def by blast
  from accepted_zip [OF ts] cap ts fl ans
  show "\<exists>ts pt. map snd ts = handed s @ eventCh s \<and> length (eventCh s) \<le> 500 \<and>
      accepted s = map snd (map fst (filter (\<lambda>(t, r). r = SendOk) (zip ts (answers as)))) \<and>
      (\<forall>x. fst (lane_run b2s x as (start_agent cols)) = of_lane x ts @
         (if pt (fst x) = x then puller_batches (puller s (fst x)) else []) @
         forwarder_batches (forwarder s x) @ runner_batches (runner s x))" by auto
  have "map2 Event_case (handed s) (answers as) = map (\<lambda>(b, r). Event_case b r) (calls s)"
    unfolding ans zip_map_fst_snd ..
  then show "client_run (map2 Event_case (handed s) (answers as) @ (if client s = ReturnNil then [CtxDone_case] else [])) =
      (handed s, client s)"
    using conjunct1 [OF runs_client [OF assms]] by (simp only: client_turns_def)
qed

text \<open>The server is gone at the first call: the batch was handed over and not accepted.\<close>

lemma agent_delivers_witness:
  "\<exists>s b ts. runs (\<lambda>c. c) [1] (start_agent sample_collectors) failing_schedule s \<and> map snd ts = handed s \<and>
     handed s = [b] \<and> accepted s = [] \<and> client s = ReturnErr Unavailable \<and>
     fst (lane_run (\<lambda>c. c) (0, 0) failing_schedule (start_agent sample_collectors)) = of_lane (0, 0) ts"
proof -
  obtain s b where s: "exec (\<lambda>c. c) [1] failing_schedule (start_agent sample_collectors) = Some s"
    "calls s = [(b, SendError (Some Unavailable))]" "eventCh s = []" "client s = ReturnErr Unavailable" "drained [1] s"
    using failing_exec by blast
  note run = step_exec_runs [OF s(1)]
  obtain ts pt where ts: "map snd ts = handed s @ eventCh s"
    "accepted s = map snd (map fst (filter (\<lambda>(t, r). r = SendOk) (zip ts (answers failing_schedule))))"
    "\<And>x. fst (lane_run (\<lambda>c. c) x failing_schedule (start_agent sample_collectors)) = of_lane x ts @
       (if pt (fst x) = x then puller_batches (puller s (fst x)) else []) @
       forwarder_batches (forwarder s x) @ runner_batches (runner s x)"
    using conjunct1 [OF agent_delivers [OF run]] by blast
  obtain t where "ts = [t]" using ts(1) s(2,3) by (cases ts) auto
  moreover have "answers failing_schedule = [SendError (Some Unavailable)]"
    by (simp add: answers_def failing_schedule_def sample_schedule_def)
  ultimately have "accepted s = []" using ts(2) by simp
  moreover have "fst (lane_run (\<lambda>c. c) (0, 0) failing_schedule (start_agent sample_collectors)) = of_lane (0, 0) ts"
    using ts(3) [of "(0, 0)"] s(5) by (simp add: drained_def lanes_one)
  ultimately show ?thesis using run ts(1) s(2-4)
    by (intro exI [of _ s] exI [of _ b] exI [of _ ts]) simp
qed

text \<open>
  C8: End to end in user space: for every collector and process, the events in the batches sent or
  queued of it, in the batches its goroutines hold, and still pending in it, with the one the reader is
  handing round, are exactly the events the loader has decoded, on 64 bits.
\<close>

lemma agent_conserves:
  assumes "runs b2s (map length cols) (start_agent cols) as s"
    and "\<forall>cs \<in> set cols. \<forall>c \<in> set cs. fresh_collector c"
    and "\<forall>x \<in> lanes (map length cols). ticks_fit (collector_Update b2s) collector_Flush collector_fits
      (lane_ops x as) (cols ! fst x ! snd x)"
  shows "\<exists>ts pt. map snd ts = handed s @ eventCh s \<and> (\<forall>x \<in> lanes (map length cols). \<forall>p.
    batches_events p (of_lane x ts) + batches_events p (pipe s pt x) + collector_pending p (collector s x) +
      of_nat (events_count p (owed (snd x) (reader s (fst x)))) =
    of_nat (events_count p (dispatched (fst x) as)))"
proof -
  obtain ts pt where tr: "traced s (\<lambda>x. fst (lane_run b2s x as (start_agent cols))) ts pt"
    using runs_traced [OF assms(1)] by blast
  have "fresh_collector (cols ! fst x ! snd x)" if "x \<in> lanes (map length cols)" for x
  proof -
    have "cols ! fst x \<in> set cols" "cols ! fst x ! snd x \<in> set (cols ! fst x)"
      using that by (auto simp: lanes_def)
    with assms(2) show ?thesis by blast
  qed
  with lane_conserves [OF assms(1) _ _ _ _ tr] fresh_collector assms(3) tr show ?thesis
    by (intro exI [of _ ts] exI [of _ pt]) (auto simp: traced_def)
qed

lemma agent_conserves_witness:
  "\<exists>s ts. runs (\<lambda>c. c) [1] (start_agent sample_collectors) sample_schedule s \<and> map snd ts = handed s \<and>
     batches_events 0 (of_lane (0, 0) ts) + collector_pending 0 (collector s (0, 0)) = 1"
proof -
  obtain s b where s: "exec (\<lambda>c. c) [1] sample_schedule (start_agent sample_collectors) = Some s"
    "calls s = [(b, SendOk)]" "eventCh s = []" "drained [1] s" "reader s 0 = ReaderSelect" using sample_exec by blast
  have topo: "map length sample_collectors = [1]" by (simp add: sample_collectors_def)
  have run: "runs (\<lambda>c. c) (map length sample_collectors) (start_agent sample_collectors) sample_schedule s"
    unfolding topo by (rule step_exec_runs [OF s(1)])
  have fresh: "\<forall>cs \<in> set sample_collectors. \<forall>c \<in> set cs. fresh_collector c"
    by (simp add: sample_collectors_def fresh_collector_def NewTimeSeriesCollector_def)
  have fit: "\<forall>x \<in> lanes (map length sample_collectors). ticks_fit (collector_Update (\<lambda>c. c)) collector_Flush
      collector_fits (lane_ops x sample_schedule) (sample_collectors ! fst x ! snd x)"
    using sample_fit by (simp add: topo lanes_one)
  obtain ts pt where ts: "map snd ts = handed s @ eventCh s" and
    acc: "\<forall>x \<in> lanes [1]. \<forall>p. batches_events p (of_lane x ts) + batches_events p (pipe s pt x) +
      collector_pending p (collector s x) + of_nat (events_count p (owed (snd x) (reader s (fst x)))) =
      of_nat (events_count p (dispatched (fst x) sample_schedule))"
    using agent_conserves [OF run fresh fit] unfolding topo by blast
  have "dispatched 0 sample_schedule = [MemallocEvent (decode_memalloc sample_record)]"
    by (simp add: dispatched_def sample_schedule_def turn_events_def sample_event)
  then have "events_count 0 (dispatched 0 sample_schedule) = 1" by (simp add: events_count_def sample_event)
  moreover have "pipe s pt (0, 0) = []" using s(4) by (simp add: drained_def pipe_def lanes_one)
  moreover have "events_count 0 (owed 0 (reader s 0)) = 0" using s(5) by (simp add: events_count_def)
  ultimately have "batches_events 0 (of_lane (0, 0) ts) + collector_pending 0 (collector s (0, 0)) = 1"
    using bspec [OF acc, of "(0, 0)", THEN spec, of 0] by (simp add: lanes_one batches_events_def)
  with run ts s(3) show ?thesis unfolding topo by auto
qed

text \<open>
  C22: The agent has no livelock: in any execution, the number of internal actions (everything but reads that
  return, ticks and the cancellation) is at most the work in the first state plus a fixed amount per input: four
  for a tick, one more than the number of collectors for a read.
\<close>

lemma internal_work_bounded:
  assumes "runs b2s topo s as s'"
  shows "length (filter internal as) \<le> work topo s +
    sum_list (map (\<lambda>a. case a of Turn l t \<Rightarrow> if t = CtxDone \<or> t = ReadClosed then 0 else Suc (topo ! l)
       | TickAt x f \<Rightarrow> 4 | _ \<Rightarrow> 0) as)"
proof -
  have "input_work topo = (\<lambda>a. case a of Turn l t \<Rightarrow> if t = CtxDone \<or> t = ReadClosed then 0 else Suc (topo ! l)
       | TickAt x f \<Rightarrow> 4 | _ \<Rightarrow> 0)" by (rule ext) (simp add: input_work_def)
  with runs_work [OF assms] show ?thesis by simp
qed

lemma internal_work_bounded_witness:
  "length (filter internal sample_schedule) \<le> work [1] (start_agent sample_collectors) + 6"
proof -
  obtain s where s: "exec (\<lambda>c. c) [1] sample_schedule (start_agent sample_collectors) = Some s"
    using sample_exec by blast
  from internal_work_bounded [OF step_exec_runs [OF s]] show ?thesis
    by (simp add: sample_schedule_def)
qed

text \<open>
  C11: Flushed batches get sent: from any reachable state without cancellation and with the send loop
  running, forwarding, pulling, queueing and sending end after a bounded number of actions, in any order, as
  long as the server's answers let the loop go on; and when they are at rest, everything the collectors
  have flushed has been sent, that is, handed to \<open>SendGpuBatch\<close>, each lane's batches in order.
\<close>

lemma flushed_batches_get_sent:
  assumes "runs b2s topo (start_agent cols) as s" and "\<not> cancelled s" and "client s = Waiting"
    and "runs b2s topo s bs s'" and "\<forall>a \<in> set bs. transport a"
  shows "length bs \<le> work topo s \<and>
    ((\<forall>a. transport a \<and> in_range topo a \<longrightarrow> act b2s topo a s' = None) \<longrightarrow>
      (\<exists>ts. map snd ts = handed s' \<and>
        (\<forall>x\<in>lanes topo. of_lane x ts = fst (lane_run b2s x as (start_agent cols)))))"
  using transport_bounded [OF assms(4,5)] transport_delivers [OF assms] by blast

lemma flushed_batches_get_sent_witness:
  "\<exists>as bs s s'. runs (\<lambda>c. c) [1] (start_agent sample_collectors) as s \<and> runs (\<lambda>c. c) [1] s bs s' \<and>
     length bs = 4 \<and> length bs \<le> work [1] s \<and> (\<exists>ts. map snd ts = handed s' \<and> length (handed s') = 1 \<and>
       of_lane (0, 0) ts = fst (lane_run (\<lambda>c. c) (0, 0) as (start_agent sample_collectors)))"
proof -
  let ?as = "take 4 sample_schedule" and ?bs = "drop 4 sample_schedule"
  obtain s' b where s': "exec (\<lambda>c. c) [1] (?as @ ?bs) (start_agent sample_collectors) = Some s'"
    "handed s' = [b]" "eventCh s' = []" "client s' = Waiting" "\<not> cancelled s'" "drained [1] s'"
    using sample_exec by auto
  from s'(1) obtain s where s: "exec (\<lambda>c. c) [1] ?as (start_agent sample_collectors) = Some s"
    "exec (\<lambda>c. c) [1] ?bs s = Some s'" unfolding step_exec_append by (auto split: bind_splits)
  note runs = step_exec_runs [OF s(1)] step_exec_runs [OF s(2)]
  have tr: "\<forall>a \<in> set ?bs. transport a" by (simp add: sample_schedule_def)
  have init: "\<not> cancelled s" "client s = Waiting"
    using s(1) by (auto simp: sample_schedule_def agent_step_def act_defs start_agent_def Let_def case_prod_unfold
        split: bind_splits if_splits)
  have "act (\<lambda>c. c) [1] a s' = None" if "transport a" "in_range [1] a" for a
    using that s'(3,6) by (cases a)
      (auto simp: act_defs drained_def in_range_def lanes_one split: runner_pc.splits forwarder_pc.splits puller_pc.splits)
  with flushed_batches_get_sent [OF runs(1) init runs(2) tr]
  have "length ?bs \<le> work [1] s" "\<exists>ts. map snd ts = handed s' \<and>
    (\<forall>x\<in>lanes [1]. of_lane x ts = fst (lane_run (\<lambda>c. c) x ?as (start_agent sample_collectors)))" by blast+
  moreover have "length ?bs = 4" by (simp add: sample_schedule_def)
  ultimately show ?thesis using runs s'(2)
    by (intro exI [of _ ?as] exI [of _ ?bs] exI [of _ s] exI [of _ s']) (simp add: lanes_one)
qed

text \<open>
  C36: Shutdown is final and abrupt: once the send loop has returned, nothing more is sent and its result
  stands; and once the goroutine of a loader has returned, a batch its forwarder holds stays there for ever.
\<close>

lemma shutdown_abandons:
  assumes "runs b2s topo s as s'"
  shows "(client s \<noteq> Waiting \<longrightarrow> client s' = client s \<and> handed s' = handed s) \<and>
    (\<forall>x b. puller s (fst x) = PullerDone \<and> forwarder s x = ForwarderSend b \<longrightarrow> forwarder s' x = ForwarderSend b)"
proof -
  have "client s' = client s \<and> handed s' = handed s" if "client s \<noteq> Waiting"
    using returned.runs_keep [OF assms, of "client s" "handed s"] that by simp
  moreover have "forwarder s' x = ForwarderSend b" if "puller s (fst x) = PullerDone" "forwarder s x = ForwarderSend b"
    for x b using abandoned.runs_keep [OF assms, of x b] that by simp
  ultimately show ?thesis by blast
qed

lemma shutdown_abandons_witness:
  "\<exists>s b s'. runs (\<lambda>c. c) [1] (start_agent sample_collectors) (take 5 sample_schedule @ [Cancel, StopPuller 0, StopClient]) s \<and>
     forwarder s (0, 0) = ForwarderSend b \<and> runs (\<lambda>c. c) [1] s [StopRunner (0, 0)] s' \<and>
     forwarder s' (0, 0) = ForwarderSend b \<and> handed s' = [] \<and> client s' = ReturnNil"
proof -
  let ?as = "take 5 sample_schedule @ [Cancel, StopPuller 0, StopClient]"
  obtain s s' b where s: "exec (\<lambda>c. c) [1] ?as (start_agent sample_collectors) = Some s"
    "forwarder s (0, 0) = ForwarderSend b" "handed s = []" "client s = ReturnNil" "puller s 0 = PullerDone"
    and s': "exec (\<lambda>c. c) [1] [StopRunner (0, 0)] s = Some s'"
    by (auto simp: sample_schedule_def sample_collectors_def agent_step_def in_range_def lanes_def act_defs start_agent_def
      sample_event handing_def tc_Update_def EventToToken_def tc_put_def tc_Flush_def pid_events_def
      NewTimeSeriesCollector_def Let_def)
  from shutdown_abandons [OF step_exec_runs [OF s']] s have "forwarder s' (0, 0) = ForwarderSend b" "handed s' = []"
    "client s' = ReturnNil" by force+
  with s step_exec_runs [OF s(1)] step_exec_runs [OF s'] show ?thesis by blast
qed

declare split_paired_All [simp]
declare split_paired_Ex [simp]

end
