(* ===== verification/Whole_System.thy ===== *)
theory Whole_System
  imports Agent_Progress
begin

text \<open>
  The kernel side (Probe\_System) and the running agent (Agent) as one system: a loader's reader takes the
  records of the ring buffer the probes write to. Every execution of the system is one of each side, and the
  records are conserved from the probe that submits them to the batches that are sent.
\<close>

declare split_paired_All [simp del]
declare split_paired_Ex [simp del]

section \<open>The kernel and the agent together\<close>

inductive system ::
  "'k bpf \<Rightarrow> core_offsets \<Rightarrow> ('k \<Rightarrow> bool) \<Rightarrow> ('k \<Rightarrow> kview) \<Rightarrow> (bytes \<Rightarrow> bytes) \<Rightarrow> topology \<Rightarrow> 'k \<Rightarrow> agent \<Rightarrow>
    bytes list \<Rightarrow> u32 set \<Rightarrow> action list \<Rightarrow> 'k \<Rightarrow> agent \<Rightarrow> bool"
  for H R kinv view b2s topo k0 a0 where
  boot: "kinv k0 \<Longrightarrow> system H R kinv view b2s topo k0 a0 [] {} [] k0 a0"
| probe: "system H R kinv view b2s topo k0 a0 recs ex as k a \<Longrightarrow> call \<noteq> ProcessExit \<Longrightarrow>
    run_probe H R call k = (r, k') \<Longrightarrow>
    system H R kinv view b2s topo k0 a0 (recs @ drop (length (v_ring (view k))) (v_ring (view k'))) ex as k' a"
| exit: "system H R kinv view b2s topo k0 a0 recs ex as k a \<Longrightarrow> handle_process_exit H k = (r, k') \<Longrightarrow>
    system H R kinv view b2s topo k0 a0 recs (insert (tgid_of (v_pid_tgid (view k))) ex) as k' a"
| switch: "system H R kinv view b2s topo k0 a0 recs ex as k a \<Longrightarrow> kinv k' \<Longrightarrow> switched (view k) (view k') \<Longrightarrow>
    system H R kinv view b2s topo k0 a0 recs ex as k' a"
| read: "system H R kinv view b2s topo k0 a0 recs ex as k a \<Longrightarrow> ringbuf_read H k = Some (e, k') \<Longrightarrow>
    agent_step b2s topo (Turn 0 (ReadRecord e)) a = Some a' \<Longrightarrow>
    system H R kinv view b2s topo k0 a0 recs ex (as @ [Turn 0 (ReadRecord e)]) k' a'"
| agent: "system H R kinv view b2s topo k0 a0 recs ex as k a \<Longrightarrow> (\<And>l e. x \<noteq> Turn l (ReadRecord e)) \<Longrightarrow>
    agent_step b2s topo x a = Some a' \<Longrightarrow> system H R kinv view b2s topo k0 a0 recs ex (as @ [x]) k a'"

text \<open>Each half alone.\<close>

lemma system_kexec: "system H R kinv view b2s topo k0 a0 recs ex as k a \<Longrightarrow> kexec H R kinv view k0 recs ex k"
  by (induction rule: system.induct) (blast intro: kexec.intros)+

lemma system_runs: "system H R kinv view b2s topo k0 a0 recs ex as k a \<Longrightarrow> runs b2s topo a0 as a"
  by (induction rule: system.induct) (blast intro: step_runs.intros)+

section \<open>Records between them\<close>

fun record_read :: "action \<Rightarrow> bytes list" where
  "record_read (Turn l (ReadRecord e)) = [e]"
| "record_read _ = []"

definition consumed :: "action list \<Rightarrow> bytes list" where
  "consumed as = concat (map record_read as)"

lemma consumed_simps [simp]:
  "consumed [] = []" "consumed (as @ [x]) = consumed as @ record_read x"
  by (simp_all add: consumed_def)

lemma record_read_other [simp]: "(\<And>l e. x \<noteq> Turn l (ReadRecord e)) \<Longrightarrow> record_read x = []"
  by (cases x rule: record_read.cases) auto

lemma effect_ring: "probe_effect v v' \<Longrightarrow> \<exists>new. v_ring v' = v_ring v @ new"
  by (induction rule: probe_effect.induct)
    (auto simp: counted_def submitted_def split: option.splits)

context bpf_runtime
begin

lemma system_ring:
  "system H R kinv view b2s topo k0 a0 recs ex as k a \<Longrightarrow>
    v_ring (view k0) @ recs = consumed as @ v_ring (view k)"
proof (induction rule: system.induct)
  case (probe recs ex as k a call r k')
  have "kinv k" using kexec_kinv system_kexec [OF probe(1)] by blast
  then obtain new where "v_ring (view k') = v_ring (view k) @ new"
    using run_probe_effect [OF _ probe(2,3)] effect_ring by blast
  then show ?case using probe.IH by simp
next
  case (exit recs ex as k a r k')
  have "kinv k" using kexec_kinv system_kexec [OF exit(1)] by blast
  then show ?case using exit handle_process_exit_spec by simp
next
  case (switch recs ex as k a k')
  then show ?case by (simp add: switched_def)
next
  case (read recs ex as k a e k' a')
  have "kinv k" using kexec_kinv system_kexec [OF read(1)] by blast
  then show ?case using read ringbuf_read by auto
qed simp_all

lemma system_consumed_good:
  assumes "system H R kinv view b2s topo k0 a0 recs ex as k a" and "sys_inv (view k0)"
  shows "\<forall>e \<in> set (consumed as). good_record e"
  using assms(1)
proof (induction rule: system.induct)
  case (read recs ex as k a e k' a')
  have "kinv k" "sys_inv (view k)" using kexec_inv [OF system_kexec [OF read(1)] assms(2)] by auto
  then have "good_record e" using ringbuf_read read(2) by (auto simp: sys_inv_def)
  then show ?case using read.IH by simp
qed simp_all

end

lemma dispatch_pid: "handle_record raw = Dispatch ev \<Longrightarrow> event_pid ev = Some (record_pid raw)"
  by (auto simp: handle_record_simps record_pid_def decode_launch_fields decode_memalloc_fields
      decode_memcpy_fields decode_stream_fields Let_def split: if_splits)

lemma dispatched_records:
  assumes "\<forall>e \<in> set (consumed as). good_record e" and "\<forall>x \<in> set as. in_range [n] x"
  shows "events_count p (dispatched 0 as) = records_of p (consumed as)"
  using assms
proof (induction as rule: rev_induct)
  case (snoc x as)
  have "events_count p (dispatched_by 0 x) = records_of p (record_read x)"
  proof (cases x rule: record_read.cases)
    case (1 l e)
    then have "l = 0" "good_record e" using snoc.prems by (auto simp: in_range_def)
    then obtain ev where ev: "handle_record e = Dispatch ev" by (auto simp: good_record_def)
    with dispatch_pid [OF ev] 1 \<open>l = 0\<close> show ?thesis by (simp add: turn_events_def events_count_def)
  qed (auto simp: turn_events_def events_count_def)
  then show ?case using snoc by simp
qed (simp add: events_count_def)

lemma runs_in_range: "runs b2s topo s as s' \<Longrightarrow> \<forall>x \<in> set as. in_range topo x"
  by (induction rule: runs_induct) auto


section \<open>A sample execution\<close>

text \<open>Process 42 allocates 64 bytes; the record is read and handed to the one collector.\<close>

abbreviation sample_actions :: "bytes \<Rightarrow> gpu_event \<Rightarrow> action list" where
  "sample_actions e ev \<equiv> [Enter 0, Turn 0 (ReadRecord e), Deliver (0, 0) 7 ev]"

lemma sample_system:
  obtains e ev k a where
    "system reference_kernel sample_offsets ref_inv ref_view (\<lambda>c. c) [1] sample_kernel (start_agent sample_collectors)
       [e] {} (sample_actions e (MemallocEvent ev)) k a"
    "handle_record e = Dispatch (MemallocEvent ev)" "Pid ev = 42" "ByteSize ev = 64" "record_pid e = 42"
    "v_ring (ref_view k) = []" "handed a = []" "eventCh a = []" "reader a 0 = ReaderSelect" "\<And>pt. pipe a pt (0, 0) = []"
    "collector a (0, 0) = collector_Update (\<lambda>c. c) 7 (MemallocEvent ev) (Series (NewTimeSeriesCollector 5))"
proof -
  obtain r k1 where run: "run_probe reference_kernel sample_offsets (MemAlloc 0 64) sample_kernel = (r, k1)" by fastforce
  then have run': "handle_cuMemAlloc reference_kernel 0 64 sample_kernel = (r, k1)" by simp
  have "ringbuf_reserve reference_kernel (sizeof gpu_memalloc_event_t) sample_kernel =
    Some (replicate 168 0xAA, sample_kernel)" by (simp add: event_layout sample_reserve)
  with rk.handle_cuMemAlloc_spec [OF sample_inv run'] obtain e c where
    e: "submitted (ref_view sample_kernel) 42 e (ref_view k1)" "memalloc_record 42 c 64 e" by (auto simp: sample_view)
  then have ring: "v_ring (ref_view k1) = [e]"
    by (auto simp: submitted_def counted_def sample_view split: option.splits)
  obtain ev where ev: "handle_record e = Dispatch (MemallocEvent ev)" "Pid ev = 42" "ByteSize ev = 64"
    using memalloc_decodes [OF e(2)] by blast
  let ?sys = "system reference_kernel sample_offsets ref_inv ref_view (\<lambda>c. c) [1] sample_kernel (start_agent sample_collectors)"
  let ?a0 = "start_agent sample_collectors" and ?ev = "MemallocEvent ev"
  let ?a1 = "?a0\<lparr>reader := (reader ?a0)(0 := ReaderReading)\<rparr>"
  let ?a2 = "?a1\<lparr>reader := (reader ?a1)(0 := Handing ?ev 0)\<rparr>"
  let ?a3 = "?a2\<lparr>collector := (collector ?a2)((0, 0) := collector_Update (\<lambda>c. c) 7 ?ev (collector ?a2 (0, 0))),
    reader := (reader ?a2)(0 := ReaderSelect)\<rparr>"
  have "?sys [] {} [] sample_kernel ?a0" by (rule system.boot) simp
  then have "?sys [] {} ([] @ [Enter 0]) sample_kernel ?a1"
    by (rule system.agent) (simp_all add: agent_step_def in_range_def act_defs start_agent_def)
  then have "?sys ([] @ drop (length (v_ring (ref_view sample_kernel))) (v_ring (ref_view k1))) {} ([] @ [Enter 0]) k1 ?a1"
    by (rule system.probe [OF _ _ run]) simp
  then have s1: "?sys [e] {} [Enter 0] k1 ?a1" by (simp add: ring sample_view)
  have "ringbuf_read reference_kernel k1 = Some (e, k1\<lparr>k_ring := []\<rparr>)"
    using ring by (simp add: reference_kernel_def ref_ringbuf_read_def ref_view_def)
  from system.read [OF s1 this, of ?a2] have s2: "?sys [e] {} [Enter 0, Turn 0 (ReadRecord e)] (k1\<lparr>k_ring := []\<rparr>) ?a2"
    by (simp add: agent_step_def in_range_def act_defs ev handing_def)
  have "agent_step (\<lambda>c. c) [1] (Deliver (0, 0) 7 ?ev) ?a2 = Some ?a3"
    by (simp add: agent_step_def in_range_def lanes_def act_defs handing_def)
  from system.agent [OF s2 _ this] have "?sys [e] {} (sample_actions e ?ev) (k1\<lparr>k_ring := []\<rparr>) ?a3" by simp
  from that [OF this ev record_pids(2) [OF e(2)]] show thesis
    by (simp add: ref_view_def start_agent_def pipe_def sample_collectors_def)
qed

section \<open>Properties\<close>

text \<open>
  The whole system, from the driver calls to the server: in every execution of the probes, the scheduler and
  the goroutines of one loader, for every collector and process, the events in the batches sent or queued, in the
  batches in flight, pending in the collector and being handed round, with the records not yet read, are exactly
  the records the probes have submitted for the process, on 64 bits.
\<close>

lemma system_conserves:
  assumes "bpf_runtime H kinv view"
    and "system H R kinv view b2s [length cs] k0 (start_agent [cs]) recs ex as k a"
    and "initial_view (view k0)" and "\<forall>c \<in> set cs. fresh_collector c"
    and "\<forall>i < length cs. ticks_fit (collector_Update b2s) collector_Flush collector_fits (lane_ops (0, i) as) (cs ! i)"
  shows "\<exists>ts pt. map snd ts = handed a @ eventCh a \<and> (\<forall>i < length cs. \<forall>p.
    batches_events p (of_lane (0, i) ts) + batches_events p (pipe a pt (0, i)) +
      collector_pending p (collector a (0, i)) + of_nat (events_count p (owed i (reader a 0))) +
      of_nat (records_of p (v_ring (view k))) =
    of_nat (records_of p recs))"
proof -
  note run = system_runs [OF assms(2)]
  obtain ts pt where tr: "traced a (\<lambda>x. fst (lane_run b2s x as (start_agent [cs]))) ts pt"
    using runs_traced [OF run] by blast
  have ring: "recs = consumed as @ v_ring (view k)"
    using bpf_runtime.system_ring [OF assms(1,2)] assms(3) by (simp add: initial_view_def)
  have "events_count p (dispatched 0 as) = records_of p (consumed as)" for p
    using bpf_runtime.system_consumed_good [OF assms(1,2) sys_inv_initial [OF assms(3)]] runs_in_range [OF run]
    by (rule dispatched_records)
  moreover have "batches_events p (of_lane (0, i) ts) + batches_events p (pipe a pt (0, i)) +
      collector_pending p (collector a (0, i)) + of_nat (events_count p (owed i (reader a 0))) =
    of_nat (events_count p (dispatched 0 as))" if i: "i < length cs" for i p
  proof -
    have x: "(0, i) \<in> lanes [length cs]" using i by (simp add: lanes_def)
    have c: "[cs] ! fst (0, i) ! snd (0, i) = cs ! i" by simp
    have "fresh_collector (cs ! i)" using assms(4) i by simp
    with lane_conserves [OF run x _ _ _ tr] fresh_collector assms(5) i show ?thesis by simp
  qed
  ultimately show ?thesis using tr ring by (intro exI [of _ ts] exI [of _ pt]) (simp add: traced_def)
qed

lemma system_conserves_witness:
  "\<exists>recs as k a. system reference_kernel sample_offsets ref_inv ref_view (\<lambda>c. c) [1] sample_kernel
      (start_agent sample_collectors) recs {} as k a \<and>
    records_of 42 recs = 1 \<and> v_ring (ref_view k) = [] \<and> collector_pending 42 (collector a (0, 0)) = 1"
proof (rule sample_system)
  fix e ev k a
  let ?cs = "[Series (NewTimeSeriesCollector 5)]" and ?as = "sample_actions e (MemallocEvent ev)"
  assume s: "system reference_kernel sample_offsets ref_inv ref_view (\<lambda>c. c) [1] sample_kernel
      (start_agent sample_collectors) [e] {} ?as k a"
    and a: "record_pid e = 42" "v_ring (ref_view k) = []" "handed a = []" "eventCh a = []" "reader a 0 = ReaderSelect"
      "\<And>pt. pipe a pt (0, 0) = []"
  have "initial_view (ref_view sample_kernel)" by (simp add: initial_view_def sample_view)
  moreover have "\<forall>c \<in> set ?cs. fresh_collector c" by (simp add: fresh_collector_def NewTimeSeriesCollector_def)
  moreover have "\<forall>i < length ?cs. ticks_fit (collector_Update (\<lambda>c. c)) collector_Flush collector_fits
      (lane_ops (0, i) ?as) (?cs ! i)" by (simp add: lane_ops_def)
  ultimately obtain ts pt where ts: "map snd ts = handed a @ eventCh a" and
    acc: "\<forall>i < length ?cs. \<forall>p. batches_events p (of_lane (0, i) ts) + batches_events p (pipe a pt (0, i)) +
      collector_pending p (collector a (0, i)) + of_nat (events_count p (owed i (reader a 0))) +
      of_nat (records_of p (v_ring (ref_view k))) = of_nat (records_of p [e])"
    using system_conserves [OF rk.bpf_runtime_axioms, of sample_offsets "\<lambda>c. c" ?cs sample_kernel "[e]" "{}" ?as k a] s
    by (auto simp: sample_collectors_def)
  have "collector_pending 42 (collector a (0, 0)) = 1"
    using acc [THEN spec, of 0, THEN mp, THEN spec, of 42] a ts by (simp add: batches_events_def events_count_def)
  then show ?thesis using s a by (intro exI [of _ "[e]"] exI [of _ ?as] exI [of _ k] exI [of _ a]) simp
qed

declare split_paired_All [simp]
declare split_paired_Ex [simp]

end
