(* ===== verification/Probe_Steps.thy ===== *)
theory Probe_Steps
  imports Probe_System
begin

unbundle bit_operations_syntax

text \<open>
  The programs of \<open>gpuprint.bpf.c\<close> at the granularity at which CPUs interleave: one helper call that touches
  shared kernel state per step. A point of a program is a \<open>pc\<close> with the local variables that are live there;
  what lies between two such calls (stores into the reserved record, reads of the thread's own context) is local
  to the CPU and belongs to the step before. Run without interruption, the steps of a program are the program.
\<close>

section \<open>Points of the programs\<close>

datatype pc =
    Invoked probe_call
  | SyncPut u64 u64
  | SyncReserve u64 u64
  | SyncClock u64 bytes
  | SyncDelete u64 bytes
  | IoctlWalk u32 u64
  | Submit u32 bytes
  | CountLookup u32 u32
  | CountClock u32 u32
  | CountUpdate u32 u32 u64
  | CountRelookup u32 u32
  | CountAdd u32 watchdog_ptr
  | Finished int

section \<open>Filling a record\<close>

definition fill_launch ::
  "'k bpf \<Rightarrow> u32 \<Rightarrow> u64 \<Rightarrow> u64 \<Rightarrow> u64 \<Rightarrow> u64 \<Rightarrow> u64 \<Rightarrow> u64 \<Rightarrow> 'k \<Rightarrow> bytes \<Rightarrow> bytes" where
  "fill_launch H pid sp gridX gridY gridZ blockX blockY s e =
    (let T = gpu_kernel_launch_event_t;
         e = put_u32 (offsetof T ''pid'') pid e;
         e = put_u8 (offsetof T ''flag'') EVENT_GPU_KERNEL_LAUNCH e;
         e = put_bytes (offsetof T ''comm'') (get_current_comm H TASK_COMM_SIZE s) e;
         blockZ = u64_at 0 (probe_read_user H 8 (sp + 8) s);
         e = put_u32 (offsetof T ''gridx'') (ucast gridX) e;
         e = put_u32 (offsetof T ''gridy'') (ucast gridY) e;
         e = put_u32 (offsetof T ''gridz'') (ucast gridZ) e;
         e = put_u32 (offsetof T ''blockx'') (ucast blockX) e;
         e = put_u32 (offsetof T ''blocky'') (ucast blockY) e;
         e = put_u32 (offsetof T ''blockz'') (ucast blockZ) e;
         e = put_u64 (offsetof T ''total_blocks'') (gridX * gridY * gridZ) e;
         e = put_u64 (offsetof T ''threads_block'') (blockX * blockY * blockZ) e
     in put_u64 (offsetof T ''total_threads'')
          (u64_at (offsetof T ''total_blocks'') e * u64_at (offsetof T ''threads_block'') e) e)"

definition fill_memalloc :: "'k bpf \<Rightarrow> u32 \<Rightarrow> u64 \<Rightarrow> 'k \<Rightarrow> bytes \<Rightarrow> bytes" where
  "fill_memalloc H pid bytesize s e =
    (let T = gpu_memalloc_event_t;
         e = put_u32 (offsetof T ''pid'') pid e;
         e = put_u8 (offsetof T ''flag'') EVENT_GPU_MALLOC e;
         e = put_bytes (offsetof T ''comm'') (get_current_comm H TASK_COMM_SIZE s) e
     in put_u64 (offsetof T ''byte_size'') bytesize e)"

text \<open>The four copy programs store the same fields; they differ in the direction.\<close>

definition fill_memcpy :: "'k bpf \<Rightarrow> u32 \<Rightarrow> u64 \<Rightarrow> u8 \<Rightarrow> 'k \<Rightarrow> bytes \<Rightarrow> bytes" where
  "fill_memcpy H pid bytesize dir s e =
    (let T = gpu_memcpy_event_t;
         e = put_u32 (offsetof T ''pid'') pid e;
         e = put_u8 (offsetof T ''flag'') EVENT_GPU_MEMCPY e;
         e = put_bytes (offsetof T ''comm'') (get_current_comm H TASK_COMM_SIZE s) e;
         e = put_u64 (offsetof T ''byte_size'') bytesize e
     in put_u8 (offsetof T ''kind'') dir e)"

definition fill_times :: "'k bpf \<Rightarrow> u64 \<Rightarrow> 'k \<Rightarrow> bytes \<Rightarrow> bytes" where
  "fill_times H now s e =
    (let T = gpu_stream_event_t;
         e = put_u64 (offsetof T ''end_time'') now e;
         e = put_u64 (offsetof T ''delta_ns'')
               (u64_at (offsetof T ''end_time'') e - u64_at (offsetof T ''start_time'') e) e;
         e = put_u8 (offsetof T ''flag'') EVENT_GPU_STREAM_SYNC e
     in put_bytes (offsetof T ''comm'') (get_current_comm H TASK_COMM_SIZE s) e)"

section \<open>Steps\<close>

text \<open>A slot is reserved and filled, or the program ends.\<close>

definition reserve_fill ::
  "'k bpf \<Rightarrow> ctype \<Rightarrow> u32 \<Rightarrow> ('k \<Rightarrow> bytes \<Rightarrow> bytes) \<Rightarrow> 'k \<Rightarrow> pc \<times> 'k" where
  "reserve_fill H T pid fill s =
    (case ringbuf_reserve H (sizeof T) s of
       None \<Rightarrow> (Finished 0, s)
     | Some (e, s) \<Rightarrow> (Submit pid (fill s e), s))"

definition sync_enter :: "'k bpf \<Rightarrow> 'k \<Rightarrow> pc \<times> 'k" where
  "sync_enter H s =
    (let tid = get_current_pid_tgid H s; (ts, s) = ktime_get_ns H s in (SyncPut tid ts, s))"

definition sync_return :: "'k bpf \<Rightarrow> 'k \<Rightarrow> pc \<times> 'k" where
  "sync_return H s =
    (let tid = get_current_pid_tgid H s in
     case stream_lookup H tid s of None \<Rightarrow> (Finished 0, s) | Some ts \<Rightarrow> (SyncReserve tid ts, s))"

text \<open>The first step of each program, up to and including its first call on shared state.\<close>

fun enter :: "'k bpf \<Rightarrow> u32 \<Rightarrow> probe_call \<Rightarrow> 'k \<Rightarrow> pc \<times> 'k" where
  "enter H pid (LaunchKernel sp f gx gy gz blx bly) s =
     reserve_fill H gpu_kernel_launch_event_t pid (fill_launch H pid sp gx gy gz blx bly) s"
| "enter H pid (MemAlloc p n) s = reserve_fill H gpu_memalloc_event_t pid (fill_memalloc H pid n) s"
| "enter H pid (MemcpyHtoD d p n) s = reserve_fill H gpu_memcpy_event_t pid (fill_memcpy H pid n DIR_HTOD) s"
| "enter H pid (MemcpyDtoH d p n) s = reserve_fill H gpu_memcpy_event_t pid (fill_memcpy H pid n DIR_DTOH) s"
| "enter H pid (MemcpyHtoDAsync d p n st) s =
     reserve_fill H gpu_memcpy_event_t pid (fill_memcpy H pid n DIR_HTOD) s"
| "enter H pid (MemcpyDtoHAsync d p n st) s =
     reserve_fill H gpu_memcpy_event_t pid (fill_memcpy H pid n DIR_DTOH) s"
| "enter H pid (StreamSync st) s = sync_enter H s"
| "enter H pid CtxSync s = sync_enter H s"
| "enter H pid StreamSyncRet s = sync_return H s"
| "enter H pid CtxSyncRet s = sync_return H s"
| "enter H pid (Ioctl fd) s = (let (ts, s) = ktime_get_ns H s in (IoctlWalk pid fd, s))"
| "enter H pid ProcessExit s = (Finished 0, watchdog_delete H pid s)"

text \<open>The walk through the task's descriptor table, all reads of memory.\<close>

definition ioctl_walk :: "'k bpf \<Rightarrow> core_offsets \<Rightarrow> u32 \<Rightarrow> u64 \<Rightarrow> 'k \<Rightarrow> pc" where
  "ioctl_walk H R pid fd s =
    (let task = get_current_task H s;
         fdt = read_ptr H s (read_ptr H s (task + off_task_files R) + off_files_fdt R)
     in if fdt = 0 then Finished 0 else
     let fd_array = read_ptr H s (fdt + off_fdt_fd R)
     in if fd_array = 0 then Finished 0 else
     let fd_addr = fd_array + fd * 8;
         file = read_ptr H s fd_addr
     in if file = 0 then Finished 0 else
     let rdev = read_dev H s (read_ptr H s (file + off_file_inode R) + off_inode_rdev R);
         major = drop_bit 20 rdev;
         minor = rdev AND 0xfffff
     in if \<not> is_nvidia_compute_device major minor then Finished 0 else CountLookup pid IOCTL_HIT)"

fun micro :: "'k bpf \<Rightarrow> core_offsets \<Rightarrow> pc \<Rightarrow> 'k \<Rightarrow> pc \<times> 'k" where
  "micro H R (Invoked call) s = enter H (tgid_of (get_current_pid_tgid H s)) call s"
| "micro H R (SyncPut tid ts) s = (let (_, s) = stream_update H tid ts BPF_ANY s in (Finished 0, s))"
| "micro H R (SyncReserve tid ts) s =
     (let T = gpu_stream_event_t in
      case ringbuf_reserve H (sizeof T) s of
        None \<Rightarrow> (Finished 0, s)
      | Some (e, s) \<Rightarrow>
          (let pid = tgid_of tid;
               e = put_u32 (offsetof T ''pid'') pid e;
               e = put_u64 (offsetof T ''start_time'') ts e
           in (SyncClock tid e, s)))"
| "micro H R (SyncClock tid e) s =
     (let (now, s) = ktime_get_ns H s in (SyncDelete tid (fill_times H now s e), s))"
| "micro H R (SyncDelete tid e) s = (Submit (tgid_of tid) e, stream_delete H tid s)"
| "micro H R (IoctlWalk pid fd) s = (ioctl_walk H R pid fd s, s)"
| "micro H R (Submit pid e) s = (CountLookup pid UPROBE_HIT, ringbuf_submit H e s)"
| "micro H R (CountLookup pid hit_type) s =
     (case watchdog_lookup H pid s of
        Some p \<Rightarrow> (CountAdd hit_type p, s)
      | None \<Rightarrow> (CountClock pid hit_type, s))"
| "micro H R (CountClock pid hit_type) s =
     (let (now, s) = ktime_get_ns H s in (CountUpdate pid hit_type now, s))"
| "micro H R (CountUpdate pid hit_type now) s =
     (let zero = \<lparr>ioctl_hit_count = 0, uprobe_hit_count = 0, first_seen_time = now\<rparr>;
          (_, s) = watchdog_update H pid zero BPF_NOEXIST s
      in (CountRelookup pid hit_type, s))"
| "micro H R (CountRelookup pid hit_type) s =
     (case watchdog_lookup H pid s of
        Some p \<Rightarrow> (CountAdd hit_type p, s)
      | None \<Rightarrow> (Finished 0, s))"
| "micro H R (CountAdd hit_type p) s =
     (if hit_type = UPROBE_HIT then
        (Finished 0, watchdog_modify H p (\<lambda>w. w\<lparr>uprobe_hit_count := uprobe_hit_count w + 1\<rparr>) s)
      else if hit_type = IOCTL_HIT then
        (Finished 0, watchdog_modify H p (\<lambda>w. w\<lparr>ioctl_hit_count := ioctl_hit_count w + 1\<rparr>) s)
      else (Finished 0, s))"
| "micro H R (Finished r) s = (Finished r, s)"

fun steps :: "'k bpf \<Rightarrow> core_offsets \<Rightarrow> nat \<Rightarrow> pc \<Rightarrow> 'k \<Rightarrow> pc \<times> 'k" where
  "steps H R 0 pc s = (pc, s)"
| "steps H R (Suc n) pc s = (let (pc', s') = micro H R pc s in steps H R n pc' s')"

section \<open>Uninterrupted steps are the program\<close>

lemma steps_finished [simp]: "steps H R n (Finished r) s = (Finished r, s)"
  by (induction n) simp_all

lemma steps_count:
  "steps H R (5 + n) (CountLookup pid h) s = (let (_, s') = add_to_counter H pid h s in (Finished 0, s'))"
proof (cases "watchdog_lookup H pid s")
  case None
  obtain now s1 where k: "ktime_get_ns H s = (now, s1)" by fastforce
  obtain ok s2 where u: "watchdog_update H pid \<lparr>ioctl_hit_count = 0, uprobe_hit_count = 0, first_seen_time = now\<rparr>
    BPF_NOEXIST s1 = (ok, s2)" by fastforce
  show ?thesis
    by (cases "watchdog_lookup H pid s2")
      (simp_all add: add_to_counter_def get_or_init_ioctl_def eval_nat_numeral None k u)
qed (simp add: add_to_counter_def get_or_init_ioctl_def eval_nat_numeral)

lemma steps_submit:
  "steps H R (6 + n) (Submit pid e) s =
    (let (_, s') = add_to_counter H pid UPROBE_HIT (ringbuf_submit H e s) in (Finished 0, s'))"
  using steps_count [of H R n pid UPROBE_HIT "ringbuf_submit H e s"] by (simp add: eval_nat_numeral)

lemma steps_reserve:
  "(case reserve_fill H T pid fill s of (p, s) \<Rightarrow> steps H R (6 + n) p s) =
    (case ringbuf_reserve H (sizeof T) s of
       None \<Rightarrow> (Finished 0, s)
     | Some (e, s) \<Rightarrow>
         (let (_, s') = add_to_counter H pid UPROBE_HIT (ringbuf_submit H (fill s e) s) in (Finished 0, s')))"
  unfolding reserve_fill_def by (auto simp: steps_submit split: option.splits)

lemma steps_sync:
  "(case sync_enter H s of (p, s) \<Rightarrow> steps H R (1 + n) p s) =
    (case handle_cuStreamSync H st s of (r, s') \<Rightarrow> (Finished r, s'))"
  by (simp add: sync_enter_def handle_cuStreamSync_def Let_def split: prod.splits)

lemma steps_return:
  "(case sync_return H s of (p, s) \<Rightarrow> steps H R (9 + n) p s) =
    (case handle_cuStreamSynchronize_ret H s of (r, s') \<Rightarrow> (Finished r, s'))"
proof (cases "stream_lookup H (get_current_pid_tgid H s) s")
  case None
  then show ?thesis by (simp add: sync_return_def handle_cuStreamSynchronize_ret_def)
next
  case start: (Some ts)
  show ?thesis
  proof (cases "ringbuf_reserve H (sizeof gpu_stream_event_t) s")
    case None
    with start show ?thesis
      by (simp add: sync_return_def handle_cuStreamSynchronize_ret_def eval_nat_numeral)
  next
    case (Some m)
    obtain e s1 where m: "m = (e, s1)" by (cases m)
    obtain now s2 where k: "ktime_get_ns H s1 = (now, s2)" by fastforce
    have "9 + n = Suc (Suc (Suc (6 + n)))" by simp
    with start Some m k show ?thesis
      by (simp only: steps.simps sync_return_def handle_cuStreamSynchronize_ret_def Let_def option.case prod.case
          micro.simps steps_submit fill_times_def) (simp split: prod.splits)
  qed
qed

lemma steps_ioctl:
  "steps H R (7 + n) (Invoked (Ioctl fd)) s = (case watchdog_ioctl H R fd s of (r, s') \<Rightarrow> (Finished r, s'))"
proof -
  obtain ts s1 where k: "ktime_get_ns H s = (ts, s1)" by fastforce
  have "7 + n = Suc (Suc (5 + n))" by simp
  then show ?thesis
    by (simp only: steps.simps micro.simps enter.simps k Let_def prod.case ioctl_walk_def watchdog_ioctl_def
        if_distrib [of "\<lambda>p. steps H R (5 + n) p s1"] steps_count steps_finished)
      (auto split: prod.splits)
qed

lemma steps_record:
  "steps H R 10 (Invoked call) s = (case reserve_fill H T pid fill s of (p, s) \<Rightarrow> steps H R 9 p s) \<Longrightarrow>
    (case ringbuf_reserve H (sizeof T) s of
       None \<Rightarrow> (0, s)
     | Some (e, s) \<Rightarrow>
         (let (_, s') = add_to_counter H pid UPROBE_HIT (ringbuf_submit H (fill s e) s) in (0, s'))) =
      run_probe H R call s \<Longrightarrow>
    steps H R 10 (Invoked call) s = (case run_probe H R call s of (r, s') \<Rightarrow> (Finished r, s'))"
  using steps_reserve [of H R 3 T pid fill s] by (auto split: option.splits prod.splits)

lemma steps_ten: "steps H R 10 pc s = (case micro H R pc s of (p, s) \<Rightarrow> steps H R 9 p s)"
  using steps.simps(2) [of H R 9] by simp

lemma steps_run_probe:
  "steps H R 10 (Invoked call) s = (case run_probe H R call s of (r, s') \<Rightarrow> (Finished r, s'))"
proof -
  let ?pid = "tgid_of (get_current_pid_tgid H s)"
  note launch = steps_record [where T = gpu_kernel_launch_event_t and pid = ?pid]
    and memalloc = steps_record [where T = gpu_memalloc_event_t and pid = ?pid]
    and memcpy = steps_record [where T = gpu_memcpy_event_t and pid = ?pid]
  show ?thesis
  proof (cases call)
    case (LaunchKernel sp f gx gy gz blx bly)
    then show ?thesis
      by (intro launch [where fill = "fill_launch H ?pid sp gx gy gz blx bly"])
        (simp_all add: steps_ten handle_cuLaunchkernel_def fill_launch_def Let_def
          split: option.split prod.split)
  next
    case (MemAlloc p n)
    then show ?thesis
      by (intro memalloc [where fill = "fill_memalloc H ?pid n"])
        (simp_all add: steps_ten handle_cuMemAlloc_def fill_memalloc_def Let_def
          split: option.split prod.split)
  next
    case (StreamSync st)
    then show ?thesis using steps_sync [of H R 8 s st] by (simp add: steps_ten)
  next
    case CtxSync
    then show ?thesis using steps_sync [of H R 8 s 0] by (simp add: steps_ten ctx_sync_same(1) [of H 0])
  next
    case StreamSyncRet
    then show ?thesis using steps_return [of H R 0 s] by (simp add: steps_ten)
  next
    case CtxSyncRet
    then show ?thesis using steps_return [of H R 0 s] by (simp add: steps_ten ctx_sync_same(2))
  next
    case (Ioctl fd)
    then show ?thesis using steps_ioctl [of H R 3 fd s] by simp
  next
    case ProcessExit
    then show ?thesis by (simp add: steps_ten handle_process_exit_def)
  next
    case (MemcpyHtoD d p n)
    then show ?thesis
      by (intro memcpy [where fill = "fill_memcpy H ?pid n DIR_HTOD"])
        (simp_all add: steps_ten handle_cuMemcpy_htod_def fill_memcpy_def Let_def
          split: option.split prod.split)
  next
    case (MemcpyHtoDAsync d p n st)
    then show ?thesis
      by (intro memcpy [where fill = "fill_memcpy H ?pid n DIR_HTOD"])
        (simp_all add: steps_ten memcpy_async_same handle_cuMemcpy_htod_def fill_memcpy_def Let_def
          split: option.split prod.split)
  next
    case (MemcpyDtoH d p n)
    then show ?thesis
      by (intro memcpy [where fill = "fill_memcpy H ?pid n DIR_DTOH"])
        (simp_all add: steps_ten handle_cuMemcpy_dtoh_def fill_memcpy_def Let_def
          split: option.split prod.split)
  next
    case (MemcpyDtoHAsync d p n st)
    then show ?thesis
      by (intro memcpy [where fill = "fill_memcpy H ?pid n DIR_DTOH"])
        (simp_all add: steps_ten memcpy_async_same handle_cuMemcpy_dtoh_def fill_memcpy_def Let_def
          split: option.split prod.split)
  qed
qed

end
