(* ===== verification/Probe_Interleaving.thy ===== *)
theory Probe_Interleaving
  imports Probe_Steps
begin

text \<open>
  Programs of \<open>gpuprint.bpf.c\<close> running at the same time on several CPUs. A CPU is idle or at a point of a
  program it runs for a thread; any CPU may take the next step. The locale \<open>bpf_concurrent\<close> adds to the contract
  what only matters here: an update with \<open>BPF_NOEXIST\<close> that finds the key taken by another CPU changes nothing.
  User space may take unread records in any order, which covers the order of their reservation and that of
  their submission. A program that holds a pointer into an entry of the watchdog map finds the entry alive: the
  exit of another thread of the same process is not interleaved between the lookup and the addition.
\<close>

section \<open>Executions\<close>

type_synonym cpus = "nat \<rightharpoonup> u64 \<times> pc"

definition holds_entry :: "u32 \<Rightarrow> (u64 \<times> pc) option \<Rightarrow> bool" where
  "holds_entry pid x = (case x of Some (_, CountAdd _ p) \<Rightarrow> fst p = pid | _ \<Rightarrow> False)"

text \<open>
  What an execution takes note of besides the records submitted: an ioctl program has found the caller's descriptor
  on a compute device; a program has found no entry for its process after it tried to create one, and drops the hit;
  the hit of an exiting process has landed in the entry of another (theory Probe\_Races).
\<close>

datatype notice =
    Issued u32
  | Lost u32 u32
  | Stray u32 u32

definition step_notes :: "'k bpf \<Rightarrow> core_offsets \<Rightarrow> ('k \<Rightarrow> kview) \<Rightarrow> 'k \<Rightarrow> pc \<Rightarrow> notice list" where
  "step_notes H R view s pc =
    (case pc of
       IoctlWalk pid fd \<Rightarrow> if on_compute_device H R s fd then [Issued pid] else []
     | CountRelookup pid h \<Rightarrow> if v_watchdog (view s) pid = None then [Lost pid h] else []
     | _ \<Rightarrow> [])"

lemma step_notes_simps [simp]:
  "step_notes H R view s (Invoked call) = []" "step_notes H R view s (SyncPut tid ts) = []"
  "step_notes H R view s (SyncReserve tid ts) = []" "step_notes H R view s (SyncClock tid e) = []"
  "step_notes H R view s (SyncDelete tid e) = []" "step_notes H R view s (Submit pid e) = []"
  "step_notes H R view s (CountLookup pid h) = []" "step_notes H R view s (CountClock pid h) = []"
  "step_notes H R view s (CountUpdate pid h now) = []" "step_notes H R view s (CountAdd h p) = []"
  "step_notes H R view s (Finished r) = []"
  by (simp_all add: step_notes_def)

text \<open>The notes of a transition of the CPUs: those of the current CPU when its program has moved.\<close>

definition notes_of :: "'k bpf \<Rightarrow> core_offsets \<Rightarrow> ('k \<Rightarrow> kview) \<Rightarrow> 'k \<Rightarrow> cpus \<Rightarrow> cpus \<Rightarrow> notice list" where
  "notes_of H R view s P P' =
    (let c = v_cpu (view s) in
     if P' c = P c then [] else case P c of None \<Rightarrow> [] | Some (_, pc) \<Rightarrow> step_notes H R view s pc)"

definition lost :: "u32 \<Rightarrow> u32 \<Rightarrow> notice list \<Rightarrow> nat" where
  "lost h pid noted = count_list noted (Lost pid h)"

definition strayed :: "u32 \<Rightarrow> u32 \<Rightarrow> notice list \<Rightarrow> nat" where
  "strayed h pid noted = count_list noted (Stray pid h)"

text \<open>
  The hits of type \<open>h\<close> a process is due: a uprobe hit for each record submitted for it, an ioctl hit for each ioctl
  on a compute device.
\<close>

definition due :: "u32 \<Rightarrow> u32 \<Rightarrow> bytes list \<Rightarrow> notice list \<Rightarrow> nat" where
  "due h pid recs noted = (if h = UPROBE_HIT then records_of pid recs else count_list noted (Issued pid))"

lemma note_counts [simp]:
  "lost h pid [] = 0" "lost h pid (xs @ ys) = lost h pid xs + lost h pid ys"
  "strayed h pid [] = 0" "strayed h pid (xs @ ys) = strayed h pid xs + strayed h pid ys"
  "due h pid [] [] = 0" "due h pid (es @ fs) (xs @ ys) = due h pid es xs + due h pid fs ys"
  by (simp_all add: lost_def strayed_def due_def)

text \<open>
  A transition of the kernel side, with the records it submits and the process it makes exit: a program fires, takes
  a step (the exit program deletes the entry) or is left, or the scheduler runs.
\<close>

inductive cpu_step ::
  "'k bpf \<Rightarrow> core_offsets \<Rightarrow> ('k \<Rightarrow> bool) \<Rightarrow> ('k \<Rightarrow> kview) \<Rightarrow> 'k \<Rightarrow> cpus \<Rightarrow> bytes list \<Rightarrow> u32 set \<Rightarrow> 'k \<Rightarrow> cpus \<Rightarrow> bool"
  for H R kinv view where
  fire: "P (v_cpu (view s)) = None \<Longrightarrow> (\<And>c pc. P c \<noteq> Some (v_pid_tgid (view s), pc)) \<Longrightarrow>
    cpu_step H R kinv view s P [] {} s (P(v_cpu (view s) \<mapsto> (v_pid_tgid (view s), Invoked call)))"
| step: "P (v_cpu (view s)) = Some (v_pid_tgid (view s), pc) \<Longrightarrow> pc \<noteq> Invoked ProcessExit \<Longrightarrow>
    micro H R pc s = (pc', s') \<Longrightarrow>
    cpu_step H R kinv view s P (drop (length (v_ring (view s))) (v_ring (view s'))) {} s'
      (P(v_cpu (view s) \<mapsto> (v_pid_tgid (view s), pc')))"
| exit: "P (v_cpu (view s)) = Some (v_pid_tgid (view s), Invoked ProcessExit) \<Longrightarrow>
    (\<And>c. \<not> holds_entry (tgid_of (v_pid_tgid (view s))) (P c)) \<Longrightarrow> micro H R (Invoked ProcessExit) s = (pc', s') \<Longrightarrow>
    cpu_step H R kinv view s P [] {tgid_of (v_pid_tgid (view s))} s'
      (P(v_cpu (view s) \<mapsto> (v_pid_tgid (view s), pc')))"
| leave: "P c = Some (tid, Finished r) \<Longrightarrow> cpu_step H R kinv view s P [] {} s (P(c := None))"
| switch: "kinv s' \<Longrightarrow> switched (view s) (view s') \<Longrightarrow> cpu_step H R kinv view s P [] {} s' P"

text \<open>Several of them, and the executions of the kernel side with a reader of the ring buffer.\<close>

inductive cpu_run ::
  "'k bpf \<Rightarrow> core_offsets \<Rightarrow> ('k \<Rightarrow> bool) \<Rightarrow> ('k \<Rightarrow> kview) \<Rightarrow> 'k \<Rightarrow> cpus \<Rightarrow> bytes list \<Rightarrow> u32 set \<Rightarrow> notice list \<Rightarrow>
    'k \<Rightarrow> cpus \<Rightarrow> bool"
  for H R kinv view s P where
  none: "cpu_run H R kinv view s P [] {} [] s P"
| more: "cpu_run H R kinv view s P log ex noted s1 P1 \<Longrightarrow> cpu_step H R kinv view s1 P1 new gone s2 P2 \<Longrightarrow>
    cpu_run H R kinv view s P (log @ new) (ex \<union> gone) (noted @ notes_of H R view s1 P1 P2) s2 P2"

inductive interleaved ::
  "'k bpf \<Rightarrow> core_offsets \<Rightarrow> ('k \<Rightarrow> bool) \<Rightarrow> ('k \<Rightarrow> kview) \<Rightarrow> 'k \<Rightarrow> bytes list \<Rightarrow> u32 set \<Rightarrow> 'k \<Rightarrow> cpus \<Rightarrow> bool"
  for H R kinv view s where
  boot: "kinv s \<Longrightarrow> interleaved H R kinv view s [] {} s Map.empty"
| cpu: "interleaved H R kinv view s log ex s1 P \<Longrightarrow> cpu_step H R kinv view s1 P new gone s2 P' \<Longrightarrow>
    interleaved H R kinv view s (log @ new) (ex \<union> gone) s2 P'"
| consume: "interleaved H R kinv view s log ex s1 P \<Longrightarrow> kinv s2 \<Longrightarrow> v_ring (view s1) = xs @ e # ys \<Longrightarrow>
    view s2 = (view s1)\<lparr>v_ring := xs @ ys\<rparr> \<Longrightarrow> interleaved H R kinv view s log ex s2 P"

lemma cpu_run_one:
  "cpu_step H R kinv view s P new gone s' P' \<Longrightarrow> cpu_run H R kinv view s P new gone (notes_of H R view s P P') s' P'"
  using cpu_run.more [OF cpu_run.none] by fastforce

lemma cpu_run_trans:
  assumes "cpu_run H R kinv view s P log ex noted s1 P1" and "cpu_run H R kinv view s1 P1 log' ex' noted' s2 P2"
  shows "cpu_run H R kinv view s P (log @ log') (ex \<union> ex') (noted @ noted') s2 P2"
  using assms(2)
proof (induction rule: cpu_run.induct)
  case none
  then show ?case using assms(1) by simp
next
  case (more log' ex' noted' s2 P2 new gone s3 P3)
  from cpu_run.more [OF more.IH more(2)] show ?case by (simp add: Un_assoc)
qed

lemma interleaved_run:
  assumes "cpu_run H R kinv view s1 P new gone noted s2 P'" and "interleaved H R kinv view s log ex s1 P"
  shows "interleaved H R kinv view s (log @ new) (ex \<union> gone) s2 P'"
  using assms
proof (induction rule: cpu_run.induct)
  case (more new gone noted s3 P3 new' gone' s4 P4)
  from interleaved.cpu [OF more.IH [OF more.prems] more(2)] show ?case by (simp add: Un_assoc)
qed simp

section \<open>What holds at each point\<close>

fun pc_ok :: "kview \<Rightarrow> nat \<Rightarrow> u64 \<Rightarrow> pc \<Rightarrow> bool" where
  "pc_ok v c tid (SyncPut t ts) \<longleftrightarrow> t = tid \<and> ts \<le> v_clock v"
| "pc_ok v c tid (SyncReserve t ts) \<longleftrightarrow> t = tid \<and> ts \<le> v_clock v"
| "pc_ok v c tid (SyncClock t e) \<longleftrightarrow> t = tid \<and>
     (\<exists>ts \<le> v_clock v. \<exists>e0. length e0 = 184 \<and> e = put_u64 160 ts (put_u32 4 (tgid_of tid) e0))"
| "pc_ok v c tid (SyncDelete t e) \<longleftrightarrow> t = tid \<and> good_record e \<and> record_pid e = tgid_of tid"
| "pc_ok v c tid (IoctlWalk pid fd) \<longleftrightarrow> pid = tgid_of tid"
| "pc_ok v c tid (Submit pid e) \<longleftrightarrow> pid = tgid_of tid \<and> good_record e \<and> record_pid e = tgid_of tid"
| "pc_ok v c tid (CountLookup pid h) \<longleftrightarrow> pid = tgid_of tid"
| "pc_ok v c tid (CountClock pid h) \<longleftrightarrow> pid = tgid_of tid"
| "pc_ok v c tid (CountUpdate pid h now) \<longleftrightarrow> pid = tgid_of tid \<and> now \<le> v_clock v"
| "pc_ok v c tid (CountRelookup pid h) \<longleftrightarrow> pid = tgid_of tid"
| "pc_ok v c tid (CountAdd h p) \<longleftrightarrow> p = (tgid_of tid, c) \<and> v_watchdog v (tgid_of tid) \<noteq> None"
| "pc_ok v c tid pc \<longleftrightarrow> True"

text \<open>The hits of type \<open>h\<close> a program still has to count.\<close>

fun owed_hit :: "u32 \<Rightarrow> u32 \<Rightarrow> pc \<Rightarrow> nat" where
  "owed_hit h pid (CountLookup p h') = (if p = pid \<and> h' = h then 1 else 0)"
| "owed_hit h pid (CountClock p h') = (if p = pid \<and> h' = h then 1 else 0)"
| "owed_hit h pid (CountUpdate p h' now) = (if p = pid \<and> h' = h then 1 else 0)"
| "owed_hit h pid (CountRelookup p h') = (if p = pid \<and> h' = h then 1 else 0)"
| "owed_hit h pid (CountAdd h' p) = (if fst p = pid \<and> h' = h then 1 else 0)"
| "owed_hit h pid pc = 0"

definition owed_hits :: "u32 \<Rightarrow> nat \<Rightarrow> u32 \<Rightarrow> cpus \<Rightarrow> nat" where
  "owed_hits h n pid P = (\<Sum>c<n. case P c of None \<Rightarrow> 0 | Some (_, pc) \<Rightarrow> owed_hit h pid pc)"

definition cpus_ok :: "kview \<Rightarrow> cpus \<Rightarrow> bool" where
  "cpus_ok v P \<longleftrightarrow> (\<forall>c tid pc. P c = Some (tid, pc) \<longrightarrow> c < v_ncpu v \<and> pc_ok v c tid pc)"

text \<open>
  One step of one CPU as the others and the reader see it. The hits of either type, counted or owed, grow by those
  the step makes due, less those it drops.
\<close>

definition stepped :: "kview \<Rightarrow> pc \<Rightarrow> notice list \<Rightarrow> kview \<Rightarrow> pc \<Rightarrow> bool" where
  "stepped v pc noted v' pc' \<longleftrightarrow>
     v_ncpu v' = v_ncpu v \<and> v_cpu v' = v_cpu v \<and> v_pid_tgid v' = v_pid_tgid v \<and> v_clock v \<le> v_clock v' \<and>
     sys_inv v' \<and> pc_ok v' (v_cpu v) (v_pid_tgid v) pc' \<and>
     (\<forall>p. v_watchdog v p \<noteq> None \<longrightarrow> v_watchdog v' p \<noteq> None \<and> (\<forall>h. lost h p noted = 0)) \<and>
     (\<exists>new. v_ring v' = v_ring v @ new \<and> (\<forall>h pid. h = UPROBE_HIT \<or> h = IOCTL_HIT \<longrightarrow>
        hit_total h v' pid + of_nat (owed_hit h pid pc') + of_nat (lost h pid noted) =
        hit_total h v pid + of_nat (owed_hit h pid pc) + of_nat (due h pid new noted)))"

lemma steppedI:
  assumes "v_ncpu v' = v_ncpu v" "v_cpu v' = v_cpu v" "v_pid_tgid v' = v_pid_tgid v" "v_clock v \<le> v_clock v'"
    and "sys_inv v'" "pc_ok v' (v_cpu v) (v_pid_tgid v) pc'" "v_watchdog v' = v_watchdog v" "v_ring v' = v_ring v"
    and "\<And>h p. v_watchdog v p \<noteq> None \<Longrightarrow> lost h p noted = 0"
    and "\<And>h pid. h = UPROBE_HIT \<or> h = IOCTL_HIT \<Longrightarrow>
      owed_hit h pid pc' + lost h pid noted = owed_hit h pid pc + due h pid [] noted"
  shows "stepped v pc noted v' pc'"
proof -
  have "hit_total h v' pid + of_nat (owed_hit h pid pc') + of_nat (lost h pid noted) =
      hit_total h v pid + of_nat (owed_hit h pid pc) + of_nat (due h pid [] noted)"
    if "h = UPROBE_HIT \<or> h = IOCTL_HIT" for h pid
    using assms(10) [OF that, of pid] hit_total_cong [of v' pid v h] assms(7)
    by (simp add: add.assoc flip: of_nat_add)
  then show ?thesis using assms(1-9) by (auto simp: stepped_def intro!: exI [of _ "[]"])
qed

lemma stepped_same:
  assumes "sys_inv v" "pc_ok v (v_cpu v) (v_pid_tgid v) pc'"
    and "\<And>h pid. owed_hit h pid pc' = owed_hit h pid pc"
  shows "stepped v pc [] v pc'"
  using assms by (intro steppedI) auto

lemma stepped_clock:
  assumes "sys_inv v" "v_clock v \<le> t" "pc_ok (v\<lparr>v_clock := t\<rparr>) (v_cpu v) (v_pid_tgid v) pc'"
    and "\<And>h pid. owed_hit h pid pc' = owed_hit h pid pc"
  shows "stepped v pc [] (v\<lparr>v_clock := t\<rparr>) pc'"
  using assms by (intro steppedI) (auto intro: sys_inv_clock)

lemma pc_ok_stable:
  assumes "pc_ok v c tid pc" "v_clock v \<le> v_clock v'"
    and "holds_entry (tgid_of tid) (Some (tid, pc)) \<Longrightarrow> v_watchdog v (tgid_of tid) \<noteq> None \<Longrightarrow>
      v_watchdog v' (tgid_of tid) \<noteq> None"
  shows "pc_ok v' c tid pc"
  using assms by (cases pc) (auto simp: holds_entry_def intro: order_trans)

section \<open>Every step\<close>

locale bpf_concurrent = bpf_runtime H kinv view
  for H :: "'k bpf" and kinv :: "'k \<Rightarrow> bool" and view :: "'k \<Rightarrow> kview" +
  assumes watchdog_update_exists: "kinv s \<Longrightarrow> v_watchdog (view s) pid = Some l \<Longrightarrow>
    watchdog_update H pid v BPF_NOEXIST s = (ok, s') \<Longrightarrow> kinv s' \<and> view s' = view s"
begin

lemma reserve_fill_stepped:
  assumes inv: "kinv s" "sys_inv (view s)" and run: "reserve_fill H T pid fill s = (pc', s')"
    and pid: "pid = tgid_of (v_pid_tgid (view s))" and idle: "\<And>h p. owed_hit h p pc = 0"
    and fill: "\<And>e s1. kinv s1 \<Longrightarrow> length e = sizeof T \<Longrightarrow> good_record (fill s1 e) \<and> record_pid (fill s1 e) = pid"
  shows "kinv s' \<and> stepped (view s) pc [] (view s') pc'"
proof (cases "ringbuf_reserve H (sizeof T) s")
  case None
  then show ?thesis using run inv idle by (auto simp: reserve_fill_def intro: stepped_same)
next
  case (Some m)
  obtain e s1 where m: "m = (e, s1)" by (cases m)
  have r: "kinv s1 \<and> view s1 = view s \<and> length e = sizeof T"
    using ringbuf_reserve [OF inv(1)] Some m by blast
  have "pc' = Submit pid (fill s1 e)" "s' = s1" using run Some m by (auto simp: reserve_fill_def)
  with r fill [of s1 e] inv pid idle show ?thesis by (auto intro!: stepped_same)
qed

lemma filled_good:
  assumes "kinv s"
  shows "length e = sizeof gpu_kernel_launch_event_t \<Longrightarrow>
      good_record (fill_launch H pid sp gx gy gz blx bly s e) \<and> record_pid (fill_launch H pid sp gx gy gz blx bly s e) = pid"
    and "length e = sizeof gpu_memalloc_event_t \<Longrightarrow>
      good_record (fill_memalloc H pid n s e) \<and> record_pid (fill_memalloc H pid n s e) = pid"
    and "length e = sizeof gpu_memcpy_event_t \<Longrightarrow> dir = DIR_HTOD \<or> dir = DIR_DTOH \<Longrightarrow>
      good_record (fill_memcpy H pid n dir s e) \<and> record_pid (fill_memcpy H pid n dir s e) = pid"
proof -
  note c = comm_length_150 [OF assms]
  { assume "length e = sizeof gpu_kernel_launch_event_t"
    then have "launch_record pid (get_current_comm H TASK_COMM_SIZE s) (gx, gy, gz)
        (blx, bly, u64_at 0 (probe_read_user H 8 (sp + 8) s)) (fill_launch H pid sp gx gy gz blx bly s e)"
      using launch_filled [OF _ c, of e pid] by (simp add: fill_launch_def event_layout Let_def)
    then show "good_record (fill_launch H pid sp gx gy gz blx bly s e) \<and>
        record_pid (fill_launch H pid sp gx gy gz blx bly s e) = pid"
      using good_records(1) record_pids(1) by blast }
  { assume "length e = sizeof gpu_memalloc_event_t"
    then have "memalloc_record pid (get_current_comm H TASK_COMM_SIZE s) n (fill_memalloc H pid n s e)"
      using memalloc_filled [OF _ c, of e pid] by (simp add: fill_memalloc_def event_layout Let_def)
    then show "good_record (fill_memalloc H pid n s e) \<and> record_pid (fill_memalloc H pid n s e) = pid"
      using good_records(2) record_pids(2) by blast }
  { assume "length e = sizeof gpu_memcpy_event_t" and dir: "dir = DIR_HTOD \<or> dir = DIR_DTOH"
    then have "memcpy_record pid (get_current_comm H TASK_COMM_SIZE s) n dir (fill_memcpy H pid n dir s e)"
      using memcpy_filled [OF _ c, of e pid] by (simp add: fill_memcpy_def event_layout Let_def)
    then show "good_record (fill_memcpy H pid n dir s e) \<and> record_pid (fill_memcpy H pid n dir s e) = pid"
      using good_records(3,4) record_pids(3) dir by blast }
qed

lemma enter_stepped:
  assumes inv: "kinv s" "sys_inv (view s)" and call: "call \<noteq> ProcessExit"
    and run: "enter H (tgid_of (v_pid_tgid (view s))) call s = (pc', s')"
  shows "kinv s' \<and> stepped (view s) (Invoked call) [] (view s') pc'"
proof -
  let ?pid = "tgid_of (v_pid_tgid (view s))"
  have reserved: "kinv s' \<and> stepped (view s) (Invoked call) [] (view s') pc'"
    if "reserve_fill H T ?pid fill s = (pc', s')"
      and "\<And>e s1. kinv s1 \<Longrightarrow> length e = sizeof T \<Longrightarrow> good_record (fill s1 e) \<and> record_pid (fill s1 e) = ?pid" for T fill
    using reserve_fill_stepped [OF inv that(1) refl _ that(2), of "Invoked call"] by simp
  have sync: "kinv s' \<and> stepped (view s) (Invoked call) [] (view s') pc'" if "sync_enter H s = (pc', s')"
  proof -
    obtain t s1 where k: "ktime_get_ns H s = (t, s1)" by fastforce
    with that have "pc' = SyncPut (v_pid_tgid (view s)) t" "s' = s1"
      by (auto simp: sync_enter_def pid_tgid [OF inv(1)] Let_def)
    with ktime [OF inv(1) k] inv(2) show ?thesis by (auto intro: stepped_clock)
  qed
  have return: "kinv s' \<and> stepped (view s) (Invoked call) [] (view s') pc'" if "sync_return H s = (pc', s')"
    using that inv unfolding sync_return_def Let_def pid_tgid [OF inv(1)] stream_lookup [OF inv(1)]
    by (auto split: option.splits intro!: stepped_same simp: sys_inv_def)
  have ioctl: "kinv s' \<and> stepped (view s) (Invoked call) [] (view s') pc'" if "call = Ioctl fd" for fd
  proof -
    obtain t s1 where k: "ktime_get_ns H s = (t, s1)" by fastforce
    with that run have "pc' = IoctlWalk ?pid fd" "s' = s1" by auto
    with ktime [OF inv(1) k] inv(2) show ?thesis by (auto intro: stepped_clock)
  qed
  note copy = filled_good(3) [OF _ _ disjI1 [OF refl]] filled_good(3) [OF _ _ disjI2 [OF refl]]
  show ?thesis
  proof (cases call)
    case (LaunchKernel sp f gx gy gz blx bly)
    with run show ?thesis by (intro reserved [OF _ filled_good(1)]) simp_all
  next
    case (MemAlloc p n)
    with run show ?thesis by (intro reserved [OF _ filled_good(2)]) simp_all
  next
    case (MemcpyHtoD d p n)
    with run show ?thesis by (intro reserved [OF _ copy(1)]) simp_all
  next
    case (MemcpyDtoH d p n)
    with run show ?thesis by (intro reserved [OF _ copy(2)]) simp_all
  next
    case (MemcpyHtoDAsync d p n st)
    with run show ?thesis by (intro reserved [OF _ copy(1)]) simp_all
  next
    case (MemcpyDtoHAsync d p n st)
    with run show ?thesis by (intro reserved [OF _ copy(2)]) simp_all
  qed (use run call sync return ioctl in simp_all)
qed

lemma sync_put_stepped:
  assumes inv: "kinv s" "sys_inv (view s)" and ts: "ts \<le> v_clock (view s)"
    and u: "stream_update H tid ts BPF_ANY s = (ok, s')"
  shows "kinv s' \<and> stepped (view s) (SyncPut tid ts) [] (view s') (Finished 0)"
  using stream_update [OF inv(1) u] inv(2) ts by (cases ok) (auto intro!: steppedI simp: sys_inv_def)

lemma sync_reserve_stepped:
  assumes inv: "kinv s" "sys_inv (view s)" and ok: "pc_ok (view s) c (v_pid_tgid (view s)) (SyncReserve tid ts)"
    and run: "micro H R (SyncReserve tid ts) s = (pc', s')"
  shows "kinv s' \<and> stepped (view s) (SyncReserve tid ts) [] (view s') pc'"
proof (cases "ringbuf_reserve H (sizeof gpu_stream_event_t) s")
  case None
  then show ?thesis using run inv by (auto intro: stepped_same)
next
  case (Some m)
  obtain e s1 where m: "m = (e, s1)" by (cases m)
  have r: "kinv s1 \<and> view s1 = view s \<and> length e = sizeof gpu_stream_event_t"
    using ringbuf_reserve [OF inv(1)] Some m by blast
  then have "length e = 184" by (simp add: event_layout)
  moreover have pc: "pc' = SyncClock tid (put_u64 160 ts (put_u32 4 (tgid_of tid) e))" "s' = s1"
    using run Some m by (simp_all add: event_layout Let_def)
  ultimately have "pc_ok (view s) (v_cpu (view s)) (v_pid_tgid (view s)) pc'"
    using ok by (auto intro!: exI [of _ ts] exI [of _ e])
  from stepped_same [OF inv(2) this] pc r show ?thesis by simp
qed

lemma sync_clock_stepped:
  assumes inv: "kinv s" "sys_inv (view s)" and ok: "pc_ok (view s) c (v_pid_tgid (view s)) (SyncClock tid e)"
    and run: "micro H R (SyncClock tid e) s = (pc', s')"
  shows "kinv s' \<and> stepped (view s) (SyncClock tid e) [] (view s') pc'"
proof -
  obtain now s1 where k: "ktime_get_ns H s = (now, s1)" by fastforce
  have k1: "kinv s1" "view s1 = (view s)\<lparr>v_clock := now\<rparr>" "v_clock (view s) \<le> now"
    using ktime [OF inv(1) k] by simp_all
  let ?pid = "tgid_of (v_pid_tgid (view s))"
  from ok obtain ts e0 where e: "tid = v_pid_tgid (view s)" "ts \<le> v_clock (view s)" "length e0 = 184"
    "e = put_u64 160 ts (put_u32 4 ?pid e0)" by auto
  have "stream_record ?pid (get_current_comm H TASK_COMM_SIZE s1) ts now (fill_times H now s1 e)"
    using stream_filled [OF e(3) comm_length_150 [OF k1(1)], of ?pid ts now]
    by (simp add: fill_times_def event_layout Let_def e(4))
  moreover have "ts \<le> now" using e(2) k1(3) by (rule order_trans)
  ultimately have "good_record (fill_times H now s1 e)" "record_pid (fill_times H now s1 e) = ?pid"
    using good_records(5) record_pids(4) by blast+
  then show ?thesis using run k k1 inv(2) e(1) by (auto intro!: stepped_clock)
qed

lemma sync_delete_stepped:
  assumes inv: "kinv s" "sys_inv (view s)" and ok: "pc_ok (view s) c (v_pid_tgid (view s)) (SyncDelete tid e)"
  shows "kinv (stream_delete H tid s) \<and>
    stepped (view s) (SyncDelete tid e) [] (view (stream_delete H tid s)) (Submit (tgid_of tid) e)"
  using stream_delete [OF inv(1), of tid] inv(2) ok by (auto intro!: steppedI simp: sys_inv_def)

lemma ioctl_walk_cases:
  "ioctl_walk H R pid fd s = (if on_compute_device H R s fd then CountLookup pid IOCTL_HIT else Finished 0)"
  unfolding ioctl_walk_def on_compute_device_def fd_device_def Let_def decoded_device mult.commute [of 8]
  by auto

lemma ioctl_walk_stepped:
  assumes "sys_inv (view s)" and "pid = tgid_of (v_pid_tgid (view s))"
  shows "stepped (view s) (IoctlWalk pid fd) (step_notes H R view s (IoctlWalk pid fd)) (view s) (ioctl_walk H R pid fd s)"
  using assms by (intro steppedI)
    (auto simp: ioctl_walk_cases step_notes_def lost_def due_def IOCTL_HIT_def UPROBE_HIT_def)

lemma submit_stepped:
  assumes inv: "kinv s" "sys_inv (view s)" and ok: "pc_ok (view s) c (v_pid_tgid (view s)) (Submit pid e)"
  shows "kinv (ringbuf_submit H e s) \<and>
    stepped (view s) (Submit pid e) [] (view (ringbuf_submit H e s)) (CountLookup pid UPROBE_HIT)"
  using ringbuf_submit [OF inv(1), of e] sys_inv_append [OF inv(2), of e] ok
  by (auto simp: stepped_def due_def hit_total_def uprobe_total_def ioctl_total_def)

lemma count_add_stepped:
  assumes inv: "kinv s" "sys_inv (view s)"
    and ok: "pc_ok (view s) (v_cpu (view s)) (v_pid_tgid (view s)) (CountAdd h p)"
    and run: "micro H R (CountAdd h p) s = (pc', s')"
  shows "kinv s' \<and> stepped (view s) (CountAdd h p) [] (view s') pc'"
proof -
  let ?pid = "tgid_of (v_pid_tgid (view s))" and ?c = "v_cpu (view s)" and ?v = "view s"
  from ok obtain l where p: "p = (?pid, ?c)" and l: "v_watchdog ?v ?pid = Some l" by auto
  have len: "length l = v_ncpu ?v" "?c < length l" using percpu_length [OF inv(1) l] cpu_in_range [OF inv(1)] by auto
  let ?v' = "?v\<lparr>v_watchdog := (v_watchdog ?v)(?pid \<mapsto> l[?c := hit h (l ! ?c)])\<rparr>"
  have same: "(v_watchdog ?v)(?pid \<mapsto> l[?c := l ! ?c]) = v_watchdog ?v" using l by (auto simp: list_update_id)
  have s': "pc' = Finished 0" "kinv s'" "view s' = ?v'"
    using run modify_hit [OF inv(1) l] inv(1) same unfolding p
    by (auto simp: hit_def split: if_splits)
  have "stamped (v_clock ?v) l" using inv(2) l by (simp add: sys_inv_def)
  then have "sys_inv ?v'" by (intro sys_inv_entry [OF inv(2)] stamped_hit)
  moreover have "hit_total h' ?v' pid = hit_total h' ?v pid + of_nat (owed_hit h' pid (CountAdd h p))"
    if "h' = UPROBE_HIT \<or> h' = IOCTL_HIT" for h' pid
    using hit_total_hit [OF l len(2) that, of h pid] p by simp
  ultimately show ?thesis unfolding s' by (auto simp: stepped_def s'(2) [unfolded s'(1)] intro!: exI [of _ "[]"])
qed

lemma lookup_stepped:
  assumes inv: "kinv s" "sys_inv (view s)" and pid: "pid = tgid_of (v_pid_tgid (view s))"
  shows "micro H R (CountLookup pid h) s = (pc', s') \<Longrightarrow> stepped (view s) (CountLookup pid h) [] (view s) pc'"
    and "micro H R (CountRelookup pid h) s = (pc', s') \<Longrightarrow> stepped (view s) (CountRelookup pid h)
      (step_notes H R view s (CountRelookup pid h)) (view s) pc'"
  using assms watchdog_lookup [OF inv(1), of pid]
  by (cases "v_watchdog (view s) pid";
      auto intro!: steppedI simp: step_notes_def lost_def due_def IOCTL_HIT_def UPROBE_HIT_def)+

lemma count_update_stepped:
  assumes inv: "kinv s" "sys_inv (view s)" and pid: "pid = tgid_of (v_pid_tgid (view s))"
    and now: "now \<le> v_clock (view s)"
    and u: "watchdog_update H pid \<lparr>ioctl_hit_count = 0, uprobe_hit_count = 0, first_seen_time = now\<rparr> BPF_NOEXIST s =
      (ok, s')"
  shows "kinv s' \<and> stepped (view s) (CountUpdate pid h now) [] (view s') (CountRelookup pid h)"
proof (cases "v_watchdog (view s) pid")
  case (Some l)
  from watchdog_update_exists [OF inv(1) this u] inv(2) pid show ?thesis by (auto intro: stepped_same)
next
  case None
  let ?z = "\<lparr>ioctl_hit_count = 0, uprobe_hit_count = 0, first_seen_time = now\<rparr>"
  have "stamped (v_clock (view s)) (fresh_percpu (v_ncpu (view s)) (v_cpu (view s)) ?z)"
    using cpu_in_range [OF inv(1)] now by (intro stamped_fresh) auto
  from sys_inv_entry [OF inv(2) this, of pid] watchdog_update [OF inv(1) None u] inv(2) pid None fresh_sums
  show ?thesis
    by (cases ok) (auto simp: stepped_def hit_total_def uprobe_total_def ioctl_total_def intro!: stepped_same exI [of _ "[]"])
qed

lemma micro_stepped:
  assumes inv: "kinv s" "sys_inv (view s)" and ok: "pc_ok (view s) (v_cpu (view s)) (v_pid_tgid (view s)) pc"
    and pc: "pc \<noteq> Invoked ProcessExit" and run: "micro H R pc s = (pc', s')"
  shows "kinv s' \<and> stepped (view s) pc (step_notes H R view s pc) (view s') pc'"
proof (cases pc)
  case (Invoked call)
  then show ?thesis using enter_stepped [OF inv] pc run by (simp add: pid_tgid [OF inv(1)])
next
  case (SyncPut tid ts)
  then show ?thesis using sync_put_stepped [OF inv] ok run by (auto split: prod.splits)
next
  case (SyncReserve tid ts)
  show ?thesis using sync_reserve_stepped [OF inv ok [unfolded SyncReserve] run [unfolded SyncReserve]]
    by (simp add: SyncReserve)
next
  case (SyncClock tid e)
  show ?thesis using sync_clock_stepped [OF inv ok [unfolded SyncClock] run [unfolded SyncClock]]
    by (simp add: SyncClock)
next
  case (SyncDelete tid e)
  show ?thesis using sync_delete_stepped [OF inv ok [unfolded SyncDelete]] run by (auto simp: SyncDelete)
next
  case (IoctlWalk pid fd)
  then show ?thesis using ioctl_walk_stepped [OF inv(2)] inv(1) ok run by auto
next
  case (Submit pid e)
  show ?thesis using submit_stepped [OF inv ok [unfolded Submit]] run by (auto simp: Submit)
next
  case (CountLookup pid h)
  have "s' = s" using run by (auto simp: CountLookup split: option.splits)
  moreover have "stepped (view s) pc [] (view s) pc'"
    using ok run unfolding CountLookup by (intro lookup_stepped(1) [OF inv]) auto
  ultimately show ?thesis using inv(1) by (simp add: CountLookup)
next
  case (CountClock pid h)
  obtain now s1 where k: "ktime_get_ns H s = (now, s1)" by fastforce
  then show ?thesis using ktime [OF inv(1) k] inv(2) ok run by (auto simp: CountClock intro!: stepped_clock)
next
  case (CountUpdate pid h now)
  then show ?thesis using count_update_stepped [OF inv] ok run by (auto simp: Let_def split: prod.splits)
next
  case (CountRelookup pid h)
  have "s' = s" using run by (auto simp: CountRelookup split: option.splits)
  moreover have "stepped (view s) pc (step_notes H R view s pc) (view s) pc'"
    using ok run unfolding CountRelookup by (intro lookup_stepped(2) [OF inv]) auto
  ultimately show ?thesis using inv(1) by simp
next
  case (CountAdd h p)
  show ?thesis using count_add_stepped [OF inv ok [unfolded CountAdd] run [unfolded CountAdd]]
    by (simp add: CountAdd)
next
  case (Finished r)
  then show ?thesis using inv run by (auto intro!: stepped_same)
qed

lemma delete_inv:
  "sys_inv v \<Longrightarrow> sys_inv (v\<lparr>v_watchdog := (v_watchdog v)(pid := None)\<rparr>)"
  by (auto simp: sys_inv_def)

lemma cpus_ok_mono:
  assumes "cpus_ok v P" and "v_ncpu v' = v_ncpu v" and "v_clock v \<le> v_clock v'"
    and "\<And>pid c. holds_entry pid (P c) \<Longrightarrow> v_watchdog v pid \<noteq> None \<Longrightarrow> v_watchdog v' pid \<noteq> None"
  shows "cpus_ok v' P"
  unfolding cpus_ok_def
proof (intro allI impI conjI)
  fix c tid pc assume c: "P c = Some (tid, pc)"
  with assms(1,2) show "c < v_ncpu v'" by (simp add: cpus_ok_def)
  show "pc_ok v' c tid pc"
    using assms(1) c by (intro pc_ok_stable [OF _ assms(3) assms(4) [of _ c]]) (auto simp: cpus_ok_def)
qed

lemma cpus_ok_upd:
  "cpus_ok v P \<Longrightarrow> P c \<noteq> None \<Longrightarrow> pc_ok v c tid pc \<Longrightarrow> cpus_ok v (P(c \<mapsto> (tid, pc)))"
  by (auto simp: cpus_ok_def)

lemma switched_ok: "switched v v' \<Longrightarrow> cpus_ok v P \<Longrightarrow> cpus_ok v' P"
  by (rule cpus_ok_mono) (auto simp: switched_def)

lemma stepped_ok:
  assumes "stepped v pc noted v' pc'" and "cpus_ok v P" and "P (v_cpu v) = Some (v_pid_tgid v, pc)"
  shows "cpus_ok v' (P(v_cpu v \<mapsto> (v_pid_tgid v, pc')))"
  by (rule cpus_ok_upd [OF cpus_ok_mono [OF assms(2)]]) (use assms(1,3) in \<open>auto simp: stepped_def\<close>)

lemma deleted_ok:
  assumes "cpus_ok v P" and "\<And>c. \<not> holds_entry pid (P c)" and "P c = Some (tid, pc)"
  shows "cpus_ok (v\<lparr>v_watchdog := (v_watchdog v)(pid := None)\<rparr>) (P(c \<mapsto> (tid, Finished r)))"
  by (rule cpus_ok_upd [OF cpus_ok_mono [OF assms(1)]]) (use assms(2,3) in \<open>auto simp: holds_entry_def\<close>)

lemma step_stepped:
  assumes inv: "kinv s1" "sys_inv (view s1)" "cpus_ok (view s1) P"
    and c: "P (v_cpu (view s1)) = Some (v_pid_tgid (view s1), pc)"
    and pc: "pc \<noteq> Invoked ProcessExit" and run: "micro H R pc s1 = (pc', s2)"
  shows "kinv s2 \<and> stepped (view s1) pc (step_notes H R view s1 pc) (view s2) pc'"
  using micro_stepped [OF inv(1,2) _ pc run] inv(3) c by (simp add: cpus_ok_def)

lemma exit_deletes:
  assumes "kinv s1" and "micro H R (Invoked ProcessExit) s1 = (pc', s2)"
  shows "pc' = Finished 0 \<and> kinv s2 \<and> view s2 =
    (view s1)\<lparr>v_watchdog := (v_watchdog (view s1))(tgid_of (v_pid_tgid (view s1)) := None)\<rparr>"
  using watchdog_delete [OF assms(1)] assms by (auto simp: pid_tgid)

lemma cpu_step_inv:
  assumes "cpu_step H R kinv view s P new gone s' P'" and "kinv s" "sys_inv (view s)" "cpus_ok (view s) P"
  shows "kinv s' \<and> sys_inv (view s') \<and> v_ncpu (view s') = v_ncpu (view s) \<and> cpus_ok (view s') P' \<and>
    v_ring (view s') = v_ring (view s) @ new"
  using assms
proof (induction rule: cpu_step.induct)
  case (fire P s call)
  then show ?case using cpu_in_range [of s] by (auto simp: cpus_ok_def)
next
  case (step P s pc pc' s')
  then have st: "kinv s' \<and> stepped (view s) pc (step_notes H R view s pc) (view s') pc'"
    using step_stepped [of s P pc R pc' s'] by simp
  then have "cpus_ok (view s') (P(v_cpu (view s) \<mapsto> (v_pid_tgid (view s), pc')))"
    using stepped_ok [of "view s" pc "step_notes H R view s pc" "view s'" pc' P] step by simp
  with st show ?case by (auto simp: stepped_def fun_upd_def)
next
  case (exit P s pc' s')
  note d = exit_deletes [OF exit(4,3)]
  have "cpus_ok (view s') (P(v_cpu (view s) \<mapsto> (v_pid_tgid (view s), pc')))"
    using deleted_ok [of "view s" P, OF _ exit(2,1), of 0] exit d by simp
  then show ?case using d exit delete_inv by (simp add: fun_upd_def)
next
  case (leave P c tid r s)
  then show ?case by (auto simp: cpus_ok_def)
next
  case (switch s' s P)
  then show ?case using switched_inv [of "view s" "view s'"] switched_ok [of "view s" "view s'" P]
    by (simp add: switched_def [of "view s"])
qed

lemma interleaved_inv:
  assumes "interleaved H R kinv view s log ex s' P" and "sys_inv (view s)"
  shows "kinv s' \<and> sys_inv (view s') \<and> v_ncpu (view s') = v_ncpu (view s) \<and> cpus_ok (view s') P"
  using assms(1)
proof (induction rule: interleaved.induct)
  case boot
  then show ?case using assms(2) by (simp add: cpus_ok_def)
next
  case (cpu log ex s1 P new gone s2 P')
  with cpu_step_inv [OF cpu(2)] show ?case by simp
next
  case (consume log ex s1 P s2 xs e ys)
  have "cpus_ok (view s2) P" by (rule cpus_ok_mono [of "view s1"]) (use consume in auto)
  with consume show ?case by (auto simp: sys_inv_def)
qed

text \<open>The hits of a process none of whose threads exits, counted, owed or dropped, are those it is due.\<close>

lemma account_step:
  fixes t :: u64
  assumes "t' + h' + l = t + h + d" and "o' + h = q + h'"
  shows "t' + o' + l = t + q + d"
proof -
  have "t' + o' + l + (h' + h) = (t' + h' + l) + (o' + h)" by (simp add: ac_simps)
  also have "\<dots> = (t + h + d) + (q + h')" by (simp only: assms)
  also have "\<dots> = t + q + d + (h' + h)" by (simp add: ac_simps)
  finally show ?thesis by simp
qed

lemma owed_hits_upd:
  assumes "c < n"
  shows "owed_hits h n pid (P(c := x)) + (case P c of None \<Rightarrow> 0 | Some (_, pc) \<Rightarrow> owed_hit h pid pc) =
    owed_hits h n pid P + (case x of None \<Rightarrow> 0 | Some (_, pc) \<Rightarrow> owed_hit h pid pc)"
  using sum_upd [of "{..<n}" c "\<lambda>_ y. case y of None \<Rightarrow> 0 | Some (_, pc) \<Rightarrow> owed_hit h pid pc" P x] assms
  by (simp add: owed_hits_def)

lemma notes_of_leave: "P c = Some (tid, Finished r) \<Longrightarrow> notes_of H R view s P (P(c := None)) = []"
  by (auto simp: notes_of_def Let_def)

lemma micro_stays:
  assumes "micro H R pc s = (pc, s')" and "pc \<noteq> Invoked ProcessExit"
  shows "\<exists>r. pc = Finished r"
  using assms
proof (cases pc)
  case (Invoked call)
  with assms show ?thesis
    by (cases call) (auto simp: reserve_fill_def sync_enter_def sync_return_def Let_def split: option.splits prod.splits)
qed (auto simp: ioctl_walk_cases Let_def split: option.splits prod.splits if_splits)

lemma notes_of_step:
  assumes "P (v_cpu (view s)) = Some (v_pid_tgid (view s), pc)" and "micro H R pc s = (pc', s')" and "pc \<noteq> Invoked ProcessExit"
  shows "notes_of H R view s P (P(v_cpu (view s) \<mapsto> (v_pid_tgid (view s), pc'))) = step_notes H R view s pc"
  using assms micro_stays [of R pc s s'] by (auto simp: notes_of_def)

lemma cpu_step_live:
  assumes "cpu_step H R kinv view s P new gone s' P'" and "kinv s" "sys_inv (view s)" "cpus_ok (view s) P"
    and "v_watchdog (view s) pid \<noteq> None" and "pid \<notin> gone"
  shows "v_watchdog (view s') pid \<noteq> None \<and> lost h pid (notes_of H R view s P P') = 0"
  using assms
proof (induction rule: cpu_step.induct)
  case (fire P s call)
  then show ?case by (simp add: notes_of_def)
next
  case (step P s pc pc' s')
  have "stepped (view s) pc (step_notes H R view s pc) (view s') pc'" using step_stepped [of s P pc R pc' s'] step by auto
  with step(7) show ?case unfolding notes_of_step [where P = P, OF step(1,3,2)] by (auto simp: stepped_def)
next
  case (exit P s pc' s')
  from exit_deletes [OF exit(4,3)] exit show ?case by (auto simp: notes_of_def)
next
  case (leave P c tid r s)
  then show ?case unfolding notes_of_leave [where P = P, OF leave(1)] by simp
next
  case (switch s' s P)
  then show ?case by (simp add: notes_of_def switched_def)
qed

lemma cpu_step_total:
  assumes "cpu_step H R kinv view s P new gone s' P'" and "kinv s" "sys_inv (view s)" "cpus_ok (view s) P"
    and "pid \<notin> gone" and "v_ncpu (view s) = n" and h: "h = UPROBE_HIT \<or> h = IOCTL_HIT"
  shows "hit_total h (view s') pid + of_nat (owed_hits h n pid P') + of_nat (lost h pid (notes_of H R view s P P')) =
    hit_total h (view s) pid + of_nat (owed_hits h n pid P) + of_nat (due h pid new (notes_of H R view s P P'))"
  using assms(1-6)
proof (induction rule: cpu_step.induct)
  case (fire P s call)
  have "v_cpu (view s) < n" using fire cpu_in_range [of s] by simp
  from owed_hits_upd [OF this, of h pid P "Some (v_pid_tgid (view s), Invoked call)"] fire
  show ?case by (simp add: fun_upd_def notes_of_def)
next
  case (step P s pc pc' s')
  let ?P = "P(v_cpu (view s) \<mapsto> (v_pid_tgid (view s), pc'))" and ?noted = "step_notes H R view s pc"
  have st: "stepped (view s) pc ?noted (view s') pc'" using step_stepped [of s P pc R pc' s'] step by auto
  have "v_cpu (view s) < n" using step cpu_in_range [of s] by simp
  from owed_hits_upd [OF this, of h pid P "Some (v_pid_tgid (view s), pc')"] step(1)
  have "owed_hits h n pid ?P + owed_hit h pid pc = owed_hits h n pid P + owed_hit h pid pc'" by simp
  then have u: "of_nat (owed_hits h n pid ?P) + of_nat (owed_hit h pid pc) =
    (of_nat (owed_hits h n pid P) + of_nat (owed_hit h pid pc') :: u64)" by (metis of_nat_add)
  from st h obtain new where "v_ring (view s') = v_ring (view s) @ new"
    "hit_total h (view s') pid + of_nat (owed_hit h pid pc') + of_nat (lost h pid ?noted) =
      hit_total h (view s) pid + of_nat (owed_hit h pid pc) + of_nat (due h pid new ?noted)"
    by (auto simp: stepped_def)
  with account_step [OF _ u, of "hit_total h (view s') pid" _ "hit_total h (view s) pid"]
  show ?case unfolding notes_of_step [where P = P, OF step(1,3,2)] by (simp add: fun_upd_def)
next
  case (exit P s pc' s')
  note d = exit_deletes [OF exit(4,3)]
  have "v_cpu (view s) < n" using exit cpu_in_range [of s] by simp
  from owed_hits_upd [OF this, of h pid P "Some (v_pid_tgid (view s), pc')"] exit d
    hit_total_cong [of "view s'" pid "view s" h] show ?case by (auto simp: notes_of_def fun_upd_def)
next
  case (leave P c tid r s)
  have "c < n" using leave by (auto simp: cpus_ok_def)
  from owed_hits_upd [OF this, of h pid P None] leave show ?case unfolding notes_of_leave [where P = P, OF leave(1)] by (simp add: fun_upd_def)
next
  case (switch s' s P)
  then show ?case using hit_total_cong [of "view s'" pid "view s" h] by (simp add: notes_of_def switched_def)
qed

lemma interleaved_total:
  assumes run: "interleaved H R kinv view s log ex s' P" and inv: "sys_inv (view s)"
    and entry: "v_watchdog (view s) pid \<noteq> None" and "pid \<notin> ex"
  shows "v_watchdog (view s') pid \<noteq> None \<and>
    uprobe_total (view s') pid + of_nat (owed_hits UPROBE_HIT (v_ncpu (view s)) pid P) =
    uprobe_total (view s) pid + of_nat (records_of pid log)"
  using run assms(4)
proof (induction rule: interleaved.induct)
  case boot
  then show ?case using entry by (simp add: owed_hits_def)
next
  case (cpu log ex s1 P new gone s2 P')
  note i = interleaved_inv [OF cpu(1) inv]
  from cpu cpu_step_total [OF cpu(2), of pid "v_ncpu (view s)" UPROBE_HIT] cpu_step_live [OF cpu(2), of pid UPROBE_HIT] i
  show ?case by (simp add: hit_total_def due_def add.assoc)
next
  case (consume log ex s1 P s2 xs e ys)
  then show ?case by (simp add: uprobe_total_def)
qed

text \<open>Executions in which every program runs without interruption are among the interleaved ones.\<close>

lemma micro_not_enter: "micro H R pc s = (pc', s') \<Longrightarrow> pc' \<noteq> Invoked call"
proof (cases pc)
  case (Invoked call')
  moreover assume "micro H R pc s = (pc', s')"
  ultimately show ?thesis
    by (cases call') (auto simp: reserve_fill_def sync_enter_def sync_return_def Let_def
        split: option.splits prod.splits)
qed (auto simp: ioctl_walk_def Let_def split: option.splits prod.splits if_splits)

lemma steps_run:
  assumes "P (v_cpu (view s)) = Some (v_pid_tgid (view s), pc)" and "kinv s" "sys_inv (view s)" "cpus_ok (view s) P"
    and "pc \<noteq> Invoked ProcessExit" and "steps H R n pc s = (pc', s')"
  shows "\<exists>new. v_ring (view s') = v_ring (view s) @ new \<and>
    (\<exists>noted. cpu_run H R kinv view s P new {} noted s' (P(v_cpu (view s) \<mapsto> (v_pid_tgid (view s), pc'))))"
  using assms
proof (induction n arbitrary: s P pc)
  case 0
  then have "P(v_cpu (view s) \<mapsto> (v_pid_tgid (view s), pc)) = P" by (simp add: map_upd_triv)
  with 0 show ?case by (auto intro: cpu_run.none)
next
  case (Suc n)
  let ?c = "v_cpu (view s)" and ?tid = "v_pid_tgid (view s)"
  obtain pc1 s1 where m: "micro H R pc s = (pc1, s1)" by fastforce
  let ?P = "P(?c \<mapsto> (?tid, pc1))"
  note step = cpu_step.step [where kinv = kinv and view = view and s = s and P = P, OF Suc.prems(1,5) m]
  have v: "v_cpu (view s1) = ?c" "v_pid_tgid (view s1) = ?tid"
    using step_stepped [OF Suc.prems(2-4,1,5) m] by (auto simp: stepped_def)
  from cpu_step_inv [OF step Suc.prems(2-4)] have inv: "kinv s1" "sys_inv (view s1)" "cpus_ok (view s1) ?P"
    and ring: "v_ring (view s1) = v_ring (view s) @ drop (length (v_ring (view s))) (v_ring (view s1))"
    by simp_all
  have "?P (v_cpu (view s1)) = Some (v_pid_tgid (view s1), pc1)" by (simp add: v)
  from Suc.IH [OF this inv micro_not_enter [OF m]] Suc.prems(6) m obtain new noted where
    new: "v_ring (view s') = v_ring (view s1) @ new" "cpu_run H R kinv view s1 ?P new {} noted s' (P(?c \<mapsto> (?tid, pc')))"
    by (auto simp: v fun_upd_def cong: if_cong)
  let ?new = "drop (length (v_ring (view s))) (v_ring (view s1))"
  have "\<exists>noted. cpu_run H R kinv view s P (?new @ new) {} noted s' (P(?c \<mapsto> (?tid, pc')))"
    using cpu_run_trans [OF cpu_run_one [OF step] new(2)] by auto
  moreover have "v_ring (view s') = v_ring (view s) @ ?new @ new" using ring new(1) by simp
  ultimately show ?case by blast
qed

lemma probe_run:
  assumes inv: "kinv s" "sys_inv (view s)" and call: "call \<noteq> ProcessExit" and run: "run_probe H R call s = (r, s')"
  shows "\<exists>noted. cpu_run H R kinv view s Map.empty (drop (length (v_ring (view s))) (v_ring (view s'))) {} noted s' Map.empty"
proof -
  let ?c = "v_cpu (view s)" and ?tid = "v_pid_tgid (view s)"
  note fire = cpu_step.fire [of Map.empty view s H R kinv call]
  let ?P = "Map.empty(?c \<mapsto> (?tid, Invoked call))"
  have "cpus_ok (view s) ?P" using cpu_in_range [OF inv(1)] by (auto simp: cpus_ok_def)
  from steps_run [OF _ inv this, of "Invoked call" R 10 "Finished r" s'] call run
  obtain new noted where new: "v_ring (view s') = v_ring (view s) @ new"
    "cpu_run H R kinv view s ?P new {} noted s' (Map.empty(?c \<mapsto> (?tid, Finished r)))"
    by (auto simp: steps_run_probe)
  from cpu_run.more [OF cpu_run_trans [OF cpu_run_one new(2)], OF fire cpu_step.leave [of _ ?c ?tid r]] new(1)
  show ?thesis by (simp; blast)
qed

lemma exit_run:
  assumes inv: "kinv s" and run: "handle_process_exit H s = (r, s')"
  shows "\<exists>noted. cpu_run H R kinv view s Map.empty [] {tgid_of (v_pid_tgid (view s))} noted s' Map.empty"
proof -
  let ?c = "v_cpu (view s)" and ?tid = "v_pid_tgid (view s)"
  let ?P = "\<lambda>pc. Map.empty(?c \<mapsto> (?tid, pc))"
  have fire: "cpu_step H R kinv view s Map.empty [] {} s (?P (Invoked ProcessExit))" by (rule cpu_step.fire) auto
  have "micro H R (Invoked ProcessExit) s = (Finished 0, s')"
    using run by (simp add: handle_process_exit_def Let_def)
  from cpu_step.exit [OF _ _ this, of "?P (Invoked ProcessExit)" view kinv]
  have exit: "cpu_step H R kinv view s (?P (Invoked ProcessExit)) [] {tgid_of ?tid} s' (?P (Finished 0))"
    by (simp add: holds_entry_def)
  from cpu_run.more [OF cpu_run.more [OF cpu_run_one [OF fire] exit] cpu_step.leave [of _ ?c ?tid 0]]
  show ?thesis by (simp; blast)
qed

lemma kexec_interleaved:
  assumes "kexec H R kinv view s log ex s'" and inv: "sys_inv (view s)"
  shows "interleaved H R kinv view s log ex s' Map.empty"
  using assms(1)
proof (induction rule: kexec.induct)
  case start
  then show ?case by (rule interleaved.boot)
next
  case (probe log ex s1 call r s2)
  have "kinv s1" "sys_inv (view s1)" using kexec_inv [OF probe(1) inv] by auto
  then obtain noted where "cpu_run H R kinv view s1 Map.empty (drop (length (v_ring (view s1))) (v_ring (view s2))) {} noted s2 Map.empty"
    using probe_run probe(2,3) by blast
  from interleaved_run [OF this probe.IH] show ?case by simp
next
  case (exit log ex s1 r s2)
  obtain noted where "cpu_run H R kinv view s1 Map.empty [] {tgid_of (v_pid_tgid (view s1))} noted s2 Map.empty"
    using exit_run [OF kexec_kinv [OF exit(1)] exit(2)] by blast
  from interleaved_run [OF this exit.IH] show ?case by simp
next
  case (switch log ex s1 s2)
  from interleaved.cpu [OF switch.IH cpu_step.switch [where view = view and kinv = kinv, OF switch(2,3)]] show ?case by simp
next
  case (consume log ex s1 e s2)
  have "kinv s1" using consume(1) by (rule kexec_kinv)
  from ringbuf_read [OF this consume(2)] consume.IH show ?case
    by (auto intro: interleaved.consume [of _ _ _ _ _ _ _ s1 _ _ "[]"])
qed

end

interpretation ck: bpf_concurrent reference_kernel ref_inv ref_view
  by unfold_locales (auto simp: reference_kernel_def ref_watchdog_update_def ref_view_def)

section \<open>Two CPUs at once\<close>

text \<open>
  Process 42 allocates on both CPUs: CPU 0 has submitted its record and not counted it when CPU 1 runs its
  program to the end.
\<close>

definition record_on :: "u64 \<Rightarrow> kstate \<Rightarrow> bytes" where
  "record_on n s = fill_memalloc reference_kernel 42 n s (replicate 168 (k_stale s))"

definition first_submitted :: kstate where
  "first_submitted = entry_kernel\<lparr>k_ring := [record_on 512 entry_kernel]\<rparr>"

definition second_cpu :: kstate where
  "second_cpu = first_submitted\<lparr>k_cpu := 1, k_pid_tgid := 42 * 2 ^ 32 + 44\<rparr>"

definition both_submitted :: kstate where
  "both_submitted = second_cpu\<lparr>k_ring := [record_on 512 entry_kernel, record_on 256 second_cpu]\<rparr>"

definition second_counted :: kstate where
  "second_counted = both_submitted\<lparr>k_watchdog :=
     [(42, [zero_watchdog\<lparr>first_seen_time := 900\<rparr>, zero_watchdog\<lparr>uprobe_hit_count := 1\<rparr>])]\<rparr>"

lemmas both_defs = first_submitted_def second_cpu_def both_submitted_def second_counted_def

lemma record_on_ok:
  "ref_inv s \<Longrightarrow> length (record_on n s) = 168 \<and> good_record (record_on n s) \<and> record_pid (record_on n s) = 42"
  using ck.filled_good(2) [of s "replicate 168 (k_stale s)" 42 n]
  by (simp add: record_on_def event_layout fill_memalloc_def buf_len Let_def)

lemma both_inv: "ref_inv entry_kernel" "ref_inv first_submitted" "ref_inv second_cpu" "ref_inv both_submitted"
  by (simp_all add: both_defs ref_inv_def entry_kernel_def sample_kernel_def)

lemma both_micro:
  "micro reference_kernel R (Invoked (MemAlloc 0 512)) entry_kernel = (Submit 42 (record_on 512 entry_kernel), entry_kernel)"
  "micro reference_kernel R (Submit 42 (record_on 512 entry_kernel)) entry_kernel =
     (CountLookup 42 UPROBE_HIT, first_submitted)"
  "micro reference_kernel R (Invoked (MemAlloc 0 256)) second_cpu = (Submit 42 (record_on 256 second_cpu), second_cpu)"
  "micro reference_kernel R (Submit 42 (record_on 256 second_cpu)) second_cpu =
     (CountLookup 42 UPROBE_HIT, both_submitted)"
  "micro reference_kernel R (CountLookup 42 UPROBE_HIT) both_submitted = (CountAdd UPROBE_HIT (42, 1), both_submitted)"
  "micro reference_kernel R (CountAdd UPROBE_HIT (42, 1)) both_submitted = (Finished 0, second_counted)"
proof -
  have pid: "tgid_of (k_pid_tgid entry_kernel) = 42" "tgid_of (k_pid_tgid second_cpu) = 42"
    by (simp_all add: both_defs entry_kernel_def sample_kernel_def)
  have free: "ring_used (k_ring entry_kernel) + record_cost 168 \<le> gpu_ringbuf_max_entries"
    "ring_used (k_ring second_cpu) + record_cost 168 \<le> gpu_ringbuf_max_entries"
    using record_on_ok [OF both_inv(1), of 512]
    by (simp_all add: both_defs entry_kernel_def sample_kernel_def ring_used_def record_cost_def align_up_def
        gpu_ringbuf_max_entries_def)
  show "micro reference_kernel R (Invoked (MemAlloc 0 512)) entry_kernel =
      (Submit 42 (record_on 512 entry_kernel), entry_kernel)"
    "micro reference_kernel R (Invoked (MemAlloc 0 256)) second_cpu = (Submit 42 (record_on 256 second_cpu), second_cpu)"
    using pid free
    by (simp_all add: reserve_fill_def event_layout record_on_def)
      (simp_all add: reference_kernel_def ref_ringbuf_reserve_def)
qed (simp_all add: reference_kernel_def both_defs entry_kernel_def sample_kernel_def ref_watchdog_modify_def zero_watchdog_def)

lemma two_cpus_run:
  "cpu_run reference_kernel sample_offsets ref_inv ref_view entry_kernel Map.empty
     [record_on 512 entry_kernel, record_on 256 second_cpu] {} [] second_counted
     [0 \<mapsto> (42 * 2 ^ 32 + 43, CountLookup 42 UPROBE_HIT), 1 \<mapsto> (42 * 2 ^ 32 + 44, Finished 0)]"
proof -
  let ?I = "cpu_run reference_kernel sample_offsets ref_inv ref_view entry_kernel Map.empty"
  let ?t = "42 * 2 ^ 32 + 43 :: u64" and ?u = "42 * 2 ^ 32 + 44 :: u64"
  let ?e = "record_on 512 entry_kernel" and ?f = "record_on 256 second_cpu"
  have v: "v_cpu (ref_view entry_kernel) = 0" "v_pid_tgid (ref_view entry_kernel) = ?t"
    "v_cpu (ref_view first_submitted) = 0" "v_cpu (ref_view second_cpu) = 1" "v_pid_tgid (ref_view second_cpu) = ?u"
    "v_cpu (ref_view both_submitted) = 1" "v_pid_tgid (ref_view both_submitted) = ?u"
    "v_ring (ref_view entry_kernel) = []" "v_ring (ref_view first_submitted) = [?e]"
    "v_ring (ref_view second_cpu) = [?e]" "v_ring (ref_view both_submitted) = [?e, ?f]"
    "v_ring (ref_view second_counted) = [?e, ?f]"
    by (simp_all add: both_defs ref_view_def entry_kernel_def sample_kernel_def)
  have "?I [] {} [] entry_kernel Map.empty" by (rule cpu_run.none)
  from cpu_run.more [OF this cpu_step.fire, of "MemAlloc 0 512"]
  have "?I [] {} [] entry_kernel [0 \<mapsto> (?t, Invoked (MemAlloc 0 512))]" by (simp add: v notes_of_def)
  from cpu_run.more [OF this cpu_step.step [OF _ _ both_micro(1)]]
  have "?I [] {} [] entry_kernel [0 \<mapsto> (?t, Submit 42 ?e)]" by (simp add: v notes_of_def)
  from cpu_run.more [OF this cpu_step.step [OF _ _ both_micro(2)]]
  have "?I [?e] {} [] first_submitted [0 \<mapsto> (?t, CountLookup 42 UPROBE_HIT)]" by (simp add: v notes_of_def)
  from cpu_run.more [OF this cpu_step.switch [where view = ref_view and kinv = ref_inv, OF both_inv(3)]]
  have "?I [?e] {} [] second_cpu [0 \<mapsto> (?t, CountLookup 42 UPROBE_HIT)]"
    by (simp add: switched_def ref_view_def second_cpu_def notes_of_def)
  from cpu_run.more [OF this cpu_step.fire, of "MemAlloc 0 256"]
  have "?I [?e] {} [] second_cpu [0 \<mapsto> (?t, CountLookup 42 UPROBE_HIT), 1 \<mapsto> (?u, Invoked (MemAlloc 0 256))]"
    by (simp add: v notes_of_def)
  from cpu_run.more [OF this cpu_step.step [OF _ _ both_micro(3)]]
  have "?I [?e] {} [] second_cpu [0 \<mapsto> (?t, CountLookup 42 UPROBE_HIT), 1 \<mapsto> (?u, Submit 42 ?f)]" by (simp add: v notes_of_def)
  from cpu_run.more [OF this cpu_step.step [OF _ _ both_micro(4)]]
  have "?I [?e, ?f] {} [] both_submitted
      [0 \<mapsto> (?t, CountLookup 42 UPROBE_HIT), 1 \<mapsto> (?u, CountLookup 42 UPROBE_HIT)]" by (simp add: v notes_of_def)
  from cpu_run.more [OF this cpu_step.step [OF _ _ both_micro(5)]]
  have "?I [?e, ?f] {} [] both_submitted
      [0 \<mapsto> (?t, CountLookup 42 UPROBE_HIT), 1 \<mapsto> (?u, CountAdd UPROBE_HIT (42, 1))]" by (simp add: v notes_of_def)
  from cpu_run.more [OF this cpu_step.step [OF _ _ both_micro(6)]] show ?thesis by (simp add: v notes_of_def)
qed

lemma two_cpus:
  "interleaved reference_kernel sample_offsets ref_inv ref_view entry_kernel
     [record_on 512 entry_kernel, record_on 256 second_cpu] {} second_counted
     [0 \<mapsto> (42 * 2 ^ 32 + 43, CountLookup 42 UPROBE_HIT), 1 \<mapsto> (42 * 2 ^ 32 + 44, Finished 0)]"
  using interleaved_run [OF two_cpus_run interleaved.boot [where kinv = ref_inv, OF both_inv(1)]] by simp

lemma entry_sys_inv: "sys_inv (ref_view entry_kernel)"
proof -
  have "stamped 1000 [zero_watchdog\<lparr>first_seen_time := 900\<rparr>, zero_watchdog]"
    unfolding stamped_def by (rule exI [of _ 0]) (auto simp: zero_watchdog_def intro: exI [of _ "900 :: u64"])
  then show ?thesis by (simp add: sys_inv_def entry_view)
qed

lemma two_owed:
  "owed_hits UPROBE_HIT 2 42 [0 \<mapsto> (42 * 2 ^ 32 + 43, CountLookup 42 UPROBE_HIT), 1 \<mapsto> (42 * 2 ^ 32 + 44, Finished 0)] = 1"
  by (simp add: owed_hits_def numeral_2_eq_2)

lemma two_records: "records_of 42 [record_on 512 entry_kernel, record_on 256 second_cpu] = 2"
  using record_on_ok [OF both_inv(1)] record_on_ok [OF both_inv(3)] by (simp add: records_of_def)

section \<open>Properties\<close>

text \<open>
  Programs on several CPUs, interleaved at every access to shared state: in every state they reach, all
  unread records decode to sensible events, and for every process that had an entry and none of whose threads
  exited, the hits counted and the hits the running programs still have to count are together exactly the
  records submitted for it.
\<close>

lemma interleaved_hits_account:
  assumes "bpf_concurrent H kinv view" and "interleaved H R kinv view s log ex s' P" and "sys_inv (view s)"
  shows "sys_inv (view s') \<and>
    (\<forall>pid. v_watchdog (view s) pid \<noteq> None \<and> pid \<notin> ex \<longrightarrow>
      uprobe_total (view s') pid + of_nat (owed_hits UPROBE_HIT (v_ncpu (view s)) pid P) =
      uprobe_total (view s) pid + of_nat (records_of pid log))"
  using bpf_concurrent.interleaved_inv [OF assms] bpf_concurrent.interleaved_total [OF assms] by blast

lemma interleaved_hits_account_witness:
  "\<exists>log s' P. interleaved reference_kernel sample_offsets ref_inv ref_view entry_kernel log {} s' P \<and>
     records_of 42 log = 2 \<and> owed_hits UPROBE_HIT 2 42 P = 1 \<and> uprobe_total (ref_view s') 42 + 1 = 2"
proof -
  let ?log = "[record_on 512 entry_kernel, record_on 256 second_cpu]"
  let ?P = "[0 \<mapsto> (42 * 2 ^ 32 + 43, CountLookup 42 UPROBE_HIT), 1 \<mapsto> (42 * 2 ^ 32 + 44, Finished 0)]"
  note two_records two_owed
  moreover have "uprobe_total (ref_view second_counted) 42 + of_nat (owed_hits UPROBE_HIT 2 42 ?P) =
    uprobe_total (ref_view entry_kernel) 42 + of_nat (records_of 42 ?log)"
    using interleaved_hits_account [OF ck.bpf_concurrent_axioms two_cpus entry_sys_inv] by (simp add: entry_view)
  moreover have "uprobe_total (ref_view entry_kernel) 42 = 0"
    by (simp add: entry_view uprobe_total_def zero_watchdog_def)
  ultimately have "records_of 42 ?log = 2 \<and> owed_hits UPROBE_HIT 2 42 ?P = 1 \<and>
    uprobe_total (ref_view second_counted) 42 + 1 = 2" by simp
  with two_cpus show ?thesis by blast
qed

text \<open>
  The executions of the atomic programs are executions of the interleaved ones that end with every CPU
  idle, so that what holds of every interleaving holds of them.
\<close>

lemma atomic_executions_interleave:
  assumes "bpf_concurrent H kinv view" and "kexec H R kinv view s log ex s'" and "sys_inv (view s)"
  shows "interleaved H R kinv view s log ex s' Map.empty"
  by (rule bpf_concurrent.kexec_interleaved [OF assms])

end
