(* ===== verification/Concurrent_System.thy ===== *)
theory Concurrent_System
  imports Whole_System Probe_Interleaving "HOL-Library.Multiset"
begin

text \<open>
  The whole system with nothing atomic but single accesses: the programs of several CPUs interleave at every access
  to shared state (Probe_Interleaving), the goroutines at every channel operation (Agent), and both with each other.
  The executions of Whole\_System, in which a program runs in one piece, are among these.
\<close>

declare split_paired_All [simp del]
declare split_paired_Ex [simp del]

section \<open>Executions\<close>

inductive concurrent ::
  "'k bpf \<Rightarrow> core_offsets \<Rightarrow> ('k \<Rightarrow> bool) \<Rightarrow> ('k \<Rightarrow> kview) \<Rightarrow> (bytes \<Rightarrow> bytes) \<Rightarrow> topology \<Rightarrow> 'k \<Rightarrow> agent \<Rightarrow>
    bytes list \<Rightarrow> u32 set \<Rightarrow> action list \<Rightarrow> 'k \<Rightarrow> cpus \<Rightarrow> agent \<Rightarrow> bool"
  for H R kinv view b2s topo k0 a0 where
  boot: "kinv k0 \<Longrightarrow> concurrent H R kinv view b2s topo k0 a0 [] {} [] k0 Map.empty a0"
| cpu: "concurrent H R kinv view b2s topo k0 a0 recs ex as k P a \<Longrightarrow> cpu_step H R kinv view k P new gone k' P' \<Longrightarrow>
    concurrent H R kinv view b2s topo k0 a0 (recs @ new) (ex \<union> gone) as k' P' a"
| read: "concurrent H R kinv view b2s topo k0 a0 recs ex as k P a \<Longrightarrow> kinv k' \<Longrightarrow> v_ring (view k) = xs @ e # ys \<Longrightarrow>
    view k' = (view k)\<lparr>v_ring := xs @ ys\<rparr> \<Longrightarrow> agent_step b2s topo (Turn 0 (ReadRecord e)) a = Some a' \<Longrightarrow>
    concurrent H R kinv view b2s topo k0 a0 recs ex (as @ [Turn 0 (ReadRecord e)]) k' P a'"
| agent: "concurrent H R kinv view b2s topo k0 a0 recs ex as k P a \<Longrightarrow> (\<And>l e. x \<noteq> Turn l (ReadRecord e)) \<Longrightarrow>
    agent_step b2s topo x a = Some a' \<Longrightarrow> concurrent H R kinv view b2s topo k0 a0 recs ex (as @ [x]) k P a'"

text \<open>Each half alone.\<close>

lemma concurrent_interleaved:
  "concurrent H R kinv view b2s topo k0 a0 recs ex as k P a \<Longrightarrow> interleaved H R kinv view k0 recs ex k P"
  by (induction rule: concurrent.induct) (blast intro: interleaved.intros)+

lemma concurrent_runs:
  "concurrent H R kinv view b2s topo k0 a0 recs ex as k P a \<Longrightarrow> runs b2s topo a0 as a"
  by (induction rule: concurrent.induct) (blast intro: step_runs.intros)+

lemma concurrent_run:
  assumes "cpu_run H R kinv view k P new gone noted k' P'" and "concurrent H R kinv view b2s topo k0 a0 recs ex as k P a"
  shows "concurrent H R kinv view b2s topo k0 a0 (recs @ new) (ex \<union> gone) as k' P' a"
  using assms
proof (induction rule: cpu_run.induct)
  case (more new gone noted k1 P1 new' gone' k2 P2)
  from concurrent.cpu [OF more.IH [OF more.prems] more(2)] show ?case by (simp add: Un_assoc)
qed simp

section \<open>Records\<close>

lemma records_of_mset: "mset xs = mset ys \<Longrightarrow> records_of p xs = records_of p ys"
  unfolding records_of_def by (metis mset_filter size_mset)

context bpf_concurrent
begin

text \<open>The reader takes what the programs submit, in whatever order the ring buffer yields it.\<close>

lemma concurrent_ring:
  assumes "concurrent H R kinv view b2s topo k0 a0 recs ex as k P a" and "sys_inv (view k0)"
  shows "mset (v_ring (view k0) @ recs) = mset (consumed as @ v_ring (view k))"
  using assms(1)
proof (induction rule: concurrent.induct)
  case (cpu recs ex as k P a new gone k' P')
  have "kinv k" "sys_inv (view k)" "cpus_ok (view k) P"
    using interleaved_inv [OF concurrent_interleaved [OF cpu(1)] assms(2)] by auto
  from cpu_step_inv [OF cpu(2) this] cpu.IH show ?case by simp
qed simp_all

lemma concurrent_consumed_good:
  assumes "concurrent H R kinv view b2s topo k0 a0 recs ex as k P a" and "sys_inv (view k0)"
  shows "\<forall>e \<in> set (consumed as). good_record e"
  using assms(1)
proof (induction rule: concurrent.induct)
  case (read recs ex as k P a k' xs e ys a')
  have "sys_inv (view k)" using interleaved_inv [OF concurrent_interleaved [OF read(1)] assms(2)] by auto
  then have "good_record e" using read(3) by (auto simp: sys_inv_def)
  then show ?case using read.IH by simp
qed simp_all

text \<open>Programs in one piece are programs whose steps happen to follow each other.\<close>

lemma system_concurrent:
  assumes "system H R kinv view b2s topo k0 a0 recs ex as k a" and inv: "sys_inv (view k0)"
  shows "concurrent H R kinv view b2s topo k0 a0 recs ex as k Map.empty a"
  using assms(1)
proof (induction rule: system.induct)
  case boot
  then show ?case by (rule concurrent.boot)
next
  case (probe recs ex as k a call r k')
  have "kinv k" "sys_inv (view k)" using kexec_inv [OF system_kexec [OF probe(1)] inv] by auto
  then obtain noted where "cpu_run H R kinv view k Map.empty (drop (length (v_ring (view k))) (v_ring (view k'))) {} noted k' Map.empty"
    using probe_run probe(2,3) by blast
  from concurrent_run [OF this probe.IH] show ?case by simp
next
  case (exit recs ex as k a r k')
  obtain noted where "cpu_run H R kinv view k Map.empty [] {tgid_of (v_pid_tgid (view k))} noted k' Map.empty"
    using exit_run [OF kexec_kinv [OF system_kexec [OF exit(1)]] exit(2)] by blast
  from concurrent_run [OF this exit.IH] show ?case by simp
next
  case (switch recs ex as k a k')
  from concurrent.cpu [OF switch.IH cpu_step.switch [where view = view and kinv = kinv, OF switch(2,3)]]
  show ?case by simp
next
  case (read recs ex as k a e k' a')
  have "kinv k" using kexec_kinv [OF system_kexec [OF read(1)]] .
  from ringbuf_read [OF this read(2)] read show ?case
    by (auto intro: concurrent.read [of _ _ _ _ _ _ _ _ _ _ _ k _ _ _ "[]"])
next
  case (agent recs ex as k a x a')
  from concurrent.agent [OF agent.IH agent(2,3)] show ?case .
qed

end

section \<open>Properties\<close>

text \<open>
  With the programs of all CPUs and all goroutines interleaved at single accesses, for every collector and
  process, the events sent, queued, in flight, pending and being handed round, with the records not yet read, are
  exactly the records submitted for the process; and for a process that had an entry in the watchdog map and none
  of whose threads exited, so are the hits counted since, with those running programs have still to count.
\<close>

lemma concurrent_conserves:
  assumes "bpf_concurrent H kinv view"
    and "concurrent H R kinv view b2s [length cs] k0 (start_agent [cs]) recs ex as k P a"
    and "sys_inv (view k0)" and "v_ring (view k0) = []" and "\<forall>c \<in> set cs. fresh_collector c"
    and "\<forall>i < length cs. ticks_fit (collector_Update b2s) collector_Flush collector_fits (lane_ops (0, i) as) (cs ! i)"
  shows "(\<exists>ts pt. map snd ts = handed a @ eventCh a \<and> (\<forall>i < length cs. \<forall>p.
      batches_events p (of_lane (0, i) ts) + batches_events p (pipe a pt (0, i)) +
        collector_pending p (collector a (0, i)) + of_nat (events_count p (owed i (reader a 0))) +
        of_nat (records_of p (v_ring (view k))) =
      of_nat (records_of p recs))) \<and>
    (\<forall>p. v_watchdog (view k0) p \<noteq> None \<and> p \<notin> ex \<longrightarrow>
      uprobe_total (view k) p + of_nat (owed_hits UPROBE_HIT (v_ncpu (view k0)) p P) =
      uprobe_total (view k0) p + of_nat (records_of p recs))"
proof
  note run = concurrent_runs [OF assms(2)]
  obtain ts pt where tr: "traced a (\<lambda>x. fst (lane_run b2s x as (start_agent [cs]))) ts pt"
    using runs_traced [OF run] by blast
  have "records_of p recs = records_of p (consumed as @ v_ring (view k))" for p
    using bpf_concurrent.concurrent_ring [OF assms(1-3)] assms(4)
    by (intro records_of_mset) simp
  moreover have "events_count p (dispatched 0 as) = records_of p (consumed as)" for p
    using bpf_concurrent.concurrent_consumed_good [OF assms(1-3)] runs_in_range [OF run]
    by (rule dispatched_records)
  moreover have "batches_events p (of_lane (0, i) ts) + batches_events p (pipe a pt (0, i)) +
      collector_pending p (collector a (0, i)) + of_nat (events_count p (owed i (reader a 0))) =
    of_nat (events_count p (dispatched 0 as))" if i: "i < length cs" for i p
  proof -
    have x: "(0, i) \<in> lanes [length cs]" using i by (simp add: lanes_def)
    have "fresh_collector (cs ! i)" using assms(5) i by simp
    with lane_conserves [OF run x _ _ _ tr] fresh_collector assms(6) i show ?thesis by simp
  qed
  ultimately show "\<exists>ts pt. map snd ts = handed a @ eventCh a \<and> (\<forall>i < length cs. \<forall>p.
      batches_events p (of_lane (0, i) ts) + batches_events p (pipe a pt (0, i)) +
        collector_pending p (collector a (0, i)) + of_nat (events_count p (owed i (reader a 0))) +
        of_nat (records_of p (v_ring (view k))) =
      of_nat (records_of p recs))"
    using tr by (intro exI [of _ ts] exI [of _ pt]) (simp add: traced_def)
  show "\<forall>p. v_watchdog (view k0) p \<noteq> None \<and> p \<notin> ex \<longrightarrow>
      uprobe_total (view k) p + of_nat (owed_hits UPROBE_HIT (v_ncpu (view k0)) p P) =
      uprobe_total (view k0) p + of_nat (records_of p recs)"
    using bpf_concurrent.interleaved_total [OF assms(1) concurrent_interleaved [OF assms(2)] assms(3)] by blast
qed

text \<open>
  Two CPUs have submitted a record of process 42 each, one of them has not counted its own; the loader has read
  the later record and handed it to its collector.
\<close>

abbreviation taken :: "gpu_collector_state list \<Rightarrow> gpu_event \<Rightarrow> agent" where
  "taken cs ev \<equiv> (start_agent [cs])\<lparr>reader := (reader (start_agent [cs]))(0 := Handing ev 0)\<rparr>"

lemma two_cpus_taken:
  assumes "cs \<noteq> []"
  obtains ev where
    "concurrent reference_kernel sample_offsets ref_inv ref_view b2s [length cs] entry_kernel (start_agent [cs])
       [record_on 512 entry_kernel, record_on 256 second_cpu] {} [Enter 0, Turn 0 (ReadRecord (record_on 256 second_cpu))]
       (second_counted\<lparr>k_ring := [record_on 512 entry_kernel]\<rparr>)
       [0 \<mapsto> (42 * 2 ^ 32 + 43, CountLookup 42 UPROBE_HIT), 1 \<mapsto> (42 * 2 ^ 32 + 44, Finished 0)] (taken cs ev)"
    "handle_record (record_on 256 second_cpu) = Dispatch ev"
proof -
  let ?e = "record_on 512 entry_kernel" and ?f = "record_on 256 second_cpu"
  let ?C = "concurrent reference_kernel sample_offsets ref_inv ref_view b2s [length cs] entry_kernel
    (start_agent [cs]) [?e, ?f] {}"
  let ?P = "[0 \<mapsto> (42 * 2 ^ 32 + 43, CountLookup 42 UPROBE_HIT), 1 \<mapsto> (42 * 2 ^ 32 + 44, Finished 0)]"
  obtain ev where ev: "handle_record ?f = Dispatch ev"
    using record_on_ok [OF both_inv(3)] by (auto simp: good_record_def)
  let ?a0 = "start_agent [cs]" and ?k = "second_counted\<lparr>k_ring := [?e]\<rparr>"
  let ?a1 = "?a0\<lparr>reader := (reader ?a0)(0 := ReaderReading)\<rparr>"
  have k: "ref_inv ?k" "v_ring (ref_view second_counted) = [?e] @ ?f # []"
    "ref_view ?k = (ref_view second_counted)\<lparr>v_ring := [?e] @ []\<rparr>"
    by (simp_all add: both_defs ref_inv_def ref_view_def entry_kernel_def sample_kernel_def)
  have "?C [] second_counted ?P ?a0"
    using concurrent_run [OF two_cpus_run concurrent.boot [where kinv = ref_inv, OF both_inv(1)]] by simp
  from concurrent.agent [OF this, of "Enter 0" ?a1] have "?C [Enter 0] second_counted ?P ?a1"
    by (simp add: agent_step_def in_range_def act_defs start_agent_def)
  from concurrent.read [OF this k, of "taken cs ev"] have "?C [Enter 0, Turn 0 (ReadRecord ?f)] ?k ?P (taken cs ev)"
    using assms by (simp add: agent_step_def in_range_def act_defs ev handing_def)
  from that [OF this ev] show thesis .
qed

lemma two_cpus_read:
  obtains a ev where
    "concurrent reference_kernel sample_offsets ref_inv ref_view (\<lambda>c. c) [1] entry_kernel (start_agent [[c]])
       [record_on 512 entry_kernel, record_on 256 second_cpu] {} (sample_actions (record_on 256 second_cpu) ev)
       (second_counted\<lparr>k_ring := [record_on 512 entry_kernel]\<rparr>)
       [0 \<mapsto> (42 * 2 ^ 32 + 43, CountLookup 42 UPROBE_HIT), 1 \<mapsto> (42 * 2 ^ 32 + 44, Finished 0)] a"
    "reader a 0 = ReaderSelect" "\<And>pt. pipe a pt (0, 0) = []" "handed a = []" "eventCh a = []"
proof (rule two_cpus_taken [of "[c]" "\<lambda>c. c"])
  let ?f = "record_on 256 second_cpu"
  let ?C = "concurrent reference_kernel sample_offsets ref_inv ref_view (\<lambda>c. c) [length [c]] entry_kernel
    (start_agent [[c]]) [record_on 512 entry_kernel, ?f] {}"
  let ?P = "[0 \<mapsto> (42 * 2 ^ 32 + 43, CountLookup 42 UPROBE_HIT), 1 \<mapsto> (42 * 2 ^ 32 + 44, Finished 0)]"
  fix ev
  let ?k = "second_counted\<lparr>k_ring := [record_on 512 entry_kernel]\<rparr>"
  let ?a = "(taken [c] ev)\<lparr>collector := (collector (taken [c] ev))((0, 0) := collector_Update (\<lambda>c. c) 7 ev c),
    reader := (reader (taken [c] ev))(0 := ReaderSelect)\<rparr>"
  assume "?C [Enter 0, Turn 0 (ReadRecord ?f)] ?k ?P (taken [c] ev)"
  from concurrent.agent [OF this, of "Deliver (0, 0) 7 ev" ?a] have "?C (sample_actions ?f ev) ?k ?P ?a"
    by (simp add: agent_step_def in_range_def lanes_def act_defs handing_def)
  then show thesis by (intro that [of ev ?a]) (simp_all add: start_agent_def pipe_def)
qed simp

lemma concurrent_conserves_witness:
  "\<exists>recs as k P a. concurrent reference_kernel sample_offsets ref_inv ref_view (\<lambda>c. c) [1] entry_kernel
      (start_agent [[Series (NewTimeSeriesCollector 5)]]) recs {} as k P a \<and>
    records_of 42 recs = 2 \<and> records_of 42 (v_ring (ref_view k)) = 1 \<and> collector_pending 42 (collector a (0, 0)) = 1 \<and>
    uprobe_total (ref_view k) 42 = 1 \<and> owed_hits UPROBE_HIT 2 42 P = 1"
proof (rule two_cpus_read [of "Series (NewTimeSeriesCollector 5)"])
  fix a ev
  let ?e = "record_on 512 entry_kernel" and ?f = "record_on 256 second_cpu" and ?as = "sample_actions (record_on 256 second_cpu) ev"
  let ?k = "second_counted\<lparr>k_ring := [?e]\<rparr>" and ?cs = "[Series (NewTimeSeriesCollector 5)]"
  let ?P = "[0 \<mapsto> (42 * 2 ^ 32 + 43, CountLookup 42 UPROBE_HIT), 1 \<mapsto> (42 * 2 ^ 32 + 44, Finished 0)]"
  assume s: "concurrent reference_kernel sample_offsets ref_inv ref_view (\<lambda>c. c) [1] entry_kernel
      (start_agent [?cs]) [?e, ?f] {} ?as ?k ?P a"
    and a: "reader a 0 = ReaderSelect" "\<And>pt. pipe a pt (0, 0) = []" "handed a = []" "eventCh a = []"
  have "v_ring (ref_view entry_kernel) = []" by (simp add: entry_view)
  moreover have "\<forall>c \<in> set ?cs. fresh_collector c" by (simp add: fresh_collector_def NewTimeSeriesCollector_def)
  moreover have "\<forall>i < length ?cs. ticks_fit (collector_Update (\<lambda>c. c)) collector_Flush collector_fits
      (lane_ops (0, i) ?as) (?cs ! i)" by (simp add: lane_ops_def)
  ultimately obtain ts pt where ts: "map snd ts = handed a @ eventCh a" and
    acc: "\<forall>i < length ?cs. \<forall>p. batches_events p (of_lane (0, i) ts) + batches_events p (pipe a pt (0, i)) +
      collector_pending p (collector a (0, i)) + of_nat (events_count p (owed i (reader a 0))) +
      of_nat (records_of p (v_ring (ref_view ?k))) = of_nat (records_of p [?e, ?f])" and
    hits: "uprobe_total (ref_view ?k) 42 + of_nat (owed_hits UPROBE_HIT 2 42 ?P) =
      uprobe_total (ref_view entry_kernel) 42 + of_nat (records_of 42 [?e, ?f])"
    using concurrent_conserves [OF ck.bpf_concurrent_axioms, of sample_offsets "\<lambda>c. c" ?cs entry_kernel "[?e, ?f]" "{}"
        ?as ?k ?P a] s entry_sys_inv
    by (auto simp: entry_view)
  have one: "v_ring (ref_view ?k) = [?e]" by (simp add: ref_view_def)
  have "records_of 42 [?e] = 1" using record_on_ok [OF both_inv(1)] by (simp add: records_of_def)
  moreover from this have "collector_pending 42 (collector a (0, 0)) = 1"
    using acc [THEN spec, of 0, THEN mp, THEN spec, of 42] a ts one two_records
    by (simp add: batches_events_def events_count_def)
  moreover have "uprobe_total (ref_view ?k) 42 = 1"
    using hits two_owed two_records by (simp add: entry_view uprobe_total_def zero_watchdog_def)
  ultimately show ?thesis using s two_owed two_records one
    by (intro exI [of _ "[?e, ?f]"] exI [of _ ?as] exI [of _ ?k] exI [of _ ?P] exI [of _ a]) simp
qed

declare split_paired_All [simp]
declare split_paired_Ex [simp]

end
