(* ===== verification/Driver_Calls.thy ===== *)
theory Driver_Calls
  imports Loader
begin

text \<open>
  What the collectors are to make of a call of the CUDA driver. \<open>activity\<close> is the part of an event the exact
  statistics depend on, \<open>usage\<close> that part of a window's statistics; a probe that submits a record for a call makes
  the aggregator account for the call's activity and the time series report it.
\<close>

section \<open>Activities\<close>

datatype activity =
    Launched u64
  | Allocated u64
  | CopiedToDevice u64
  | CopiedFromDevice u64
  | Synchronised u64

text \<open>
  The activity of a driver call. The third block dimension of a launch lies on the caller's stack; the duration
  of a synchronisation is measured by its two probes.
\<close>

fun does :: "probe_call \<Rightarrow> activity \<Rightarrow> bool" where
  "does (LaunchKernel sp f gx gy gz blx bly) a \<longleftrightarrow> (\<exists>blz. a = Launched (gx * gy * gz * (blx * bly * blz)))"
| "does (MemAlloc p n) a \<longleftrightarrow> a = Allocated n"
| "does (MemcpyHtoD d p n) a \<longleftrightarrow> a = CopiedToDevice n"
| "does (MemcpyDtoH d p n) a \<longleftrightarrow> a = CopiedFromDevice n"
| "does (MemcpyHtoDAsync d p n st) a \<longleftrightarrow> a = CopiedToDevice n"
| "does (MemcpyDtoHAsync d p n st) a \<longleftrightarrow> a = CopiedFromDevice n"
| "does StreamSyncRet a \<longleftrightarrow> (\<exists>d. a = Synchronised d)"
| "does CtxSyncRet a \<longleftrightarrow> (\<exists>d. a = Synchronised d)"
| "does call a \<longleftrightarrow> False"

fun activity_of :: "gpu_event \<Rightarrow> activity option" where
  "activity_of (KernelLaunchEvent e) = Some (Launched (TotalThreads e))"
| "activity_of (MemallocEvent e) = Some (Allocated (ByteSize e))"
| "activity_of (MemcpyEvent e) = Some
     (if uint (Kind e) = types_DIR_HTOD then CopiedToDevice (CopySize e) else CopiedFromDevice (CopySize e))"
| "activity_of (StreamEvent e) = Some (Synchronised (DeltaNs e))"
| "activity_of OtherEvent = None"

section \<open>Usage\<close>

text \<open>
  The exact statistics of a window: counts and sums on 64 bits, and maxima. Two usages add up to that of both, in
  either order, which makes the type a commutative monoid; the usage of several activities is the sum of theirs.
\<close>

datatype usage = Usage
  (launches_made: u64) (threads_launched: u64) (largest_launch: u64) (allocations: u64) (bytes_allocated: u64)
  (copies: u64) (bytes_copied: u64) (bytes_to_device: u64) (bytes_from_device: u64)
  (synchronisations: u64) (longest_wait: u64)

instantiation usage :: comm_monoid_add
begin

definition zero_usage :: usage where
  "zero_usage = Usage 0 0 0 0 0 0 0 0 0 0 0"

definition plus_usage :: "usage \<Rightarrow> usage \<Rightarrow> usage" where
  "plus_usage u v = Usage (launches_made u + launches_made v) (threads_launched u + threads_launched v)
     (max (largest_launch u) (largest_launch v)) (allocations u + allocations v)
     (bytes_allocated u + bytes_allocated v) (copies u + copies v) (bytes_copied u + bytes_copied v)
     (bytes_to_device u + bytes_to_device v) (bytes_from_device u + bytes_from_device v)
     (synchronisations u + synchronisations v) (max (longest_wait u) (longest_wait v))"

instance
  by standard (simp_all add: zero_usage_def plus_usage_def ac_simps max_absorb2)

end

lemmas usage_defs = zero_usage_def plus_usage_def

fun cost :: "activity \<Rightarrow> usage" where
  "cost (Launched n) = Usage 1 n n 0 0 0 0 0 0 0 0"
| "cost (Allocated n) = Usage 0 0 0 1 n 0 0 0 0 0 0"
| "cost (CopiedToDevice n) = Usage 0 0 0 0 0 1 n n 0 0 0"
| "cost (CopiedFromDevice n) = Usage 0 0 0 0 0 1 n 0 n 0 0"
| "cost (Synchronised d) = Usage 0 0 0 0 0 0 0 0 0 1 d"

definition usage_of :: "GPUFingerprint \<Rightarrow> usage" where
  "usage_of w = Usage (KernelLaunchCount w) (TotalThreadsLaunched w) (MaxThreadsPerKernel w) (MemAllocCount w)
     (TotalMemAllocBytes w) (MemcpyCount w) (TotalMemcpyBytes w) (HTODBytes w) (DTOHBytes w) (StreamSyncCount w)
     (MaxSyncTimeNs w)"

text \<open>The usage a message to the server reports, and that of an event.\<close>

fun payload_usage :: "payload \<Rightarrow> usage" where
  "payload_usage (Tw w) = Usage (tw_kernel_launch_count w) (tw_total_threads_launched w)
     (tw_max_threads_per_kernel w) (tw_mem_alloc_count w) (tw_total_mem_alloc_bytes w) (tw_memcpy_count w)
     (tw_total_memcpy_bytes w) (tw_htod_bytes w) (tw_dtoh_bytes w) (tw_stream_sync_count w) (tw_max_sync_time_ns w)"
| "payload_usage (Token tk) = 0"

definition event_usage :: "gpu_event \<Rightarrow> usage" where
  "event_usage ev = (case activity_of ev of None \<Rightarrow> 0 | Some a \<Rightarrow> cost a)"

fun activity_token :: "gotime \<Rightarrow> activity \<Rightarrow> GpuEventToken" where
  "activity_token now (Launched n) = \<lparr>tok_timestamp = UnixNano now, tok_event_type = 1, tok_value = f64_of n, tok_dir = 0\<rparr>"
| "activity_token now (Allocated n) = \<lparr>tok_timestamp = UnixNano now, tok_event_type = 2, tok_value = f64_of n, tok_dir = 0\<rparr>"
| "activity_token now (CopiedToDevice n) = \<lparr>tok_timestamp = UnixNano now, tok_event_type = 3, tok_value = f64_of n, tok_dir = 0\<rparr>"
| "activity_token now (CopiedFromDevice n) = \<lparr>tok_timestamp = UnixNano now, tok_event_type = 3, tok_value = f64_of n, tok_dir = 1\<rparr>"
| "activity_token now (Synchronised d) = \<lparr>tok_timestamp = UnixNano now, tok_event_type = 4, tok_value = f64_of d, tok_dir = 0\<rparr>"

section \<open>The collectors implement them\<close>

definition window_usage :: "u32 \<Rightarrow> GPUAggregator \<Rightarrow> usage" where
  "window_usage p ga = (case windows ga p of None \<Rightarrow> 0 | Some w \<Rightarrow> usage_of w)"

lemma absorb_usage: "event_pid ev = Some p \<Longrightarrow> usage_of (absorb ev w) = usage_of w + event_usage ev"
  by (cases ev) (auto simp: usage_of_def on_defs Let_def max_u64_max event_usage_def plus_usage_def)

lemma new_window_usage: "usage_of (new_window p c t t') = 0"
  by (simp add: usage_of_def zero_usage_def new_window_def)

lemma ga_Update_usage:
  "window_usage p (ga_Update b2s now ev ga) = window_usage p ga + (if event_pid ev = Some p then event_usage ev else 0)"
  by (auto simp: ga_Update_alt window_usage_def with_window_windows absorb_usage new_window_usage split: option.splits)

lemma window_event_usage [simp]: "payload_usage (ge_payload (window_event w)) = usage_of w"
  by (simp add: window_event_def finish_window_def time_window_def usage_of_def Let_def)

lemma windows_usage:
  assumes "ga_inv ga" "distinct ps" "set ps \<subseteq> dom (windows ga)"
  shows "messages payload_usage p (map (\<lambda>p. window_event (the (windows ga p))) ps) =
    (if p \<in> set ps then window_usage p ga else 0)"
  using assms(2,3)
proof (induction ps)
  case (Cons a ps)
  then obtain w where w: "windows ga a = Some w" by auto
  then have "PID w = a" using assms(1) by (auto simp: ga_inv_def window_ok_def)
  with Cons w show ?case by (auto simp: window_usage_def)
qed simp

lemma ga_Flush_usage:
  assumes "ga_inv ga" "iterates order (windows ga)"
  shows "(case fst (ga_Flush (now, order) ga) of None \<Rightarrow> 0 | Some b \<Rightarrow> messages payload_usage p (gb_batch b)) +
    window_usage p (snd (ga_Flush (now, order) ga)) = window_usage p ga"
proof -
  let ?ps = "filter (expired now (windows ga)) order"
  have "messages payload_usage p (map (\<lambda>p. window_event (the (windows ga p))) ?ps) =
    (if p \<in> set ?ps then window_usage p ga else 0)"
    using assms by (intro windows_usage) (auto simp: iterates_def)
  moreover have "p \<in> set order" if "expired now (windows ga) p"
    using that assms(2) by (auto simp: iterates_def expired_def split: option.splits)
  ultimately have "messages payload_usage p (map (\<lambda>p. window_event (the (windows ga p))) ?ps) =
    (if expired now (windows ga) p then window_usage p ga else 0)" by auto
  then show ?thesis unfolding ga_Flush_eq [OF assms(2)]
    by (cases "?ps = []") (auto simp: Let_def window_usage_def split: option.splits if_splits)
qed

text \<open>The aggregator keeps the usage of its events.\<close>

interpretation use: measured_collector "ga_Update b2s" ga_Flush window_usage ga_inv
    "\<lambda>(now, order) ga. iterates order (windows ga)" event_usage payload_usage
proof (unfold_locales, goal_cases)
  case (1 s t ev)
  then show ?case by (rule ga_Update_inv)
next
  case (2 s f)
  then show ?case by (cases f) (rule agg.flush_inv)
next
  case (3 s p t ev)
  show ?case by (rule ga_Update_usage)
next
  case (4 s f p)
  then show ?case by (cases f) (simp add: ga_Flush_usage)
qed

lemma tc_Update_token:
  "activity_of ev = Some a \<Longrightarrow> event_pid ev = Some p \<Longrightarrow>
    buffered (tc_Update b2s now ev tc) q =
      (if q = p then buffered tc p @ [activity_token now a] else buffered tc q)"
  by (cases ev) (auto simp: buffered_Update EventToToken_def types_consts Let_def split: if_splits)

section \<open>What the probes report\<close>

text \<open>A record that decodes to an event of the process with an activity of the call.\<close>

definition reports :: "probe_call \<Rightarrow> u32 \<Rightarrow> bytes \<Rightarrow> bool" where
  "reports call pid e \<longleftrightarrow> (\<exists>ev a. handle_record e = Dispatch ev \<and> event_pid ev = Some pid \<and>
     activity_of ev = Some a \<and> does call a)"

lemma reportsI:
  "handle_record e = Dispatch ev \<Longrightarrow> event_pid ev = Some pid \<Longrightarrow> activity_of ev = Some a \<Longrightarrow> does call a \<Longrightarrow>
    reports call pid e"
  by (auto simp: reports_def)

lemma record_reports:
  "launch_record pid c (gx, gy, gz) (blx, bly, blz) e \<Longrightarrow> reports (LaunchKernel sp f gx gy gz blx bly) pid e"
  "memalloc_record pid c n e \<Longrightarrow> reports (MemAlloc p n) pid e"
  "memcpy_record pid c n DIR_HTOD e \<Longrightarrow> reports (MemcpyHtoD d p n) pid e \<and> reports (MemcpyHtoDAsync d p n st) pid e"
  "memcpy_record pid c n DIR_DTOH e \<Longrightarrow> reports (MemcpyDtoH d p n) pid e \<and> reports (MemcpyDtoHAsync d p n st) pid e"
  "stream_record pid c t0 t1 e \<Longrightarrow> reports StreamSyncRet pid e \<and> reports CtxSyncRet pid e"
  by (auto dest!: launch_decodes memalloc_decodes memcpy_decodes stream_decodes intro!: reportsI
      simp: DIR_HTOD_def DIR_DTOH_def types_consts)

lemma submitted_ring: "submitted v pid e v' \<Longrightarrow> v_ring v' = v_ring v @ [e]"
  by (auto simp: submitted_def counted_def split: option.splits)

context bpf_runtime
begin

lemma ioctl_ring:
  assumes inv: "kinv s" and run: "watchdog_ioctl H R fd s = (r, s')"
  shows "v_ring (view s') = v_ring (view s)"
proof -
  obtain t s1 where k: "ktime_get_ns H s = (t, s1)" by fastforce
  note k1 = ktime [OF inv k]
  obtain r1 s2 where a: "add_to_counter H (tgid_of (v_pid_tgid (view s))) IOCTL_HIT s1 = (r1, s2)" by fastforce
  have "s' = s1 \<or> s' = s2"
    using run by (auto simp: watchdog_ioctl_def k a pid_tgid [OF inv] Let_def split: if_splits)
  moreover have "v_ring (view s2) = v_ring (view s1)"
    using add_to_counter_counted [OF conjunct1 [OF k1] a] by (auto simp: counted_def split: option.splits)
  ultimately show ?thesis using k1 by auto
qed

lemma sync_ret_reports:
  assumes "kinv s" and "handle_cuStreamSynchronize_ret H s = (r, s')" and "v_ring (view s') \<noteq> v_ring (view s)"
  shows "\<exists>e. v_ring (view s') = v_ring (view s) @ [e] \<and> reports StreamSyncRet (tgid_of (v_pid_tgid (view s))) e \<and>
    reports CtxSyncRet (tgid_of (v_pid_tgid (view s))) e"
  using handle_cuStreamSynchronize_ret_spec [OF assms(1,2)] assms(3)
  by (auto split: option.splits dest!: submitted_ring record_reports(5))

lemma call_reports:
  assumes inv: "kinv s" and run: "run_probe H R call s = (r, s')" and grows: "v_ring (view s') \<noteq> v_ring (view s)"
  shows "\<exists>e. v_ring (view s') = v_ring (view s) @ [e] \<and> reports call (tgid_of (v_pid_tgid (view s))) e"
proof (cases call)
  case (LaunchKernel sp f gx gy gz blx bly)
  with run handle_cuLaunchkernel_spec [OF inv, of sp f gx gy gz blx bly r s'] grows show ?thesis
    by (auto split: option.splits dest!: submitted_ring record_reports(1))
next
  case (MemAlloc p n)
  with run handle_cuMemAlloc_spec [OF inv, of p n r s'] grows show ?thesis
    by (auto split: option.splits dest!: submitted_ring record_reports(2))
next
  case (MemcpyHtoD d p n)
  with run handle_cuMemcpy_htod_spec [OF inv, of d p n r s'] grows show ?thesis
    by (auto split: option.splits dest!: submitted_ring record_reports(3))
next
  case (MemcpyHtoDAsync d p n st)
  with run handle_cuMemcpy_htod_spec [OF inv, of d p n r s'] grows show ?thesis
    by (auto simp: memcpy_async_same split: option.splits dest!: submitted_ring record_reports(3))
next
  case (MemcpyDtoH d p n)
  with run handle_cuMemcpy_dtoh_spec [OF inv, of d p n r s'] grows show ?thesis
    by (auto split: option.splits dest!: submitted_ring record_reports(4))
next
  case (MemcpyDtoHAsync d p n st)
  with run handle_cuMemcpy_dtoh_spec [OF inv, of d p n r s'] grows show ?thesis
    by (auto simp: memcpy_async_same split: option.splits dest!: submitted_ring record_reports(4))
next
  case StreamSyncRet
  with run grows sync_ret_reports [OF inv, of r s'] show ?thesis by auto
next
  case CtxSyncRet
  with run grows sync_ret_reports [OF inv, of r s'] show ?thesis
    by (auto simp: ctx_sync_same(2))
next
  case (StreamSync st)
  with run grows handle_cuStreamSync_spec [OF inv, of st r s'] show ?thesis by auto
next
  case CtxSync
  with run grows handle_cuStreamSync_spec [OF inv, of 0 r s'] show ?thesis by (auto simp: ctx_sync_same(1) [of H 0])
next
  case (Ioctl fd)
  with run grows ioctl_ring [OF inv, of R fd r s'] show ?thesis by simp
next
  case ProcessExit
  with run grows handle_process_exit_spec [OF inv, of r s'] show ?thesis by auto
qed

end

text \<open>A ring buffer without a slot for any of the four events.\<close>

definition ring_full :: "'k bpf \<Rightarrow> 'k \<Rightarrow> bool" where
  "ring_full H s \<longleftrightarrow> (\<forall>T \<in> {gpu_kernel_launch_event_t, gpu_memalloc_event_t, gpu_memcpy_event_t, gpu_stream_event_t}.
     ringbuf_reserve H (sizeof T) s = None)"

text \<open>On a full ring buffer, the entry probes of the synchronisations note their time and the others do nothing at all.\<close>

fun notes_start :: "probe_call \<Rightarrow> bool" where
  "notes_start (StreamSync st) = True"
| "notes_start CtxSync = True"
| "notes_start call = False"

lemma full_ring_call:
  assumes "ring_full H s" and "\<not> notes_start call" and "call \<notin> insert ProcessExit (range Ioctl)"
  shows "run_probe H R call s = (0, s)"
  using assms
  by (cases call) (simp_all add: ring_full_def handle_cuLaunchkernel_def handle_cuMemAlloc_def handle_cuMemcpy_htod_def
      handle_cuMemcpy_dtoh_def handle_cuMemcpy_htod_async_def handle_cuMemcpy_dtohAsync_def
      handle_cuStreamSynchronize_ret_def handle_cuCtxSync_ret_def Let_def split: option.split)

section \<open>Properties\<close>

text \<open>
  C6: From the driver call to the collectors, for every probe: a call that gets a record into the ring buffer gets
  exactly one, the loader decodes it, and handing it to the collectors adds the call's activity (threads launched,
  bytes allocated or copied with their direction, time waited) to the calling process's window, starting from
  nothing if there is none, appends the matching token to its time series, and touches no other process.
\<close>

lemma driver_calls_reach_collectors:
  assumes "bpf_runtime H kinv view" and "kinv s" and "run_probe H R call s = (r, s')"
    and "v_ring (view s') \<noteq> v_ring (view s)"
  shows "let pid = ucast (drop_bit 32 (v_pid_tgid (view s))) in
    \<exists>e a ga' tc'. v_ring (view s') = v_ring (view s) @ [e] \<and> does call a \<and>
      loader_loop b2s [(ReadRecord e, [t1, t2])] [Fingerprint ga, Series tc] = [Fingerprint ga', Series tc'] \<and>
      (\<forall>p. window_usage p ga' = (if p = pid then window_usage pid ga + cost a else window_usage p ga)) \<and>
      (\<forall>p. buffered tc' p = (if p = pid then buffered tc pid @ [activity_token t2 a] else buffered tc p))"
proof -
  let ?pid = "ucast (drop_bit 32 (v_pid_tgid (view s))) :: u32"
  obtain e ev a where e: "v_ring (view s') = v_ring (view s) @ [e]" "handle_record e = Dispatch ev"
    and a: "activity_of ev = Some a" "event_pid ev = Some ?pid" "does call a"
    using bpf_runtime.call_reports [OF assms] by (auto simp: reports_def)
  have "loader_loop b2s [(ReadRecord e, [t1, t2])] [Fingerprint ga, Series tc] =
    [Fingerprint (ga_Update b2s t1 ev ga), Series (tc_Update b2s t2 ev tc)]"
    by (simp add: e(2) sendToCollectors_def)
  moreover have "window_usage p (ga_Update b2s t1 ev ga) =
    (if p = ?pid then window_usage ?pid ga + cost a else window_usage p ga)" for p
    using a by (simp add: ga_Update_usage event_usage_def)
  ultimately show ?thesis using e(1) a(3) tc_Update_token [OF a(1,2)] unfolding Let_def by blast
qed

lemma driver_calls_reach_collectors_witness:
  "\<exists>r s' e ga' tc'. run_probe reference_kernel sample_offsets (MemcpyDtoHAsync 1 2 4096 3) sample_kernel = (r, s') \<and>
     k_ring s' = [e] \<and>
     loader_loop (\<lambda>c. c) [(ReadRecord e, [5, 6])] [Fingerprint (NewGPUAggregator 0 10), Series (NewTimeSeriesCollector 5)] =
       [Fingerprint ga', Series tc'] \<and>
     bytes_from_device (window_usage 42 ga') = 4096 \<and> copies (window_usage 42 ga') = 1 \<and>
     buffered tc' 42 = [\<lparr>tok_timestamp = 6, tok_event_type = 3, tok_value = f64_of 4096, tok_dir = 1\<rparr>]"
proof -
  obtain r s' where run: "run_probe reference_kernel sample_offsets (MemcpyDtoHAsync 1 2 4096 3) sample_kernel = (r, s')"
    by fastforce
  have "ringbuf_reserve reference_kernel (sizeof gpu_memcpy_event_t) sample_kernel =
    Some (replicate 176 0xAA, sample_kernel)" by (simp add: event_layout sample_reserve)
  with rk.handle_cuMemcpy_dtoh_spec [OF sample_inv, of 1 2 4096 r s'] run
  have grows: "v_ring (ref_view s') \<noteq> v_ring (ref_view sample_kernel)"
    by (auto simp: memcpy_async_same dest!: submitted_ring)
  from driver_calls_reach_collectors [OF rk.bpf_runtime_axioms sample_inv run grows, of "\<lambda>c. c" 5 6
      "NewGPUAggregator 0 10" "NewTimeSeriesCollector 5"] run
  show ?thesis
    by (auto simp: sample_view Let_def ref_view_def sample_kernel_def window_usage_def usage_defs
        NewGPUAggregator_def NewTimeSeriesCollector_def buffered_def)
qed

section \<open>A full ring buffer\<close>

definition full_kernel :: kstate where
  "full_kernel = sample_kernel\<lparr>k_ring := replicate 1489 (replicate 168 0)\<rparr>"

lemma full_inv [simp]: "ref_inv full_kernel"
  by (simp add: full_kernel_def ref_inv_def sample_kernel_def)

lemma full_ring: "ring_full reference_kernel full_kernel"
  unfolding ring_full_def
  by (simp add: event_layout reference_kernel_def ref_ringbuf_reserve_def full_kernel_def ring_used_def record_cost_def
      align_up_def gpu_ringbuf_max_entries_def sum_list_replicate)

text \<open>
  C7: Driver calls on a full ring buffer go unnoticed: no probe of the library submits a record or counts a hit, and
  apart from the entry probes of the synchronisations, which note their start, none changes anything. In particular
  the return probe keeps the start it found.
\<close>

lemma full_ring_hides_calls:
  assumes "bpf_runtime H kinv view" and "kinv s" and "ring_full H s" and "call \<notin> insert ProcessExit (range Ioctl)"
    and "run_probe H R call s = (r, s')"
  shows "r = 0 \<and> v_ring (view s') = v_ring (view s) \<and> v_watchdog (view s') = v_watchdog (view s) \<and>
    (\<not> notes_start call \<longrightarrow> s' = s)"
proof (cases "notes_start call")
  case False
  with full_ring_call [OF assms(3) False assms(4), of R] assms(5) show ?thesis by simp
next
  case True
  then have "\<exists>st. handle_cuStreamSync H st s = (r, s')"
    using assms(5) by (cases call) (auto simp: ctx_sync_same(1) [of H 0])
  with bpf_runtime.handle_cuStreamSync_spec [OF assms(1,2)] True show ?thesis by fastforce
qed

text \<open>An allocation of a gigabyte.\<close>

lemma full_ring_hides_calls_witness:
  "\<exists>s'. run_probe reference_kernel sample_offsets (MemAlloc 1 (2 ^ 30)) full_kernel = (0, s') \<and>
     length (k_ring s') = 1489 \<and> k_watchdog s' = []"
proof -
  obtain r s' where run: "run_probe reference_kernel sample_offsets (MemAlloc 1 (2 ^ 30)) full_kernel = (r, s')"
    by fastforce
  from full_ring_hides_calls [OF rk.bpf_runtime_axioms full_inv full_ring _ run]
  have "r = 0" "s' = full_kernel" by auto
  with run show ?thesis by (simp add: full_kernel_def sample_kernel_def)
qed

end
