(* ===== verification/System_Content.thy ===== *)
theory System_Content
  imports Whole_System Driver_Calls
begin

text \<open>
  What the server learns, not only how much: in the system of Whole\_System, the time series a loader sends for a
  process is the sequence of the activities its records carry, in the order in which the probes submitted them.
\<close>

declare split_paired_All [simp del]
declare split_paired_Ex [simp del]

section \<open>Series\<close>

text \<open>A token without its clock reading.\<close>

type_synonym shape = "int \<times> f64 \<times> int"

definition token_shape :: "GpuEventToken \<Rightarrow> shape" where
  "token_shape tk = (tok_event_type tk, tok_value tk, tok_dir tk)"

definition activity_shape :: "activity \<Rightarrow> shape" where
  "activity_shape a = token_shape (activity_token 0 a)"

fun payload_tokens :: "payload \<Rightarrow> GpuEventToken list" where
  "payload_tokens (Token tk) = [tk]"
| "payload_tokens (Tw w) = []"

definition batch_tokens :: "u32 \<Rightarrow> GpuBatch \<Rightarrow> GpuEventToken list" where
  "batch_tokens p b = concat (map (\<lambda>e. payload_tokens (ge_payload e)) (filter (\<lambda>e. ge_pid e = p) (gb_batch b)))"

definition series :: "u32 \<Rightarrow> GpuBatch list \<Rightarrow> shape list" where
  "series p bs = map token_shape (concat (map (batch_tokens p) bs))"

text \<open>The activities of a process in a list of events, and in a list of records.\<close>

definition event_series :: "u32 \<Rightarrow> gpu_event list \<Rightarrow> shape list" where
  "event_series p evs = map (\<lambda>ev. activity_shape (the (activity_of ev))) (filter (\<lambda>ev. event_pid ev = Some p) evs)"

fun decoded :: "bytes \<Rightarrow> gpu_event list" where
  "decoded e = (case handle_record e of Dispatch ev \<Rightarrow> [ev] | _ \<Rightarrow> [])"

definition record_series :: "u32 \<Rightarrow> bytes list \<Rightarrow> shape list" where
  "record_series p recs = event_series p (concat (map decoded recs))"

lemma series_simps [simp]: "series p [] = []" "series p (bs @ cs) = series p bs @ series p cs"
  by (simp_all add: series_def)

lemma event_series_simps [simp]:
  "event_series p [] = []" "event_series p (xs @ ys) = event_series p xs @ event_series p ys"
  by (simp_all add: event_series_def)

lemma record_series_append [simp]: "record_series p (xs @ ys) = record_series p xs @ record_series p ys"
  by (simp add: record_series_def)

lemma token_of_event:
  "event_pid ev = Some p \<Longrightarrow> token_shape (the (EventToToken now ev)) = activity_shape (the (activity_of ev))"
  by (cases ev) (auto simp: EventToToken_def activity_shape_def token_shape_def types_consts Let_def)

section \<open>The collector of a lane\<close>

lemma batch_tokens_flush:
  assumes "iterates order (buffers tc)" and "tc_Flush order tc = (Some b, tc')"
  shows "batch_tokens p b = buffered tc p"
proof -
  have "batch_tokens p b = concat (map payload_tokens (map ge_payload (filter (\<lambda>e. ge_pid e = p) (gb_batch b))))"
    by (simp add: batch_tokens_def comp_def)
  also have "\<dots> = concat (map payload_tokens (map Token (buffered tc p)))" by (simp only: tc_batch_tokens [OF assms])
  also have "\<dots> = buffered tc p" by (simp add: comp_def)
  finally show ?thesis .
qed

lemma flush_empty:
  assumes "iterates order (buffers tc)" and "tc_Flush order tc = (None, tc')"
  shows "buffered tc p = []"
proof -
  have "concat (map (pid_events tc) order) = []"
    using assms(2) by (simp add: tc_Flush_def Let_def split: if_splits del: concat_eq_Nil_conv)
  then have "(if p \<in> set order then map Token (buffered tc p) else []) = []"
    using concat_payloads [of order p tc] assms(1) by (simp add: iterates_def del: concat_eq_Nil_conv)
  then show ?thesis using assms(1) by (auto simp: iterates_def buffered_def split: if_splits option.splits)
qed

lemma flush_buffered: "buffered (snd (tc_Flush order tc)) p = []"
  by (simp add: tc_Flush_def buffered_def Let_def)

lemma series_run:
  assumes "ticks_fit (collector_Update b2s) collector_Flush collector_fits ops (Series tc)"
  shows "\<exists>tc'. snd (collector_run (collector_Update b2s) collector_Flush ops (Series tc)) = Series tc' \<and>
    series p (fst (collector_run (collector_Update b2s) collector_Flush ops (Series tc))) @ map token_shape (buffered tc' p) =
    map token_shape (buffered tc p) @ event_series p (arrived ops)"
  using assms
proof (induction ops arbitrary: tc)
  case (Cons opn ops)
  show ?case
  proof (cases opn)
    case (Arrive now ev)
    have "event_series p (ev # arrived ops) = map token_shape (tokens_of p [(now, ev)]) @ event_series p (arrived ops)"
      by (simp add: event_series_def token_of_event)
    with Cons.IH [of "tc_Update b2s now ev tc"] Cons.prems Arrive show ?thesis by (auto simp: buffered_Update)
  next
    case (Tick f)
    obtain b tc1 where fl: "tc_Flush (snd f) tc = (b, tc1)" by fastforce
    have fit: "iterates (snd f) (buffers tc)" using Cons.prems Tick by simp
    have "buffered tc1 p = []" using flush_buffered [of "snd f" tc p] fl by simp
    moreover have "ticks_fit (collector_Update b2s) collector_Flush collector_fits ops (Series tc1)"
      using Cons.prems Tick fl by simp
    moreover have "buffered tc p = (case b of None \<Rightarrow> [] | Some b \<Rightarrow> batch_tokens p b)"
      using batch_tokens_flush [OF fit] flush_empty [OF fit] fl by (cases b) auto
    ultimately show ?thesis using Cons.IH [of tc1] Tick fl
      by (auto simp: Let_def case_prod_unfold series_def split: option.splits)
  qed
qed (simp add: event_series_def)

section \<open>From the records to the batches\<close>

lemma dispatched_decoded:
  assumes "\<forall>x \<in> set as. in_range [n] x"
  shows "dispatched 0 as = concat (map decoded (consumed as))"
  using assms
proof (induction as rule: rev_induct)
  case (snoc x as)
  have "dispatched_by 0 x = concat (map decoded (record_read x))"
  proof (cases x rule: record_read.cases)
    case (1 l e)
    then have "l = 0" using snoc.prems by (auto simp: in_range_def)
    with 1 show ?thesis by (simp add: turn_events_def split: outcome.splits)
  qed (auto simp: turn_events_def)
  then show ?case using snoc by (simp del: decoded.simps)
qed simp

lemma lane_series:
  assumes run: "runs b2s topo (start_agent cols) as a" and x: "x \<in> lanes topo"
    and c: "cols ! fst x ! snd x = Series tc0"
    and fit: "ticks_fit (collector_Update b2s) collector_Flush collector_fits (lane_ops x as) (cols ! fst x ! snd x)"
    and tr: "traced a (\<lambda>x. fst (lane_run b2s x as (start_agent cols))) ts pt"
  shows "\<exists>tc. collector a x = Series tc \<and>
    (series p (of_lane x ts) @ series p (pipe a pt x) @ map token_shape (buffered tc p)) @
      event_series p (owed (snd x) (reader a (fst x))) =
    map token_shape (buffered tc0 p) @ event_series p (dispatched (fst x) as)"
proof -
  have c0: "collector (start_agent cols) x = Series tc0" using c by simp
  obtain tc where tc: "snd (lane_run b2s x as (start_agent cols)) = Series tc"
    "series p (fst (lane_run b2s x as (start_agent cols))) @ map token_shape (buffered tc p) =
      map token_shape (buffered tc0 p) @ event_series p (arrived (lane_ops x as))"
    using series_run [OF fit [unfolded c], of p] unfolding lane_run_def c0 by blast
  have "fst (lane_run b2s x as (start_agent cols)) = of_lane x ts @ pipe a pt x"
    using tr by (simp add: traced_def)
  with tc runs_delivered [OF run x] runs_collector [OF run, of x] show ?thesis by simp
qed

section \<open>Properties\<close>

text \<open>
  C4: What the server learns: in every execution of the probes, the scheduler and the goroutines of one loader,
  the tokens of a process in the batches its time-series collector has sent or queued, those in flight, buffered
  and being handed round, and the records still unread are together, in this order, exactly the activities of
  the records the probes submitted for the process, in the order of submission.
\<close>

lemma series_of_records:
  assumes "bpf_runtime H kinv view"
    and "system H R kinv view b2s [length cs] k0 (start_agent [cs]) recs ex as k a"
    and "v_ring (view k0) = []" and "i < length cs" and "cs ! i = Series (NewTimeSeriesCollector interval)"
    and "ticks_fit (collector_Update b2s) collector_Flush collector_fits (lane_ops (0, i) as) (cs ! i)"
  shows "\<exists>ts pt tc. map snd ts = handed a @ eventCh a \<and> collector a (0, i) = Series tc \<and> (\<forall>p.
    series p (of_lane (0, i) ts) @ series p (pipe a pt (0, i)) @ map token_shape (buffered tc p) @
      event_series p (owed i (reader a 0)) @ record_series p (v_ring (view k)) =
    record_series p recs)"
proof -
  note run = system_runs [OF assms(2)]
  obtain ts pt where tr: "traced a (\<lambda>x. fst (lane_run b2s x as (start_agent [cs]))) ts pt"
    using runs_traced [OF run] by blast
  have recs: "recs = consumed as @ v_ring (view k)" using bpf_runtime.system_ring [OF assms(1,2)] assms(3) by simp
  have "event_series p (dispatched 0 as) = record_series p (consumed as)" for p
    using dispatched_decoded [OF runs_in_range [OF run]] by (simp add: record_series_def)
  moreover have "map token_shape (buffered (NewTimeSeriesCollector interval) p) = []" for p
    by (simp add: buffered_def NewTimeSeriesCollector_def)
  ultimately have eq: "\<exists>tc. collector a (0, i) = Series tc \<and>
    series p (of_lane (0, i) ts) @ series p (pipe a pt (0, i)) @ map token_shape (buffered tc p) @
      event_series p (owed i (reader a 0)) @ record_series p (v_ring (view k)) = record_series p recs" for p
    using lane_series [OF run _ _ _ tr, of "(0, i)" "NewTimeSeriesCollector interval" p] assms(4-6) recs by (auto simp: lanes_def)
  then obtain tc where "collector a (0, i) = Series tc" by blast
  with eq tr show ?thesis by (intro exI [of _ ts] exI [of _ pt] exI [of _ tc]) (auto simp: traced_def)
qed

text \<open>A process allocates 64 bytes; the record reaches the time series as an allocation of that size.\<close>

lemma series_of_records_witness:
  "\<exists>recs as k a tc. system reference_kernel sample_offsets ref_inv ref_view (\<lambda>c. c) [1] sample_kernel
      (start_agent sample_collectors) recs {} as k a \<and>
    collector a (0, 0) = Series tc \<and> map token_shape (buffered tc 42) = [activity_shape (Allocated 64)]"
proof (rule sample_system)
  fix e ev k a
  let ?cs = "[Series (NewTimeSeriesCollector 5)]" and ?as = "sample_actions e (MemallocEvent ev)"
  assume s: "system reference_kernel sample_offsets ref_inv ref_view (\<lambda>c. c) [1] sample_kernel
      (start_agent sample_collectors) [e] {} ?as k a"
    and a: "handle_record e = Dispatch (MemallocEvent ev)" "Pid ev = 42" "ByteSize ev = 64"
      "v_ring (ref_view k) = []" "handed a = []" "eventCh a = []" "reader a 0 = ReaderSelect" "\<And>pt. pipe a pt (0, 0) = []"
  have "ticks_fit (collector_Update (\<lambda>c. c)) collector_Flush collector_fits (lane_ops (0, 0) ?as) (?cs ! 0)"
    by (simp add: lane_ops_def)
  then obtain ts pt tc where "map snd ts = handed a @ eventCh a" and tc: "collector a (0, 0) = Series tc" and
    acc: "\<forall>p. series p (of_lane (0, 0) ts) @ series p (pipe a pt (0, 0)) @ map token_shape (buffered tc p) @
      event_series p (owed 0 (reader a 0)) @ record_series p (v_ring (ref_view k)) = record_series p [e]"
    using series_of_records [OF rk.bpf_runtime_axioms, of sample_offsets "\<lambda>c. c" ?cs sample_kernel "[e]" "{}" ?as k a 0 5] s
    by (auto simp: sample_collectors_def sample_view)
  then have "map token_shape (buffered tc 42) = record_series 42 [e]"
    using a acc [THEN spec, of 42] by (simp add: record_series_def)
  also have "\<dots> = [activity_shape (Allocated 64)]" using a by (simp add: record_series_def event_series_def)
  finally show ?thesis using s tc by (intro exI [of _ "[e]"] exI [of _ ?as] exI [of _ k] exI [of _ a] exI [of _ tc]) simp
qed

declare split_paired_All [simp]
declare split_paired_Ex [simp]

end
