(* ===== verification/System_Usage.thy ===== *)
theory System_Usage
  imports Concurrent_System System_Content
begin

text \<open>
  What the server learns from the aggregator in the concurrent system: however the programs, the goroutines and the
  windows' boundaries fall, the exact statistics of the windows reported for a process, with what is still on its
  way, add up to what the process did.
\<close>

declare split_paired_All [simp del]
declare split_paired_Ex [simp del]

section \<open>Usage of records\<close>

definition record_usage :: "u32 \<Rightarrow> bytes list \<Rightarrow> usage" where
  "record_usage p recs = worth_of event_usage p (concat (map decoded recs))"

lemma worth_of_concat: "worth_of worth p (concat xss) = sum_list (map (worth_of worth p) xss)"
  by (induction xss) simp_all

lemma record_usage_mset: "mset xs = mset ys \<Longrightarrow> record_usage p xs = record_usage p ys"
proof -
  have "record_usage p zs = sum_mset (image_mset (\<lambda>e. worth_of event_usage p (decoded e)) (mset zs))" for zs
    by (simp only: record_usage_def worth_of_concat map_map comp_def sum_mset_sum_list [symmetric] mset_map)
  then show "mset xs = mset ys \<Longrightarrow> record_usage p xs = record_usage p ys" by simp
qed

lemma record_usage_append [simp]: "record_usage p (xs @ ys) = record_usage p xs + record_usage p ys"
  by (simp add: record_usage_def)

section \<open>The collector of a lane\<close>

fun aggregates :: "gpu_collector_state \<Rightarrow> bool" where
  "aggregates (Fingerprint ga) = ga_inv ga"
| "aggregates (Series tc) = False"

fun collector_usage :: "u32 \<Rightarrow> gpu_collector_state \<Rightarrow> usage" where
  "collector_usage p (Fingerprint ga) = window_usage p ga"
| "collector_usage p (Series tc) = 0"

interpretation lane: measured_collector "collector_Update b2s" collector_Flush collector_usage aggregates
    collector_fits event_usage payload_usage
proof (unfold_locales, goal_cases)
  case (1 s t ev)
  then show ?case by (cases s) (simp_all add: ga_Update_inv)
next
  case (2 s f)
  then show ?case by (cases s; cases f) (use agg.flush_inv in \<open>auto simp: case_prod_unfold\<close>)
next
  case (3 s p t ev)
  then show ?case by (cases s) (simp_all add: ga_Update_usage)
next
  case (4 s f p)
  then show ?case
    by (cases s; cases f) (use ga_Flush_usage in \<open>auto simp: case_prod_unfold\<close>)
qed

lemma lane_usage:
  assumes run: "runs b2s topo (start_agent cols) as s" and x: "x \<in> lanes topo"
    and fit: "ticks_fit (collector_Update b2s) collector_Flush collector_fits (lane_ops x as) (cols ! fst x ! snd x)"
    and inv: "aggregates (cols ! fst x ! snd x)"
    and tr: "traced s (\<lambda>x. fst (lane_run b2s x as (start_agent cols))) ts pt"
  shows "aggregates (collector s x) \<and>
    batches_worth payload_usage p (of_lane x ts) + batches_worth payload_usage p (pipe s pt x) +
      collector_usage p (collector s x) + worth_of event_usage p (owed (snd x) (reader s (fst x))) =
    collector_usage p (cols ! fst x ! snd x) + worth_of event_usage p (dispatched (fst x) as)"
proof -
  note run_worth = lane.run_worth [OF inv fit, of p] and run_keeps = lane.run_keeps [OF inv fit]
  have "fst (lane_run b2s x as (start_agent cols)) = of_lane x ts @ pipe s pt x"
    using tr by (simp add: traced_def)
  with run_worth runs_collector [OF run, of x]
  have "batches_worth payload_usage p (of_lane x ts) + batches_worth payload_usage p (pipe s pt x) +
      collector_usage p (collector s x) =
    collector_usage p (cols ! fst x ! snd x) + worth_of event_usage p (arrived (lane_ops x as))"
    by (simp add: lane_run_def flip: batches_worth_simps(3))
  moreover have "aggregates (collector s x)" using run_keeps runs_collector [OF run, of x] by (simp add: lane_run_def)
  ultimately show ?thesis using runs_delivered [OF run x] by (simp add: add.assoc flip: worth_of_simps(3))
qed

section \<open>Properties\<close>

text \<open>
  What the server learns of a process: with everything interleaved at single accesses, the launches, threads,
  allocations, bytes, copies by direction, synchronisations and maxima of the windows an aggregator has sent or
  queued, with those in flight, of the open window, of events handed round and of records still unread, add up
  (maxima: to the largest) to the usage of the records the process submitted.
\<close>

lemma usage_of_records:
  assumes "bpf_concurrent H kinv view"
    and "concurrent H R kinv view b2s [length cs] k0 (start_agent [cs]) recs ex as k P a"
    and "sys_inv (view k0)" and "v_ring (view k0) = []"
    and "i < length cs" and "cs ! i = Fingerprint (NewGPUAggregator t0 dur)"
    and "ticks_fit (collector_Update b2s) collector_Flush collector_fits (lane_ops (0, i) as) (cs ! i)"
  shows "\<exists>ts pt ga. map snd ts = handed a @ eventCh a \<and> collector a (0, i) = Fingerprint ga \<and> (\<forall>p.
    batches_worth payload_usage p (of_lane (0, i) ts) + batches_worth payload_usage p (pipe a pt (0, i)) +
      window_usage p ga + worth_of event_usage p (owed i (reader a 0)) + record_usage p (v_ring (view k)) =
    record_usage p recs)"
proof -
  note run = concurrent_runs [OF assms(2)]
  obtain ts pt where tr: "traced a (\<lambda>x. fst (lane_run b2s x as (start_agent [cs]))) ts pt"
    using runs_traced [OF run] by blast
  have x: "(0, i) \<in> lanes [length cs]" using assms(5) by (simp add: lanes_def)
  have fresh: "aggregates (cs ! i)" "collector_usage p (cs ! i) = 0" for p
    by (simp_all add: assms(6) NewGPUAggregator_def ga_inv_def window_usage_def)
  have lane: "aggregates (collector a (0, i)) \<and>
    batches_worth payload_usage p (of_lane (0, i) ts) + batches_worth payload_usage p (pipe a pt (0, i)) +
      collector_usage p (collector a (0, i)) + worth_of event_usage p (owed i (reader a 0)) =
    worth_of event_usage p (dispatched 0 as)" for p
    using lane_usage [OF run x _ _ tr, of p] assms(7) fresh by simp
  then obtain ga where ga: "collector a (0, i) = Fingerprint ga" by (cases "collector a (0, i)") auto
  have "record_usage p recs = worth_of event_usage p (dispatched 0 as) + record_usage p (v_ring (view k))" for p
    using record_usage_mset [of recs "consumed as @ v_ring (view k)" p] bpf_concurrent.concurrent_ring [OF assms(1-3)]
      assms(4) dispatched_decoded [OF runs_in_range [OF run]] by (simp add: record_usage_def)
  with lane ga tr show ?thesis
    by (intro exI [of _ ts] exI [of _ pt] exI [of _ ga]) (simp add: traced_def)
qed

text \<open>The record of 256 bytes is in the open window, that of 512 bytes unread.\<close>

lemma record_on_usage:
  assumes "ref_inv s"
  shows "record_usage 42 [record_on n s] = cost (Allocated n)"
proof -
  have "memalloc_record 42 (get_current_comm reference_kernel TASK_COMM_SIZE s) n (record_on n s)"
    using memalloc_filled [of "replicate 168 (k_stale s)", OF _ rk.comm_length_150 [OF assms], of 42 n]
    by (simp add: record_on_def fill_memalloc_def event_layout Let_def)
  from memalloc_decodes [OF this] show ?thesis by (auto simp: record_usage_def event_usage_def)
qed

lemma two_usage:
  "record_usage 42 [record_on 512 entry_kernel, record_on 256 second_cpu] = cost (Allocated 512) + cost (Allocated 256)"
  using record_usage_append [of 42 "[record_on 512 entry_kernel]" "[record_on 256 second_cpu]"]
    record_on_usage [OF both_inv(1)] record_on_usage [OF both_inv(3)] by simp

lemma usage_of_records_witness:
  "\<exists>recs as k P a ga. concurrent reference_kernel sample_offsets ref_inv ref_view (\<lambda>c. c) [1] entry_kernel
      (start_agent [[Fingerprint (NewGPUAggregator 0 10)]]) recs {} as k P a \<and>
    record_usage 42 recs = cost (Allocated 512) + cost (Allocated 256) \<and>
    collector a (0, 0) = Fingerprint ga \<and> allocations (window_usage 42 ga) = 1 \<and>
    bytes_allocated (window_usage 42 ga) = 256"
proof (rule two_cpus_read [of "Fingerprint (NewGPUAggregator 0 10)"])
  fix a ev
  let ?e = "record_on 512 entry_kernel" and ?f = "record_on 256 second_cpu" and ?as = "sample_actions (record_on 256 second_cpu) ev"
  let ?k = "second_counted\<lparr>k_ring := [?e]\<rparr>" and ?cs = "[Fingerprint (NewGPUAggregator 0 10)]"
  let ?P = "[0 \<mapsto> (42 * 2 ^ 32 + 43, CountLookup 42 UPROBE_HIT), 1 \<mapsto> (42 * 2 ^ 32 + 44, Finished 0)]"
  assume s: "concurrent reference_kernel sample_offsets ref_inv ref_view (\<lambda>c. c) [1] entry_kernel
      (start_agent [?cs]) [?e, ?f] {} ?as ?k ?P a"
    and a: "reader a 0 = ReaderSelect" "\<And>pt. pipe a pt (0, 0) = []" "handed a = []" "eventCh a = []"
  have "v_ring (ref_view entry_kernel) = []" by (simp add: entry_view)
  moreover have "ticks_fit (collector_Update (\<lambda>c. c)) collector_Flush collector_fits (lane_ops (0, 0) ?as) (?cs ! 0)"
    by (simp add: lane_ops_def)
  ultimately obtain ts pt ga where ts: "map snd ts = handed a @ eventCh a" and ga: "collector a (0, 0) = Fingerprint ga" and
    acc: "\<forall>p. batches_worth payload_usage p (of_lane (0, 0) ts) + batches_worth payload_usage p (pipe a pt (0, 0)) +
      window_usage p ga + worth_of event_usage p (owed 0 (reader a 0)) + record_usage p (v_ring (ref_view ?k)) =
      record_usage p [?e, ?f]"
    using usage_of_records [OF ck.bpf_concurrent_axioms, of sample_offsets "\<lambda>c. c" ?cs entry_kernel "[?e, ?f]" "{}"
        ?as ?k ?P a 0 0 10] s entry_sys_inv by auto
  have "v_ring (ref_view ?k) = [?e]" by (simp add: ref_view_def)
  then have "window_usage 42 ga + cost (Allocated 512) = cost (Allocated 512) + cost (Allocated 256)"
    using acc [THEN spec, of 42] a ts two_usage record_on_usage [OF both_inv(1), of 512] by simp
  then have "allocations (window_usage 42 ga) = 1" "bytes_allocated (window_usage 42 ga) = 256"
    by (auto simp: plus_usage_def)
  with s two_usage ga show ?thesis
    by (intro exI [of _ "[?e, ?f]"] exI [of _ ?as] exI [of _ ?k] exI [of _ ?P] exI [of _ a] exI [of _ ga]) simp
qed

declare split_paired_All [simp]
declare split_paired_Ex [simp]

end
