(* ===== verification/Startup.thy ===== *)
theory Startup
  imports Client
begin

text \<open>
  From the configuration to the first action of the runners: the ticker each collector's \<open>Run\<close> creates
  (\<open>collector/aggregator/runner.go\<close>, \<open>collector/timeserie/runner.go\<close>) with the period the configuration gave it.
\<close>

section \<open>Start of the collectors\<close>

text \<open>\<open>time.NewTicker\<close> panics unless the period is positive.\<close>

definition NewTicker :: "int \<Rightarrow> int option" where
  "NewTicker d = (if d \<le> 0 then None else Some d)"

fun runner_ticker :: "gpu_collector_state \<Rightarrow> int option" where
  "runner_ticker (Fingerprint ga) = NewTicker (windowDuration ga)"
| "runner_ticker (Series tc) = NewTicker (flushInterval tc)"

lemma NewEbpfGpuLoaders_collectors:
  "fst (NewEbpfGpuLoaders env now p path win) = Inr ld \<Longrightarrow>
    collectors ld = [Fingerprint (NewGPUAggregator now win), Series (NewTimeSeriesCollector 5000000000)]"
  by (auto simp: NewEbpfGpuLoaders_def new_loader_eq Let_def split: if_splits option.splits sum.splits)

lemma main_loaders_collectors:
  "ld \<in> set (main_loaders env now cfg ps) \<Longrightarrow>
    collectors ld = [Fingerprint (NewGPUAggregator now (TimeWindow cfg)), Series (NewTimeSeriesCollector 5000000000)]"
  by (induction env now cfg ps rule: main_loaders.induct)
    (auto split: sum.splits dest: NewEbpfGpuLoaders_collectors)

lemma main_loaders_panic:
  "ld \<in> set (main_loaders env now cfg ps) \<Longrightarrow>
    (\<exists>c \<in> set (collectors ld). runner_ticker c = None) \<longleftrightarrow> TimeWindow cfg \<le> 0"
  by (simp add: main_loaders_collectors NewTicker_def NewGPUAggregator_def NewTimeSeriesCollector_def)

lemma int64_seconds:
  assumes "9223372036 < w" and "w \<le> 18446744073"
  shows "int64_mul w 1000000000 < 0"
proof -
  have "int64_mul w 1000000000 = signed_take_bit 63 (w * 1000000000)"
    unfolding int64_mul_def by (subst signed_of_int) simp
  also have "\<dots> = signed_take_bit 63 (w * 1000000000 - 2 ^ 64)"
    by (rule signed_take_bit_eq_iff_take_bit_eq [THEN iffD2]) (simp add: take_bit_eq_mod mod_diff_right_eq)
  also have "\<dots> = w * 1000000000 - 2 ^ 64" using assms by (intro signed_take_bit_int_eq_self) auto
  also have "\<dots> < 0" using assms by simp
  finally show ?thesis .
qed

section \<open>main\<close>

text \<open>
  \<open>main\<close> from the configuration to its end. \<open>logger.Fatal\<close> exits without running the deferred calls; a
  return runs them, last one first: the client's \<open>Close\<close>, then every loader's. The result of
  \<open>NewGrpcClient\<close> is an argument, the turns of the send loop are another.
\<close>

datatype main_end = FatalExit string | StillRunning | MainReturned run_result

datatype ('l, 'r) released = LoaderResource "('l, 'r) resource" | ClientConn

definition main_run ::
  "flags \<Rightarrow> host \<Rightarrow> (string \<Rightarrow> ('l, 'r) attach_env) \<Rightarrow> gotime \<Rightarrow> string option \<Rightarrow> select_case list \<Rightarrow>
    main_end \<times> ('l, 'r) released list" where
  "main_run f h env now client_err cs =
    (case LoadConfig f h of
       Inl err \<Rightarrow> (FatalExit err, [])
     | Inr cfg \<Rightarrow>
        (let lds = main_loaders env now cfg (EnableProbes cfg)
         in case client_err of
              Some err \<Rightarrow> (FatalExit err, [])
            | None \<Rightarrow>
                (case snd (client_run cs) of
                   Waiting \<Rightarrow> (StillRunning, [])
                 | res \<Rightarrow> (MainReturned res,
                     ClientConn # concat (map (\<lambda>ld. map LoaderResource (Close ld)) (rev lds))))))"

text \<open>What a successful construction holds.\<close>

definition held :: "('l, 'r) attach_env \<Rightarrow> ('l, 'r) resource list" where
  "held env = ObjsResource # map LinkResource (links env) @
     (case new_reader env of Inr rb \<Rightarrow> [ReaderResource rb] | Inl _ \<Rightarrow> [])"

definition loads :: "('l, 'r) attach_env \<Rightarrow> string \<Rightarrow> bool" where
  "loads env path \<longleftrightarrow> remove_memlock env = None \<and> load_objects env = None \<and> open_executable env path = None \<and>
     (\<exists>rb. new_reader env = Inr rb)"

lemma main_loaders_close:
  "map Close (main_loaders env now cfg ps) =
    map (\<lambda>p. held (env p)) (filter (\<lambda>p. p = LoaderFingerprint \<and> loads (env p) (CudaLibraryPath cfg)) ps)"
  by (induction env now cfg ps rule: main_loaders.induct)
    (auto simp: NewEbpfGpuLoaders_def new_loader_eq Let_def Close_def held_def loads_def
      split: option.splits sum.splits)

text \<open>A host on which everything attaches.\<close>

definition sample_env :: "string \<Rightarrow> (unit, unit) attach_env" where
  "sample_env = (\<lambda>_. \<lparr>remove_memlock = None, load_objects = None,
     open_executable = (\<lambda>_. None), env_uprobe = (\<lambda>_ _. Inr ()), env_uretprobe = (\<lambda>_ _. Inr ()),
     env_tracepoint = (\<lambda>_ _ _. Inr ()), new_reader = Inr ()\<rparr>)"

section \<open>Properties\<close>

text \<open>
  C35: The configured window decides whether the agent survives its start: with a window of \<open>w\<close> seconds, the
  runner of a loader's aggregator panics in \<open>time.NewTicker\<close> exactly when the 64-bit product of \<open>w\<close> and a
  second is not positive. So it panics exactly when \<open>w\<close> is not positive, as long as the product fits \<open>int64\<close>;
  for every \<open>w\<close> from there up to twice that range, where the product wraps to a negative duration; and not for the
  next \<open>w\<close>, where it wraps to a positive one.
\<close>

lemma startup_panics:
  assumes "LoadConfig f h = Inr cfg" and "f_timeWindow f \<noteq> []" and "ParseInt (f_timeWindow f) = Some w"
    and "ld \<in> set (main_loaders env now cfg (EnableProbes cfg))"
  shows "let panics = (\<exists>c \<in> set (collectors ld). runner_ticker c = None)
    in (panics \<longleftrightarrow> sint (word_of_int (w * 1000000000) :: 64 word) \<le> 0) \<and>
      (-9223372036 \<le> w \<and> w \<le> 9223372036 \<longrightarrow> (panics \<longleftrightarrow> w \<le> 0)) \<and>
      (9223372036 < w \<and> w \<le> 18446744073 \<longrightarrow> panics) \<and>
      (w = 18446744074 \<longrightarrow> \<not> panics)"
proof -
  have "TimeWindow cfg = int64_mul w 1000000000"
    using assms(1-3) unfolding LoadConfig_def Let_def by (auto split: if_splits)
  then have p: "(\<exists>c \<in> set (collectors ld). runner_ticker c = None) \<longleftrightarrow> int64_mul w 1000000000 \<le> 0"
    using main_loaders_panic [OF assms(4)] by simp
  have "int64_mul w 1000000000 = w * 1000000000" if "-9223372036 \<le> w" "w \<le> 9223372036"
    using that by (intro int64_mul_exact) auto
  moreover have "0 < int64_mul 18446744074 1000000000" by (simp add: int64_mul_def)
  ultimately show ?thesis using int64_seconds [of w]
    unfolding Let_def p int64_mul_def [symmetric] by auto
qed

lemma startup_panics_witness:
  "\<exists>cfg. LoadConfig \<lparr>f_tracer = ''fingerprint'', f_serverAddr = ''a'', f_serverPort = ''1'',
      f_prometheusPort = [], f_cudaLibPath = ''l'', f_timeWindow = ''9300000000''\<rparr>
    \<lparr>Getenv = (\<lambda>_. []), Hostname = None, file_exists = (\<lambda>_. True)\<rparr> = Inr cfg \<and>
    (\<exists>c \<in> set (collectors (hd (main_loaders sample_env 0 cfg (EnableProbes cfg)))). runner_ticker c = None)"
proof -
  let ?f = "\<lparr>f_tracer = ''fingerprint'', f_serverAddr = ''a'', f_serverPort = ''1'',
      f_prometheusPort = [], f_cudaLibPath = ''l'', f_timeWindow = ''9300000000''\<rparr>"
  let ?h = "\<lparr>Getenv = (\<lambda>_. []), Hostname = None, file_exists = (\<lambda>_. True)\<rparr>"
  obtain cfg where c: "LoadConfig ?f ?h = Inr cfg" by (simp add: LoadConfig_def Let_def)
  then have probes: "EnableProbes cfg = [''fingerprint'']"
    by (auto simp: LoadConfig_def Let_def TrimSpace_def is_space_def)
  have w: "ParseInt ''9300000000'' = Some 9300000000" by (simp add: ParseInt_def digit_def Let_def)
  have "main_loaders sample_env 0 cfg (EnableProbes cfg) \<noteq> []"
    by (simp add: probes sample_env_def NewEbpfGpuLoaders_def LoaderFingerprint_def new_loader_eq Let_def)
  then have "hd (main_loaders sample_env 0 cfg (EnableProbes cfg)) \<in> set (main_loaders sample_env 0 cfg (EnableProbes cfg))"
    by (rule hd_in_set)
  from startup_panics [OF c _ _ this, of 9300000000] w c show ?thesis by (simp add: Let_def)
qed

text \<open>
  C37: When \<open>main\<close> returns, it has closed the connection and then released, for every configured probe that is
  supported and loaded, last one first, the BPF objects, every link and the reader; it returns only from a send
  loop that has ended, and on a fatal error it releases nothing.
\<close>

lemma main_releases_all:
  assumes "main_run f h env now client_err cs = (e, rel)"
  shows "(\<forall>res. e = MainReturned res \<longrightarrow> (\<exists>cfg. LoadConfig f h = Inr cfg \<and> client_err = None \<and>
      snd (client_run cs) = res \<and> res \<noteq> Waiting \<and>
      rel = ClientConn # map LoaderResource (concat (rev (map (\<lambda>p. held (env p))
        (filter (\<lambda>p. p = LoaderFingerprint \<and> loads (env p) (CudaLibraryPath cfg)) (EnableProbes cfg))))))) \<and>
    ((\<forall>res. e \<noteq> MainReturned res) \<longrightarrow> rel = [])"
proof (cases "LoadConfig f h")
  case (Inl err)
  with assms show ?thesis by (auto simp: main_run_def)
next
  case (Inr cfg)
  have "concat (map (\<lambda>ld. map LoaderResource (Close ld)) (rev (main_loaders env now cfg ps))) =
    map LoaderResource (concat (rev (map Close (main_loaders env now cfg ps))))" for ps
    by (simp add: map_concat rev_map comp_def)
  with Inr assms show ?thesis
    by (auto simp: main_run_def Let_def main_loaders_close split: option.splits run_result.splits)
qed

lemma main_releases_all_witness:
  "\<exists>rel. main_run \<lparr>f_tracer = ''fingerprint'', f_serverAddr = ''a'', f_serverPort = ''1'',
      f_prometheusPort = [], f_cudaLibPath = ''l'', f_timeWindow = ''30''\<rparr>
    \<lparr>Getenv = (\<lambda>_. []), Hostname = None, file_exists = (\<lambda>_. True)\<rparr> sample_env 0 None [CtxDone_case] =
      (MainReturned ReturnNil, rel) \<and> length rel = 29 \<and> last rel = LoaderResource (ReaderResource ())"
proof -
  let ?f = "\<lparr>f_tracer = ''fingerprint'', f_serverAddr = ''a'', f_serverPort = ''1'',
      f_prometheusPort = [], f_cudaLibPath = ''l'', f_timeWindow = ''30''\<rparr>"
  let ?h = "\<lparr>Getenv = (\<lambda>_. []), Hostname = None, file_exists = (\<lambda>_. True)\<rparr>"
  obtain cfg where c: "LoadConfig ?f ?h = Inr cfg" by (simp add: LoadConfig_def Let_def)
  then have probes: "EnableProbes cfg = [''fingerprint'']"
    by (auto simp: LoadConfig_def Let_def TrimSpace_def is_space_def)
  obtain rel where run: "main_run ?f ?h sample_env 0 None [CtxDone_case] = (MainReturned ReturnNil, rel)"
    by (simp add: main_run_def c Let_def)
  from main_releases_all [OF run] c have
    rel: "rel = ClientConn # map LoaderResource (concat (rev (map (\<lambda>p. held (sample_env p))
      (filter (\<lambda>p. p = LoaderFingerprint \<and> loads (sample_env p) (CudaLibraryPath cfg)) (EnableProbes cfg)))))"
    by auto
  have "held (sample_env p) = ObjsResource # replicate 26 (LinkResource ()) @ [ReaderResource ()]" for p
    by (simp add: held_def sample_env_def links_def functions_entry_def functions_exit_def eval_nat_numeral)
  then have "rel = ClientConn # map LoaderResource (ObjsResource # replicate 26 (LinkResource ()) @ [ReaderResource ()])"
    unfolding rel by (simp add: probes LoaderFingerprint_def loads_def sample_env_def)
  with run show ?thesis by simp
qed

end
