(* ===== verification/Deployment.thy ===== *)
theory Deployment
  imports System_Usage Startup
begin

text \<open>
  From the configuration to the server: a loader of \<open>main\<close>, with the collectors the configuration gives it, in the
  concurrent system. Both of its collectors report what the processes did, each in its own form.
\<close>

declare split_paired_All [simp del]
declare split_paired_Ex [simp del]

section \<open>The two collectors of a loader\<close>

lemma record_series_mset: "mset xs = mset ys \<Longrightarrow> mset (record_series p xs) = mset (record_series p ys)"
proof -
  have "mset (record_series p zs) = image_mset (\<lambda>ev. activity_shape (the (activity_of ev)))
    (filter_mset (\<lambda>ev. event_pid ev = Some p) (sum_mset (image_mset (\<lambda>e. mset (decoded e)) (mset zs))))" for zs
    by (simp only: record_series_def event_series_def mset_map mset_filter mset_concat comp_def list.map_comp
        sum_mset_sum_list [symmetric])
  then show "mset xs = mset ys \<Longrightarrow> mset (record_series p xs) = mset (record_series p ys)" by simp
qed

lemma run_duration:
  "snd (collector_run (collector_Update b2s) collector_Flush ops (Fingerprint ga)) = Fingerprint ga' \<Longrightarrow>
    windowDuration ga' = windowDuration ga"
proof (induction ops arbitrary: ga)
  case (Cons opn ops)
  show ?case
  proof (cases opn)
    case (Arrive t ev)
    from Cons.IH [of "ga_Update b2s t ev ga"] Cons.prems Arrive show ?thesis by simp
  next
    case (Tick f)
    from Cons.IH [of "snd (ga_Flush f ga)"] Cons.prems Tick show ?thesis by (simp add: Let_def case_prod_unfold)
  qed
qed simp

section \<open>Batches by collector\<close>

text \<open>The batches the goroutines of a loader with \<open>n\<close> collectors hold, and those of all loaders.\<close>

definition held_by :: "nat \<Rightarrow> nat \<Rightarrow> agent \<Rightarrow> GpuBatch list" where
  "held_by l n a = puller_batches (puller a l) @
     concat (map (\<lambda>i. forwarder_batches (forwarder a (l, i)) @ runner_batches (runner a (l, i))) [0..<n])"

definition in_flight :: "topology \<Rightarrow> agent \<Rightarrow> GpuBatch list" where
  "in_flight topo a = concat (map (\<lambda>l. held_by l (topo ! l) a) [0..<length topo])"

lemma lane_op_other: "in_range topo a \<Longrightarrow> x \<notin> lanes topo \<Longrightarrow> lane_op x a = []"
  by (cases a) (auto simp: in_range_def)

lemma lane_run_other:
  assumes "runs b2s topo s as s'" and "x \<notin> lanes topo"
  shows "fst (lane_run b2s x as s) = []"
proof -
  have "lane_ops x as = []"
    using runs_in_range [OF assms(1)] lane_op_other [of topo _ x] assms(2) by (auto simp: lane_ops_def concat_eq_Nil_conv)
  then show ?thesis by (simp add: lane_run_def)
qed

lemma sum_lanes: "(\<Sum>x\<in>lanes topo. f x) = (\<Sum>l<length topo. \<Sum>i<topo ! l. f (l, i))"
  by (simp add: lanes_Sigma sum.Sigma)

lemma mset_by_lane:
  assumes "fst ` set ts \<subseteq> A" and "finite A"
  shows "mset (map snd ts) = (\<Sum>x\<in>A. mset (of_lane x ts))"
  using assms(1)
proof (induction ts)
  case (Cons t ts)
  have "(\<Sum>x\<in>A. mset (of_lane x (t # ts))) = (\<Sum>x\<in>A. (if x = fst t then {#snd t#} else {#}) + mset (of_lane x ts))"
    by (intro sum.cong) auto
  also have "\<dots> = {#snd t#} + (\<Sum>x\<in>A. mset (of_lane x ts))" using Cons.prems assms(2) by (simp add: sum.distrib)
  finally show ?case using Cons by simp
qed simp

lemma mset_pipes:
  assumes "pt l = (l, j)" and "j < n \<or> puller_batches (puller a l) = []"
  shows "(\<Sum>i<n. mset (pipe a pt (l, i))) = mset (held_by l n a)"
proof -
  have "(\<Sum>i<n. mset (pipe a pt (l, i))) = (\<Sum>i<n. (if i = j then mset (puller_batches (puller a l)) else {#}) +
      mset (forwarder_batches (forwarder a (l, i)) @ runner_batches (runner a (l, i))))"
    using assms(1) by (intro sum.cong) (auto simp: pipe_def)
  also have "\<dots> = mset (puller_batches (puller a l)) +
      (\<Sum>i<n. mset (forwarder_batches (forwarder a (l, i)) @ runner_batches (runner a (l, i))))"
    using assms(2) by (auto simp: sum.distrib)
  also have "\<dots> = mset (held_by l n a)"
    by (simp add: held_by_def mset_concat comp_def interv_sum_list_conv_sum_set_nat atLeast0LessThan)
  finally show ?thesis .
qed

text \<open>What the agent has sent, queued and holds is what its collectors have flushed.\<close>

lemma agent_batches:
  assumes "runs b2s topo s0 as a" and tr: "traced a (\<lambda>x. fst (lane_run b2s x as s0)) ts pt"
  shows "mset (handed a @ eventCh a @ in_flight topo a) = (\<Sum>x\<in>lanes topo. mset (fst (lane_run b2s x as s0)))"
proof -
  have other: "of_lane x ts @ pipe a pt x = []" if "x \<notin> lanes topo" for x
    using lane_run_other [OF assms(1) that] tr by (simp add: traced_def)
  have ts: "fst ` set ts \<subseteq> lanes topo"
  proof
    fix x assume "x \<in> fst ` set ts"
    then have "of_lane x ts \<noteq> []" by (auto simp: of_lane_def filter_empty_conv)
    with other [of x] show "x \<in> lanes topo" by auto
  qed
  have "(\<Sum>i<topo ! l. mset (pipe a pt (l, i))) = mset (held_by l (topo ! l) a)" if l: "l < length topo" for l
  proof -
    obtain j where j: "pt l = (l, j)" using tr by (metis traced_def prod.collapse)
    have "j < topo ! l \<or> puller_batches (puller a l) = []"
      using other [of "(l, j)"] j l by (auto simp: lanes_def pipe_def)
    from mset_pipes [where pt = pt, OF j this] show ?thesis .
  qed
  then have pipes: "(\<Sum>x\<in>lanes topo. mset (pipe a pt x)) = mset (in_flight topo a)"
    by (simp add: sum_lanes in_flight_def mset_concat comp_def interv_sum_list_conv_sum_set_nat atLeast0LessThan)
  have "mset (handed a @ eventCh a @ in_flight topo a) = mset (map snd ts) + mset (in_flight topo a)"
    using tr by (simp add: traced_def flip: mset_append)
  also have "\<dots> = (\<Sum>x\<in>lanes topo. mset (of_lane x ts @ pipe a pt x))"
    by (simp only: mset_by_lane [OF ts finite_lanes] pipes [symmetric]) (simp add: sum.distrib)
  also have "\<dots> = (\<Sum>x\<in>lanes topo. mset (fst (lane_run b2s x as s0)))" using tr by (simp add: traced_def)
  finally show ?thesis .
qed

text \<open>An aggregator sends windows, a time series tokens.\<close>

lemma flush_loop_windows: "e \<in> set (fst (flush_loop now order m)) \<Longrightarrow> \<exists>w. e = window_event w"
  by (induction now order m rule: flush_loop.induct) (auto split: option.splits if_splits prod.splits)

fun carries :: "gpu_collector_state \<Rightarrow> payload \<Rightarrow> bool" where
  "carries (Fingerprint ga) m \<longleftrightarrow> (\<exists>w. m = Tw w)"
| "carries (Series tc) m \<longleftrightarrow> (\<exists>tk. m = Token tk)"

lemma collector_Flush_kind:
  assumes "fst (collector_Flush f c) = Some b" and "e \<in> set (gb_batch b)"
  shows "carries c (ge_payload e)"
proof (cases c)
  case (Fingerprint ga)
  with assms have "e \<in> set (fst (flush_loop (fst f) (snd f) (windows ga)))"
    by (auto simp: ga_Flush_def Let_def case_prod_unfold split: if_splits)
  from flush_loop_windows [OF this] Fingerprint show ?thesis by (auto simp: window_event_def Let_def)
next
  case (Series tc)
  with assms show ?thesis by (auto simp: tc_Flush_def pid_events_def Let_def case_prod_unfold split: if_splits)
qed

lemma carries_step: "carries (collector_Update b2s t ev c) = carries c" "carries (snd (collector_Flush f c)) = carries c"
  by (cases c; simp add: fun_eq_iff case_prod_unfold)+

lemma run_carries:
  "b \<in> set (fst (collector_run (collector_Update b2s) collector_Flush ops c)) \<Longrightarrow> e \<in> set (gb_batch b) \<Longrightarrow>
    carries c (ge_payload e)"
proof (induction ops arbitrary: c)
  case (Cons opn ops)
  show ?case
  proof (cases opn)
    case (Arrive t ev)
    with Cons.IH [of "collector_Update b2s t ev c"] Cons.prems show ?thesis by (simp add: carries_step)
  next
    case (Tick f)
    then have "fst (collector_Flush f c) = Some b \<or>
      b \<in> set (fst (collector_run (collector_Update b2s) collector_Flush ops (snd (collector_Flush f c))))"
      using Cons.prems(1) by (auto simp: Let_def case_prod_unfold split: option.splits)
    then show ?thesis
      using collector_Flush_kind [of f c b e] Cons.IH [of "snd (collector_Flush f c)"] Cons.prems(2)
      by (auto simp: carries_step)
  qed
qed simp

lemma other_kind:
  "(\<And>b e. b \<in> set bs \<Longrightarrow> e \<in> set (gb_batch b) \<Longrightarrow> carries (Series tc) (ge_payload e)) \<Longrightarrow> batches_worth payload_usage p bs = 0"
  "(\<And>b e. b \<in> set bs \<Longrightarrow> e \<in> set (gb_batch b) \<Longrightarrow> carries (Fingerprint ga) (ge_payload e)) \<Longrightarrow> series p bs = []"
proof -
  { assume *: "\<And>b e. b \<in> set bs \<Longrightarrow> e \<in> set (gb_batch b) \<Longrightarrow> carries (Series tc) (ge_payload e)"
    have "payload_usage m = 0" if "carries (Series tc) m" for m using that by auto
    then have "messages payload_usage p es = 0" if "\<And>e. e \<in> set es \<Longrightarrow> carries (Series tc) (ge_payload e)" for es
      using that by (induction es) (simp_all del: carries.simps)
    then have "\<forall>b \<in> set bs. messages payload_usage p (gb_batch b) = 0" using * by blast
    then show "batches_worth payload_usage p bs = 0" by (induction bs) auto }
  assume *: "\<And>b e. b \<in> set bs \<Longrightarrow> e \<in> set (gb_batch b) \<Longrightarrow> carries (Fingerprint ga) (ge_payload e)"
  then have "batch_tokens p b = []" if "b \<in> set bs" for b
    using that by (fastforce simp: batch_tokens_def)
  then show "series p bs = []" by (simp add: series_def)
qed

lemma batches_worth_mset: "batches_worth message p bs = (\<Sum>b\<in>#mset bs. messages message p (gb_batch b))"
  by (simp add: batches_worth_def sum_mset_sum_list flip: mset_map)

lemma series_mset: "mset (series p bs) = (\<Sum>b\<in>#mset bs. image_mset token_shape (mset (batch_tokens p b)))"
  by (induction bs) (simp_all add: series_def)

lemma sum_mset_family: "finite A \<Longrightarrow> (\<Sum>b\<in>#(\<Sum>l\<in>A. M l). f b) = (\<Sum>l\<in>A. \<Sum>b\<in>#M l. f b)"
  by (induction A rule: finite_induct) simp_all

section \<open>What the agent reports\<close>

text \<open>An agent whose loaders have an aggregator and a time series each, as \<open>NewEbpfGpuLoaders\<close> makes them.\<close>

definition paired :: "gpu_collector_state list list \<Rightarrow> int \<Rightarrow> bool" where
  "paired cols w \<longleftrightarrow> (\<forall>cs \<in> set cols. \<exists>t v.
     cs = [Fingerprint (NewGPUAggregator t w), Series (NewTimeSeriesCollector v)])"

lemma pairedE:
  assumes "paired cols w" and "l < length cols"
  obtains t v where "cols ! l = [Fingerprint (NewGPUAggregator t w), Series (NewTimeSeriesCollector v)]"
  using assms by (auto simp: paired_def all_set_conv_all_nth)

lemma paired_lanes:
  assumes "paired cols w"
  shows "(\<Sum>x\<in>lanes (map length cols). f x) = (\<Sum>l<length cols. f (l, 0) + f (l, 1))"
proof -
  have "(\<Sum>i<map length cols ! l. f (l, i)) = f (l, 0) + f (l, 1)" if l: "l < length cols" for l
  proof -
    have "length (cols ! l) = 2" by (rule pairedE [OF assms l]) simp
    then show ?thesis using l by (simp add: numeral_2_eq_2)
  qed
  then show ?thesis by (simp add: sum_lanes)
qed

text \<open>Windows come from the aggregators only, tokens from the time series only.\<close>

lemma paired_batches:
  assumes "paired cols w" and run: "runs b2s (map length cols) (start_agent cols) as a"
    and tr: "traced a (\<lambda>x. fst (lane_run b2s x as (start_agent cols))) ts pt"
    and fl: "\<And>x. fl x = fst (lane_run b2s x as (start_agent cols))"
    and bs: "bs = handed a @ eventCh a @ in_flight (map length cols) a"
  shows "batches_worth payload_usage p bs = (\<Sum>l<length cols. batches_worth payload_usage p (fl (l, 0)))"
    and "mset (series p bs) = (\<Sum>l<length cols. mset (series p (fl (l, 1))))"
proof -
  have all: "mset bs = (\<Sum>l<length cols. mset (fl (l, 0)) + mset (fl (l, 1)))"
    using agent_batches [OF run tr] by (simp add: bs fl paired_lanes [OF assms(1)])
  have kind: "batches_worth payload_usage p (fl (l, 1)) = 0 \<and> series p (fl (l, 0)) = []" if l: "l < length cols" for l
  proof -
    obtain t v where c: "cols ! l = [Fingerprint (NewGPUAggregator t w), Series (NewTimeSeriesCollector v)]"
      by (rule pairedE [OF assms(1) l])
    have "carries (cols ! l ! i) (ge_payload e)" if "b \<in> set (fl (l, i))" "e \<in> set (gb_batch b)" for i b e
      using run_carries that by (simp add: fl lane_run_def)
    from this [where i = 0] this [where i = 1] show ?thesis
      unfolding c nth_Cons_0 nth_Cons_Suc One_nat_def by (blast intro: other_kind)
  qed
  show "batches_worth payload_usage p bs = (\<Sum>l<length cols. batches_worth payload_usage p (fl (l, 0)))"
    unfolding batches_worth_mset [of payload_usage p bs] all
    using kind by (simp add: sum_mset_family flip: batches_worth_mset)
  show "mset (series p bs) = (\<Sum>l<length cols. mset (series p (fl (l, 1))))"
    unfolding series_mset [of p bs] all
    using kind by (simp add: sum_mset_family flip: series_mset)
qed

text \<open>Each collector has sent, holds in its window or buffer, or is still owed, what its reader has dispatched.\<close>

lemma paired_loader:
  assumes "paired cols w" and run: "runs b2s (map length cols) (start_agent cols) as a"
    and fit: "\<forall>x \<in> lanes (map length cols).
      ticks_fit (collector_Update b2s) collector_Flush collector_fits (lane_ops x as) (cols ! fst x ! snd x)"
    and tr: "traced a (\<lambda>x. fst (lane_run b2s x as (start_agent cols))) ts pt"
    and fl: "\<And>x. fl x = fst (lane_run b2s x as (start_agent cols))" and l: "l < length cols"
  shows "\<exists>ga tc. collector a (l, 0) = Fingerprint ga \<and> windowDuration ga = w \<and> collector a (l, 1) = Series tc \<and> (\<forall>p.
    batches_worth payload_usage p (fl (l, 0)) + (window_usage p ga + worth_of event_usage p (owed 0 (reader a l))) =
      worth_of event_usage p (dispatched l as) \<and>
    series p (fl (l, 1)) @ map token_shape (buffered tc p) @ event_series p (owed 1 (reader a l)) =
      event_series p (dispatched l as))"
proof -
  obtain t v where c: "cols ! l = [Fingerprint (NewGPUAggregator t w), Series (NewTimeSeriesCollector v)]"
    by (rule pairedE [OF assms(1) l])
  have x: "(l, 0) \<in> lanes (map length cols)" "(l, 1) \<in> lanes (map length cols)" using c l by (simp_all add: lanes_def)
  have split: "fl x = of_lane x ts @ pipe a pt x" for x using tr by (simp add: traced_def fl)
  have agg: "aggregates (collector a (l, 0)) \<and>
    batches_worth payload_usage p (fl (l, 0)) + collector_usage p (collector a (l, 0)) +
      worth_of event_usage p (owed 0 (reader a l)) =
    worth_of event_usage p (dispatched l as)" for p
    using lane_usage [OF run x(1) _ _ tr, of p] fit [rule_format, OF x(1)]
    by (simp add: split c NewGPUAggregator_def ga_inv_def window_usage_def)
  then obtain ga where ga: "collector a (l, 0) = Fingerprint ga" by (cases "collector a (l, 0)") auto
  moreover from this have "windowDuration ga = w"
    using runs_collector [OF run, of "(l, 0)"] run_duration [of b2s _ "NewGPUAggregator t w" ga]
    by (simp add: lane_run_def c NewGPUAggregator_def)
  moreover have ser: "\<exists>tc. collector a (l, 1) = Series tc \<and> (series p (fl (l, 1)) @ map token_shape (buffered tc p)) @
      event_series p (owed 1 (reader a l)) = event_series p (dispatched l as)" for p
    using lane_series [OF run x(2) _ _ tr, of "NewTimeSeriesCollector v" p] fit [rule_format, OF x(2)]
    by (simp add: split c buffered_def NewTimeSeriesCollector_def)
  moreover from this obtain tc where "collector a (l, 1) = Series tc" by blast
  ultimately show ?thesis using agg by (intro exI [of _ ga] exI [of _ tc]) (auto simp: add.assoc)
qed

lemma agent_reports:
  assumes "paired cols w" and run: "runs b2s (map length cols) (start_agent cols) as a"
    and fit: "\<forall>x \<in> lanes (map length cols).
      ticks_fit (collector_Update b2s) collector_Flush collector_fits (lane_ops x as) (cols ! fst x ! snd x)"
    and bs: "bs = handed a @ eventCh a @ in_flight (map length cols) a"
  shows "\<exists>ga tc. (\<forall>l < length cols. collector a (l, 0) = Fingerprint (ga l) \<and> windowDuration (ga l) = w \<and>
      collector a (l, 1) = Series (tc l)) \<and> (\<forall>p.
    batches_worth payload_usage p bs +
      (\<Sum>l<length cols. window_usage p (ga l) + worth_of event_usage p (owed 0 (reader a l))) =
      (\<Sum>l<length cols. worth_of event_usage p (dispatched l as)) \<and>
    mset (series p bs) +
      (\<Sum>l<length cols. mset (map token_shape (buffered (tc l) p) @ event_series p (owed 1 (reader a l)))) =
      (\<Sum>l<length cols. mset (event_series p (dispatched l as))))"
proof -
  obtain ts pt where tr: "traced a (\<lambda>x. fst (lane_run b2s x as (start_agent cols))) ts pt"
    using runs_traced [OF run] by blast
  define fl where "fl x = fst (lane_run b2s x as (start_agent cols))" for x
  note batches = paired_batches [OF assms(1) run tr fl_def bs]
  obtain ga tc where *: "\<forall>l < length cols. collector a (l, 0) = Fingerprint (ga l) \<and> windowDuration (ga l) = w \<and>
    collector a (l, 1) = Series (tc l) \<and> (\<forall>p.
    batches_worth payload_usage p (fl (l, 0)) + (window_usage p (ga l) + worth_of event_usage p (owed 0 (reader a l))) =
      worth_of event_usage p (dispatched l as) \<and>
    series p (fl (l, 1)) @ map token_shape (buffered (tc l) p) @ event_series p (owed 1 (reader a l)) =
      event_series p (dispatched l as))"
    using paired_loader [OF assms(1) run fit tr fl_def] by metis
  have "(\<Sum>l<length cols. mset (series p (fl (l, 1)))) +
      (\<Sum>l<length cols. mset (map token_shape (buffered (tc l) p) @ event_series p (owed 1 (reader a l)))) =
    (\<Sum>l<length cols. mset (event_series p (dispatched l as)))" for p
    unfolding sum.distrib [symmetric] mset_append [symmetric] using * by (intro sum.cong) auto
  moreover have "(\<Sum>l<length cols. batches_worth payload_usage p (fl (l, 0))) +
      (\<Sum>l<length cols. window_usage p (ga l) + worth_of event_usage p (owed 0 (reader a l))) =
    (\<Sum>l<length cols. worth_of event_usage p (dispatched l as))" for p
    unfolding sum.distrib [symmetric] using * by (intro sum.cong) (auto simp: sum.distrib)
  ultimately show ?thesis using * unfolding batches by (intro exI [of _ ga] exI [of _ tc]) simp
qed

section \<open>A sample execution\<close>

text \<open>The loader has read one of the two records of Concurrent\_System and given it to both collectors.\<close>

definition sample_config :: Programsconfig where
  "sample_config = \<lparr>EnableProbes = [''fingerprint''], ServerAdress = ''a'', Serverport = ''1'', PrometheusPort = [],
     Nodename = [], CudaLibraryPath = ''l'', TimeWindow = 2000000000\<rparr>"

lemma sample_loader:
  obtains ld where "main_loaders sample_env 0 sample_config (EnableProbes sample_config) = [ld]"
    "collectors ld = [Fingerprint (NewGPUAggregator 0 2000000000), Series (NewTimeSeriesCollector 5000000000)]"
proof -
  obtain ld where ld: "main_loaders sample_env 0 sample_config (EnableProbes sample_config) = [ld]"
    by (simp add: sample_config_def sample_env_def NewEbpfGpuLoaders_def LoaderFingerprint_def new_loader_eq Let_def)
  then have "ld \<in> set (main_loaders sample_env 0 sample_config (EnableProbes sample_config))" by simp
  from that [OF ld] main_loaders_collectors [OF this] show thesis by (simp add: sample_config_def)
qed

lemma sample_deployment:
  obtains ev a where
    "concurrent reference_kernel sample_offsets ref_inv ref_view (\<lambda>c. c) [2] entry_kernel (start_agent [[c, d]])
       [record_on 512 entry_kernel, record_on 256 second_cpu] {}
       [Enter 0, Turn 0 (ReadRecord (record_on 256 second_cpu)), Deliver (0, 0) 7 ev, Deliver (0, 1) 7 ev]
       (second_counted\<lparr>k_ring := [record_on 512 entry_kernel]\<rparr>)
       [0 \<mapsto> (42 * 2 ^ 32 + 43, CountLookup 42 UPROBE_HIT), 1 \<mapsto> (42 * 2 ^ 32 + 44, Finished 0)] a"
    "reader a 0 = ReaderSelect" "handed a = []" "eventCh a = []" "in_flight [2] a = []"
proof -
  let ?f = "record_on 256 second_cpu" and ?k = "second_counted\<lparr>k_ring := [record_on 512 entry_kernel]\<rparr>"
  let ?P = "[0 \<mapsto> (42 * 2 ^ 32 + 43, CountLookup 42 UPROBE_HIT), 1 \<mapsto> (42 * 2 ^ 32 + 44, Finished 0)]"
  let ?C = "concurrent reference_kernel sample_offsets ref_inv ref_view (\<lambda>c. c) [2] entry_kernel
    (start_agent [[c, d]]) [record_on 512 entry_kernel, ?f] {}"
  obtain ev where s: "?C [Enter 0, Turn 0 (ReadRecord ?f)] ?k ?P (taken [c, d] ev)"
    using two_cpus_taken [of "[c, d]" "\<lambda>c. c"] by (auto simp: numeral_2_eq_2)
  let ?up = "collector_Update (\<lambda>c. c) 7 ev"
  let ?a = "(taken [c, d] ev)\<lparr>collector := (collector (taken [c, d] ev))((0, 0) := ?up c),
    reader := (reader (taken [c, d] ev))(0 := Handing ev 1)\<rparr>"
  let ?b = "?a\<lparr>collector := (collector ?a)((0, 1) := ?up d), reader := (reader ?a)(0 := ReaderSelect)\<rparr>"
  from concurrent.agent [OF s, of "Deliver (0, 0) 7 ev" ?a]
  have "?C [Enter 0, Turn 0 (ReadRecord ?f), Deliver (0, 0) 7 ev] ?k ?P ?a"
    by (simp add: agent_step_def in_range_def lanes_def act_defs handing_def)
  from concurrent.agent [OF this, of "Deliver (0, 1) 7 ev" ?b]
  have "?C [Enter 0, Turn 0 (ReadRecord ?f), Deliver (0, 0) 7 ev, Deliver (0, 1) 7 ev] ?k ?P ?b"
    by (simp add: agent_step_def in_range_def lanes_def act_defs handing_def)
  from that [OF this] show thesis by (simp add: start_agent_def in_flight_def held_by_def)
qed

section \<open>Properties\<close>

text \<open>
  From the configuration to the server: for a loader that \<open>main\<close> creates, with the programs of all CPUs and all
  goroutines interleaved at single accesses, its aggregator (of the configured window) and its time series both
  report the activity of every process. The exact statistics of the windows sent, queued and in flight, with those
  of the open window, the event handed round and the records unread, add up to the usage of the records submitted;
  and the tokens sent, queued, in flight and buffered, with the same remainders, are the activities of those records.
\<close>

lemma deployed_loader_reports:
  assumes "bpf_concurrent H kinv view" and "ld \<in> set (main_loaders env now cfg (EnableProbes cfg))"
    and "concurrent H R kinv view b2s [2] k0 (start_agent [collectors ld]) recs ex as k P a"
    and "sys_inv (view k0)" and "v_ring (view k0) = []"
    and "\<forall>i < 2. ticks_fit (collector_Update b2s) collector_Flush collector_fits (lane_ops (0, i) as) (collectors ld ! i)"
  shows "\<exists>ga tc. collector a (0, 0) = Fingerprint ga \<and> windowDuration ga = TimeWindow cfg \<and>
    collector a (0, 1) = Series tc \<and> (\<forall>p.
      batches_worth payload_usage p (handed a @ eventCh a @ in_flight [2] a) + window_usage p ga +
        worth_of event_usage p (owed 0 (reader a 0)) + record_usage p (v_ring (view k)) =
      record_usage p recs \<and>
      mset (series p (handed a @ eventCh a @ in_flight [2] a) @ map token_shape (buffered tc p) @
        event_series p (owed 1 (reader a 0)) @ record_series p (v_ring (view k))) =
      mset (record_series p recs))"
proof -
  let ?all = "handed a @ eventCh a @ in_flight [2] a"
  have cs: "collectors ld = [Fingerprint (NewGPUAggregator now (TimeWindow cfg)),
      Series (NewTimeSeriesCollector 5000000000)]" using main_loaders_collectors [OF assms(2)] .
  note run = concurrent_runs [OF assms(3)]
  have two: "map length [collectors ld] = [2]" using cs by simp
  have one: "paired [collectors ld] (TimeWindow cfg)" using cs by (auto simp: paired_def)
  have fit: "\<forall>x \<in> lanes [2]. ticks_fit (collector_Update b2s) collector_Flush collector_fits (lane_ops x as)
      ([collectors ld] ! fst x ! snd x)" using assms(6) by (auto simp: lanes_def)
  have taken: "mset recs = mset (consumed as @ v_ring (view k))"
    using bpf_concurrent.concurrent_ring [OF assms(1,3,4)] assms(5) by simp
  note dd = dispatched_decoded [OF runs_in_range [OF run]]
  obtain ga tc where g: "collector a (0, 0) = Fingerprint ga" "windowDuration ga = TimeWindow cfg"
      "collector a (0, 1) = Series tc" and
    u: "\<And>p. batches_worth payload_usage p ?all + (window_usage p ga + worth_of event_usage p (owed 0 (reader a 0))) =
      worth_of event_usage p (dispatched 0 as)" and
    m: "\<And>p. mset (series p ?all) + mset (map token_shape (buffered tc p) @ event_series p (owed 1 (reader a 0))) =
      mset (event_series p (dispatched 0 as))"
    using agent_reports [OF one, unfolded two, OF run fit refl] by fastforce
  have "batches_worth payload_usage p ?all + window_usage p ga + worth_of event_usage p (owed 0 (reader a 0)) +
      record_usage p (v_ring (view k)) = record_usage p recs" for p
    using u [of p] record_usage_mset [OF taken, of p] dd by (simp add: record_usage_def add.assoc)
  moreover have "mset (series p ?all @ map token_shape (buffered tc p) @ event_series p (owed 1 (reader a 0)) @
      record_series p (v_ring (view k))) = mset (record_series p recs)" for p
    using m [of p] record_series_mset [OF taken, of p] dd by (simp add: record_series_def add.assoc [symmetric])
  ultimately show ?thesis using g by blast
qed

lemma deployed_loader_reports_witness:
  "\<exists>ld recs as k P a ga tc. main_loaders sample_env 0 sample_config (EnableProbes sample_config) = [ld] \<and>
    concurrent reference_kernel sample_offsets ref_inv ref_view (\<lambda>c. c) [2] entry_kernel (start_agent [collectors ld])
      recs {} as k P a \<and>
    collector a (0, 0) = Fingerprint ga \<and> windowDuration ga = 2000000000 \<and>
    bytes_allocated (window_usage 42 ga) = 256 \<and> collector a (0, 1) = Series tc \<and>
    mset (map token_shape (buffered tc 42) @ record_series 42 (v_ring (ref_view k))) = mset (record_series 42 recs)"
proof -
  let ?e = "record_on 512 entry_kernel" and ?f = "record_on 256 second_cpu"
  let ?k = "second_counted\<lparr>k_ring := [?e]\<rparr>" and ?cfg = sample_config
  let ?P = "[0 \<mapsto> (42 * 2 ^ 32 + 43, CountLookup 42 UPROBE_HIT), 1 \<mapsto> (42 * 2 ^ 32 + 44, Finished 0)]"
  obtain ld where ld: "main_loaders sample_env 0 ?cfg (EnableProbes ?cfg) = [ld]"
    "collectors ld = [Fingerprint (NewGPUAggregator 0 2000000000), Series (NewTimeSeriesCollector 5000000000)]"
    by (rule sample_loader)
  then have mem: "ld \<in> set (main_loaders sample_env 0 ?cfg (EnableProbes ?cfg))" by simp
  obtain ev a where s: "concurrent reference_kernel sample_offsets ref_inv ref_view (\<lambda>c. c) [2] entry_kernel
      (start_agent [collectors ld]) [?e, ?f] {}
      [Enter 0, Turn 0 (ReadRecord ?f), Deliver (0, 0) 7 ev, Deliver (0, 1) 7 ev] ?k ?P a"
    and idle: "reader a 0 = ReaderSelect" "handed a = []" "eventCh a = []" "in_flight [2] a = []"
    unfolding ld(2) by (rule sample_deployment [where c = "Fingerprint (NewGPUAggregator 0 2000000000)"
      and d = "Series (NewTimeSeriesCollector 5000000000)"]) blast
  let ?as = "[Enter 0, Turn 0 (ReadRecord ?f), Deliver (0, 0) 7 ev, Deliver (0, 1) 7 ev]"
  have "v_ring (ref_view entry_kernel) = []" by (simp add: entry_view)
  moreover have "\<forall>i < 2. ticks_fit (collector_Update (\<lambda>c. c)) collector_Flush collector_fits (lane_ops (0, i) ?as)
      (collectors ld ! i)" by (simp add: lane_ops_def)
  ultimately obtain ga tc where ga: "collector a (0, 0) = Fingerprint ga" "windowDuration ga = TimeWindow ?cfg" and
    tc: "collector a (0, 1) = Series tc" and
    acc: "\<forall>p. batches_worth payload_usage p (handed a @ eventCh a @ in_flight [2] a) + window_usage p ga +
        worth_of event_usage p (owed 0 (reader a 0)) + record_usage p (v_ring (ref_view ?k)) =
      record_usage p [?e, ?f] \<and>
      mset (series p (handed a @ eventCh a @ in_flight [2] a) @ map token_shape (buffered tc p) @
        event_series p (owed 1 (reader a 0)) @ record_series p (v_ring (ref_view ?k))) =
      mset (record_series p [?e, ?f])"
    using deployed_loader_reports [OF ck.bpf_concurrent_axioms mem s entry_sys_inv] by blast
  have ring: "v_ring (ref_view ?k) = [?e]" by (simp add: ref_view_def)
  note acc42 = acc [THEN spec, of 42, unfolded idle ring]
  have "window_usage 42 ga + cost (Allocated 512) = cost (Allocated 512) + cost (Allocated 256)"
    using acc42 two_usage record_on_usage [OF both_inv(1), of 512] by simp
  then have "bytes_allocated (window_usage 42 ga) = 256" by (auto simp: plus_usage_def)
  moreover have "mset (map token_shape (buffered tc 42) @ record_series 42 [?e]) = mset (record_series 42 [?e, ?f])"
    using acc42 by simp
  ultimately show ?thesis using ld(1) s ga tc
    by (intro exI [of _ ld] exI [of _ "[?e, ?f]"] exI [of _ ?as] exI [of _ ?k] exI [of _ ?P] exI [of _ a]
        exI [of _ ga] exI [of _ tc]) (simp add: ring sample_config_def)
qed

declare split_paired_All [simp]
declare split_paired_Ex [simp]

end
