(* ===== verification/Probe_Races.thy ===== *)
theory Probe_Races
  imports Probe_Interleaving
begin

text \<open>
  Thread exits that race with the counting of hits. \<open>handle_process_exit\<close> deletes the entry of the whole process
  whenever one of its threads ends, also between the lookup and the addition of \<open>add_to_counter\<close> on another CPU.
  The pointer that program holds is then stale: its addition is lost, or lands in an entry the map has created in
  the meantime in the same memory, of any process. Here such exits are interleaved too, which removes the assumption
  Probe\_Interleaving makes on them, and the hits that go astray are accounted for.
\<close>

section \<open>Executions\<close>

text \<open>The CPUs that hold a pointer into the entry of a process, and an addition through a stale one.\<close>

definition holders :: "u32 \<Rightarrow> cpus \<Rightarrow> nat set" where
  "holders pid P = {c. holds_entry pid (P c)}"

definition misses :: "u32 \<Rightarrow> kview \<Rightarrow> notice list \<Rightarrow> kview \<Rightarrow> bool" where
  "misses h v noted v' \<longleftrightarrow> (noted = [] \<and> v' = v) \<or>
     (\<exists>q l. v_watchdog v q = Some l \<and> noted = [Stray q h] \<and>
        v' = v\<lparr>v_watchdog := (v_watchdog v)(q \<mapsto> l[v_cpu v := hit h (l ! v_cpu v)])\<rparr>)"

text \<open>
  A transition as in \<open>cpu_step\<close>, by a CPU whose pointer is not stale; an exit, which makes the pointers into the
  entry it deletes stale; or an addition through a stale pointer. \<open>S\<close> are the CPUs with a stale pointer. Every hit that
  reaches an entry through one is noted with the process that receives it and its type.
\<close>

inductive racy_step ::
  "'k bpf \<Rightarrow> core_offsets \<Rightarrow> ('k \<Rightarrow> bool) \<Rightarrow> ('k \<Rightarrow> kview) \<Rightarrow> 'k \<Rightarrow> cpus \<Rightarrow> nat set \<Rightarrow>
    bytes list \<Rightarrow> u32 set \<Rightarrow> notice list \<Rightarrow> 'k \<Rightarrow> cpus \<Rightarrow> nat set \<Rightarrow> bool"
  for H R kinv view where
  orderly: "cpu_step H R kinv view s P new gone s' P' \<Longrightarrow> (\<And>c. c \<in> S \<Longrightarrow> P' c = P c) \<Longrightarrow>
    racy_step H R kinv view s P S new gone (notes_of H R view s P P') s' P' S"
| race: "P (v_cpu (view s)) = Some (v_pid_tgid (view s), Invoked ProcessExit) \<Longrightarrow>
    micro H R (Invoked ProcessExit) s = (pc', s') \<Longrightarrow>
    racy_step H R kinv view s P S [] {tgid_of (v_pid_tgid (view s))} [] s'
      (P(v_cpu (view s) \<mapsto> (v_pid_tgid (view s), pc'))) (S \<union> holders (tgid_of (v_pid_tgid (view s))) P)"
| astray: "P (v_cpu (view s)) = Some (v_pid_tgid (view s), CountAdd h p) \<Longrightarrow> v_cpu (view s) \<in> S \<Longrightarrow>
    kinv s' \<Longrightarrow> misses h (view s) noted (view s') \<Longrightarrow>
    racy_step H R kinv view s P S [] {} noted s'
      (P(v_cpu (view s) \<mapsto> (v_pid_tgid (view s), Finished 0))) (S - {v_cpu (view s)})"

inductive racing ::
  "'k bpf \<Rightarrow> core_offsets \<Rightarrow> ('k \<Rightarrow> bool) \<Rightarrow> ('k \<Rightarrow> kview) \<Rightarrow> 'k \<Rightarrow>
    bytes list \<Rightarrow> u32 set \<Rightarrow> notice list \<Rightarrow> 'k \<Rightarrow> cpus \<Rightarrow> nat set \<Rightarrow> bool"
  for H R kinv view s where
  boot: "kinv s \<Longrightarrow> racing H R kinv view s [] {} [] s Map.empty {}"
| cpu: "racing H R kinv view s log ex noted s1 P S \<Longrightarrow> racy_step H R kinv view s1 P S new gone off s2 P' S' \<Longrightarrow>
    racing H R kinv view s (log @ new) (ex \<union> gone) (noted @ off) s2 P' S'"
| consume: "racing H R kinv view s log ex noted s1 P S \<Longrightarrow> kinv s2 \<Longrightarrow> v_ring (view s1) = xs @ e # ys \<Longrightarrow>
    view s2 = (view s1)\<lparr>v_ring := xs @ ys\<rparr> \<Longrightarrow> racing H R kinv view s log ex noted s2 P S"

text \<open>The executions of Probe\_Interleaving are those in which no exit races.\<close>

lemma orderly_step:
  "cpu_step H R kinv view s P new gone s' P' \<Longrightarrow> racy_step H R kinv view s P {} new gone (notes_of H R view s P P') s' P' {}"
  by (erule racy_step.orderly) simp

lemma interleaved_racing:
  "interleaved H R kinv view s log ex s' P \<Longrightarrow> \<exists>noted. racing H R kinv view s log ex noted s' P {}"
  by (induction rule: interleaved.induct) (blast intro: racing.intros orderly_step)+

section \<open>The CPUs without a stale pointer\<close>

definition stale_ok :: "cpus \<Rightarrow> nat set \<Rightarrow> u32 set \<Rightarrow> bool" where
  "stale_ok P S ex \<longleftrightarrow> (\<forall>c \<in> S. \<exists>tid h p. P c = Some (tid, CountAdd h p) \<and> fst p \<in> ex)"

lemma holds_entry_add: "holds_entry pid x \<Longrightarrow> \<exists>tid h p. x = Some (tid, CountAdd h p) \<and> fst p = pid"
proof (cases x)
  case (Some y)
  moreover assume "holds_entry pid x"
  ultimately show ?thesis by (cases y; cases "snd y") (auto simp: holds_entry_def)
qed (simp add: holds_entry_def)

lemma restrict_upd: "c \<notin> S \<Longrightarrow> (P(c := x)) |` (- S) = (P |` (- S))(c := x)"
  by (auto simp: restrict_map_def fun_eq_iff)

lemma cpu_step_restrict:
  assumes "cpu_step H R kinv view s P new gone s' P'" and "\<And>c. c \<in> S \<Longrightarrow> P' c = P c" and "stale_ok P S ex"
  shows "cpu_step H R kinv view s (P |` (- S)) new gone s' (P' |` (- S))"
  using assms
proof (induction rule: cpu_step.induct)
  case (fire P s call)
  then have c: "v_cpu (view s) \<notin> S" by (auto simp: stale_ok_def)
  show ?case unfolding restrict_upd [OF c]
    by (rule cpu_step.fire) (use fire(1,2) c in \<open>auto simp: restrict_map_def\<close>)
next
  case (step P s pc pc' s')
  have c: "v_cpu (view s) \<notin> S"
  proof
    assume c: "v_cpu (view s) \<in> S"
    with step(5) obtain h p tid where "P (v_cpu (view s)) = Some (tid, CountAdd h p)" by (auto simp: stale_ok_def)
    with step(1) have "pc = CountAdd h p" by simp
    moreover from this have "pc' = CountAdd h p" using step(1) step(4) [OF c] by simp
    ultimately show False using step(3) by (simp split: if_splits)
  qed
  show ?case unfolding restrict_upd [OF c] by (rule cpu_step.step [OF _ step(2,3)]) (use step(1) c in simp)
next
  case (exit P s pc' s')
  have c: "v_cpu (view s) \<notin> S" using exit(1,5) by (auto simp: stale_ok_def)
  have "\<not> holds_entry (tgid_of (v_pid_tgid (view s))) ((P |` (- S)) c)" for c
    using exit(2) by (cases "c \<in> S") (auto simp: holds_entry_def)
  then show ?case unfolding restrict_upd [OF c] by (intro cpu_step.exit [OF _ _ exit(3)]) (use exit(1) c in simp_all)
next
  case (leave P c tid r s)
  then have c: "c \<notin> S" by (auto simp: stale_ok_def)
  show ?case unfolding restrict_upd [OF c] by (rule cpu_step.leave) (use leave(1) c in simp)
next
  case (switch s' s P)
  then show ?case by (blast intro: cpu_step.switch)
qed

lemma notes_of_restrict:
  "(\<And>c. c \<in> S \<Longrightarrow> P' c = P c) \<Longrightarrow> notes_of H R view s (P |` (- S)) (P' |` (- S)) = notes_of H R view s P P'"
  by (auto simp: notes_of_def restrict_map_def Let_def)

lemma notes_of_exit:
  "P (v_cpu (view s)) = Some (tid, Invoked call) \<Longrightarrow> notes_of H R view s (P |` (- S)) P' = []"
  by (auto simp: notes_of_def restrict_map_def Let_def)

lemma strayed_notes_of: "strayed h pid (notes_of H R view s P P') = 0"
  by (auto simp: notes_of_def step_notes_def strayed_def Let_def split: option.splits pc.splits)

lemma stale_ok_mono: "stale_ok P S ex \<Longrightarrow> (\<And>c. c \<in> S \<Longrightarrow> P' c = P c) \<Longrightarrow> ex \<subseteq> ex' \<Longrightarrow> stale_ok P' S ex'"
  unfolding stale_ok_def by (metis subsetD)

lemma cpus_ok_subset: "cpus_ok v P \<Longrightarrow> P' \<subseteq>\<^sub>m P \<Longrightarrow> cpus_ok v P'"
  by (auto simp: cpus_ok_def map_le_def dom_def)

text \<open>A racing exit is, for the CPUs that remain, an exit that nobody races with.\<close>

lemma race_orderly:
  assumes "P (v_cpu (view s)) = Some (v_pid_tgid (view s), Invoked ProcessExit)" and "stale_ok P S ex"
    and "micro H R (Invoked ProcessExit) s = (pc', s')" and "S' = S \<union> holders (tgid_of (v_pid_tgid (view s))) P"
  shows "cpu_step H R kinv view s (P |` (- S')) [] {tgid_of (v_pid_tgid (view s))} s'
    ((P(v_cpu (view s) \<mapsto> (v_pid_tgid (view s), pc'))) |` (- S'))"
proof -
  have c: "v_cpu (view s) \<notin> S'"
    using assms(1,2,4) by (auto simp: stale_ok_def holders_def holds_entry_def)
  have "\<not> holds_entry (tgid_of (v_pid_tgid (view s))) ((P |` (- S')) c)" for c
    using assms(4) by (auto simp: holders_def restrict_map_def holds_entry_def)
  then show ?thesis unfolding restrict_upd [OF c] by (intro cpu_step.exit [OF _ _ assms(3)]) (use assms(1) c in simp_all)
qed

lemma race_stale:
  assumes "stale_ok P S ex" and "P (v_cpu (view s)) = Some (v_pid_tgid (view s), Invoked ProcessExit)"
  shows "stale_ok (P(v_cpu (view s) \<mapsto> (v_pid_tgid (view s), pc'))) (S \<union> holders pid P) (insert pid ex)"
  using assms by (fastforce simp: stale_ok_def holders_def dest!: holds_entry_add)

section \<open>Every transition\<close>

definition racy_ok :: "kview \<Rightarrow> cpus \<Rightarrow> nat set \<Rightarrow> u32 set \<Rightarrow> bool" where
  "racy_ok v P S ex \<longleftrightarrow> sys_inv v \<and> cpus_ok v (P |` (- S)) \<and> stale_ok P S ex"

lemma misses_frame:
  assumes "misses h v noted v'" and "sys_inv v"
  shows "sys_inv v' \<and> v_ring v' = v_ring v \<and> v_ncpu v' = v_ncpu v \<and> v_clock v' = v_clock v \<and>
    (\<forall>p. v_watchdog v p \<noteq> None \<longrightarrow> v_watchdog v' p \<noteq> None)"
proof -
  have "sys_inv (v\<lparr>v_watchdog := (v_watchdog v)(q \<mapsto> l[v_cpu v := hit h (l ! v_cpu v)])\<rparr>)"
    if "v_watchdog v q = Some l" for q l
  proof -
    have "stamped (v_clock v) l" using assms(2) that by (simp add: sys_inv_def)
    then show ?thesis by (intro sys_inv_entry [OF assms(2)] stamped_hit)
  qed
  then show ?thesis using assms by (auto simp: misses_def)
qed

lemma misses_total:
  assumes "misses h v noted v'" and "\<And>p l. v_watchdog v p = Some l \<Longrightarrow> v_cpu v < length l"
    and "h' = UPROBE_HIT \<or> h' = IOCTL_HIT"
  shows "hit_total h' v' pid = hit_total h' v pid + of_nat (strayed h' pid noted)"
    and "lost h' pid noted = 0" and "due h' pid [] noted = 0"
  using assms hit_total_hit [of v _ _ "v_cpu v" h' h pid]
  by (auto simp: misses_def strayed_def lost_def due_def)

context bpf_concurrent
begin

lemma racy_step_inv:
  assumes "racy_step H R kinv view s P S new gone off s' P' S'" and "kinv s" "racy_ok (view s) P S ex"
  shows "kinv s' \<and> racy_ok (view s') P' S' (ex \<union> gone) \<and> v_ncpu (view s') = v_ncpu (view s) \<and>
    v_ring (view s') = v_ring (view s) @ new"
  using assms
proof (induction rule: racy_step.induct)
  case (orderly s P new gone s' P' S)
  have "cpu_step H R kinv view s (P |` (- S)) new gone s' (P' |` (- S))"
    using cpu_step_restrict [OF orderly(1,2)] orderly(4) by (auto simp: racy_ok_def)
  from cpu_step_inv [OF this orderly(3)] orderly(4) stale_ok_mono [of P S ex P' "ex \<union> gone"] orderly(2)
  show ?case by (simp add: racy_ok_def)
next
  case (race P s pc' s' S)
  let ?S = "S \<union> holders (tgid_of (v_pid_tgid (view s))) P"
  have st: "stale_ok P S ex" and inv: "sys_inv (view s)" using race(4) by (auto simp: racy_ok_def)
  have "P |` (- ?S) \<subseteq>\<^sub>m P |` (- S)" by (auto simp: map_le_def restrict_map_def)
  then have ok: "cpus_ok (view s) (P |` (- ?S))" using cpus_ok_subset race(4) by (auto simp: racy_ok_def)
  note drop = race_orderly [where view = view and kinv = kinv and s = s and P = P and S = S and S' = ?S, OF race(1) st race(2) refl]
  have "stale_ok (P(v_cpu (view s) \<mapsto> (v_pid_tgid (view s), pc'))) ?S (ex \<union> {tgid_of (v_pid_tgid (view s))})"
    using race_stale [where view = view and s = s and P = P, OF st race(1)] by (simp only: Un_insert_right Un_empty_right)
  with cpu_step_inv [OF drop race(3) inv ok] show ?case unfolding racy_ok_def by blast
next
  case (astray P s h p S s' noted)
  note fr = misses_frame [OF astray(4)]
  have "sys_inv (view s)" using astray(6) by (simp add: racy_ok_def)
  note fr = fr [OF this]
  let ?c = "v_cpu (view s)"
  have "cpus_ok (view s') (P |` (- S))"
    by (rule cpus_ok_mono [of "view s"]) (use astray(6) fr in \<open>auto simp: racy_ok_def\<close>)
  then have "cpus_ok (view s') ((P(?c \<mapsto> (v_pid_tgid (view s), Finished 0))) |` (- (S - {?c})))"
    using cpu_in_range [OF astray(5)] fr by (auto simp: cpus_ok_def restrict_map_def split: if_splits)
  moreover have "stale_ok (P(?c \<mapsto> (v_pid_tgid (view s), Finished 0))) (S - {?c}) ex"
    using astray(6) by (auto simp: racy_ok_def stale_ok_def)
  ultimately show ?case using astray(3) fr unfolding racy_ok_def Un_empty_right append_Nil2 by blast
qed

lemma racing_inv:
  assumes "racing H R kinv view s log ex noted s' P S" and "sys_inv (view s)"
  shows "kinv s' \<and> racy_ok (view s') P S ex \<and> v_ncpu (view s') = v_ncpu (view s)"
  using assms(1)
proof (induction rule: racing.induct)
  case boot
  then show ?case using assms(2) by (simp add: racy_ok_def cpus_ok_def stale_ok_def)
next
  case (cpu log ex noted s1 P S new gone off s2 P' S')
  with racy_step_inv [OF cpu(2), of ex] show ?case by simp
next
  case (consume log ex noted s1 P S s2 xs e ys)
  have "cpus_ok (view s2) (P |` (- S))"
    by (rule cpus_ok_mono [of "view s1"]) (use consume in \<open>auto simp: racy_ok_def\<close>)
  with consume show ?case by (auto simp: racy_ok_def sys_inv_def)
qed

text \<open>The hits of a process none of whose threads exits: its own, still to be counted, dropped, and astray.\<close>

lemma owed_hits_drop:
  assumes "\<And>c. c \<in> S \<Longrightarrow> (case P c of None \<Rightarrow> 0 | Some (_, pc) \<Rightarrow> owed_hit h pid pc) = 0"
  shows "owed_hits h n pid (P |` (- S)) = owed_hits h n pid P"
  unfolding owed_hits_def by (rule sum.cong) (use assms in \<open>auto simp: restrict_map_def\<close>)

lemma stale_owed:
  assumes "stale_ok P S ex" and "pid \<notin> ex"
  shows "owed_hits h n pid (P |` (- S)) = owed_hits h n pid P"
  by (rule owed_hits_drop) (use assms in \<open>fastforce simp: stale_ok_def\<close>)

text \<open>
  A transition is an orderly one of the CPUs without a stale pointer, which owe all that is owed to a process with an
  entry; or an addition through a stale pointer, which owes nothing to any such process.
\<close>

lemma racy_step_split:
  assumes "racy_step H R kinv view s P S new gone off s' P' S'" and "kinv s" "racy_ok (view s) P S ex"
  obtains (orderly) Q Q' where "off = notes_of H R view s Q Q'" "cpu_step H R kinv view s Q new gone s' Q'" "cpus_ok (view s) Q"
      "\<And>h n pid. pid \<notin> ex \<union> gone \<Longrightarrow> owed_hits h n pid P = owed_hits h n pid Q \<and> owed_hits h n pid P' = owed_hits h n pid Q'"
    | (astray) h' where "new = []" "gone = {}" "misses h' (view s) off (view s')"
      "\<And>h pid. pid \<notin> ex \<Longrightarrow> owed_hits h (v_ncpu (view s)) pid P' = owed_hits h (v_ncpu (view s)) pid P"
  using assms
proof (cases rule: racy_step.cases)
  case orderly
  have st: "stale_ok P S ex" "stale_ok P' S ex"
    using orderly(4) assms(3) stale_ok_mono [of P S ex P' ex] by (auto simp: racy_ok_def)
  have "cpu_step H R kinv view s (P |` (- S)) new gone s' (P' |` (- S))"
    using cpu_step_restrict [OF orderly(3,4) st(1)] by simp
  moreover have "off = notes_of H R view s (P |` (- S)) (P' |` (- S))"
    using orderly(1) by (simp add: notes_of_restrict [OF orderly(4)])
  ultimately
  show ?thesis using that(1) assms(3) stale_owed [OF st(1)] stale_owed [OF st(2)]
    by (simp add: racy_ok_def)
next
  case (race pc')
  let ?g = "tgid_of (v_pid_tgid (view s))"
  let ?S = "S \<union> holders ?g P" and ?P = "P(v_cpu (view s) \<mapsto> (v_pid_tgid (view s), pc'))" and ?ex = "insert ?g ex"
  have st: "stale_ok P S ex" using assms(3) by (auto simp: racy_ok_def)
  note st' = race_stale [where view = view and s = s and P = P, OF st race(6)]
  have "P |` (- ?S) \<subseteq>\<^sub>m P |` (- S)" by (auto simp: map_le_def restrict_map_def)
  then have ok: "cpus_ok (view s) (P |` (- ?S))" using cpus_ok_subset assms(3) by (auto simp: racy_ok_def)
  note drop = race_orderly [where view = view and kinv = kinv and s = s and P = P and S = S and S' = ?S, OF race(6) st race(7) refl]
  have sP: "stale_ok P ?S ?ex" using st by (fastforce simp: stale_ok_def holders_def dest!: holds_entry_add)
  have "owed_hits h n pid P = owed_hits h n pid (P |` (- ?S)) \<and> owed_hits h n pid P' = owed_hits h n pid (?P |` (- ?S))"
    if "pid \<notin> ex \<union> gone" for h n pid
  proof -
    have "pid \<notin> ?ex" using that race(2) by simp
    from stale_owed [OF sP this] stale_owed [OF st' this] race(4) show ?thesis by (simp add: fun_upd_def)
  qed
  note owed = this
  have off: "off = notes_of H R view s (P |` (- ?S)) (?P |` (- ?S))"
    unfolding race(3) by (rule notes_of_exit [where P = P and view = view, OF race(6), symmetric])
  show ?thesis
    by (rule that(1) [OF off _ ok owed]) (use drop race(1,2) in simp_all)
next
  case (astray h p)
  let ?P = "P(v_cpu (view s) \<mapsto> (v_pid_tgid (view s), Finished 0))"
  have p: "fst p \<in> ex" using astray(5,6) assms(3) by (fastforce simp: racy_ok_def stale_ok_def)
  have "owed_hits h (v_ncpu (view s)) pid P' = owed_hits h (v_ncpu (view s)) pid P" if "pid \<notin> ex" for h pid
    using owed_hits_upd [OF cpu_in_range [OF assms(2)], of h pid P "Some (v_pid_tgid (view s), Finished 0)"]
      astray(3,5) p that by (auto split: if_splits)
  from that(2) [OF astray(1,2,8) this] show ?thesis .
qed

lemma racy_step_live:
  assumes "racy_step H R kinv view s P S new gone off s' P' S'" and "kinv s" "racy_ok (view s) P S ex"
    and "v_watchdog (view s) pid \<noteq> None" and "pid \<notin> ex \<union> gone"
  shows "v_watchdog (view s') pid \<noteq> None \<and> lost h pid off = 0"
proof (rule racy_step_split [OF assms(1-3)], goal_cases)
  case (1 Q Q')
  have "sys_inv (view s)" using assms(3) by (simp add: racy_ok_def)
  from cpu_step_live [OF 1(2) assms(2) this 1(3) assms(4)] 1(1) assms(5) show ?case by simp
next
  case (2 h')
  then show ?case using misses_frame [OF 2(3)] assms(3,4) by (auto simp: racy_ok_def misses_def lost_def)
qed

lemma racy_step_total:
  assumes "racy_step H R kinv view s P S new gone off s' P' S'" and "kinv s" "racy_ok (view s) P S ex"
    and "pid \<notin> ex \<union> gone" and "v_ncpu (view s) = n" and h: "h = UPROBE_HIT \<or> h = IOCTL_HIT"
  shows "hit_total h (view s') pid + of_nat (owed_hits h n pid P') + of_nat (lost h pid off) =
    hit_total h (view s) pid + of_nat (owed_hits h n pid P) + of_nat (due h pid new off) + of_nat (strayed h pid off)"
proof (rule racy_step_split [OF assms(1-3)], goal_cases)
  case (1 Q Q')
  have "sys_inv (view s)" using assms(3) by (simp add: racy_ok_def)
  from cpu_step_total [OF 1(2) assms(2) this 1(3) _ assms(5) h, of pid] 1(4) [OF assms(4)] 1(1) assms(4)
  show ?case by (simp add: strayed_notes_of)
next
  case (2 h')
  have "v_cpu (view s) < length l" if "v_watchdog (view s) p = Some l" for p l
    using percpu_length [OF assms(2) that] cpu_in_range [OF assms(2)] by simp
  note m = misses_total [OF 2(3) this h, where pid = pid]
  show ?case using m 2(1,4) assms(4,5) by simp
qed

lemma racing_total:
  assumes "racing H R kinv view s log ex noted s' P S" and inv: "sys_inv (view s)"
    and "pid \<notin> ex" and h: "h = UPROBE_HIT \<or> h = IOCTL_HIT"
  shows "hit_total h (view s') pid + of_nat (owed_hits h (v_ncpu (view s)) pid P) + of_nat (lost h pid noted) =
    hit_total h (view s) pid + of_nat (due h pid log noted) + of_nat (strayed h pid noted)"
  using assms(1,3)
proof (induction rule: racing.induct)
  case boot
  then show ?case by (simp add: owed_hits_def)
next
  case (cpu log ex noted s1 P S new gone off s2 P' S')
  have i: "kinv s1" "racy_ok (view s1) P S ex" "v_ncpu (view s1) = v_ncpu (view s)"
    using racing_inv [OF cpu(1) inv] by auto
  from racy_step_total [OF cpu(2) i(1,2) _ i(3) h, of pid] cpu.IH cpu.prems show ?case
    by (simp add: algebra_simps)
next
  case (consume log ex noted s1 P S s2 xs e ys)
  then show ?case using hit_total_cong [of "view s2" pid "view s1" h] by simp
qed

text \<open>No hit of a process with an entry is dropped.\<close>

lemma racing_live:
  assumes "racing H R kinv view s log ex noted s' P S" and inv: "sys_inv (view s)"
    and "v_watchdog (view s) pid \<noteq> None" and "pid \<notin> ex"
  shows "v_watchdog (view s') pid \<noteq> None \<and> lost h pid noted = 0"
  using assms(1,4)
proof (induction rule: racing.induct)
  case boot
  then show ?case using assms(3) by simp
next
  case (cpu log ex noted s1 P S new gone off s2 P' S')
  from racy_step_live [OF cpu(2), of ex pid h] racing_inv [OF cpu(1) inv] cpu.IH cpu.prems show ?case by simp
next
  case (consume log ex noted s1 P S s2 xs e ys)
  then show ?case by simp
qed

end

section \<open>A stray hit\<close>

text \<open>
  Processes 42 and 7 have entries. A thread of process 42 allocates on CPU 0 and is about to count the hit when
  another thread of it exits on CPU 1; the hit is counted for process 7.
\<close>

lemma racing_run:
  assumes "cpu_run H R kinv view s1 P new gone off s2 P'" and "racing H R kinv view s log ex noted s1 P {}"
  shows "racing H R kinv view s (log @ new) (ex \<union> gone) (noted @ off) s2 P' {}"
  using assms
proof (induction rule: cpu_run.induct)
  case (more new gone off s3 P3 new' gone' s4 P4)
  from racing.cpu [OF more.IH [OF more.prems] orderly_step [OF more(2)]] show ?case by (simp add: Un_assoc)
qed simp

definition first_slot :: "ioctl_watchdog_event_t list" where
  "first_slot = [zero_watchdog\<lparr>first_seen_time := 900\<rparr>, zero_watchdog]"

definition race_kernel :: kstate where
  "race_kernel = sample_kernel\<lparr>k_watchdog := [(42, first_slot), (7, first_slot)]\<rparr>"

definition race_submitted :: kstate where
  "race_submitted = race_kernel\<lparr>k_ring := [record_on 512 race_kernel]\<rparr>"

definition race_exiting :: kstate where
  "race_exiting = race_submitted\<lparr>k_cpu := 1, k_pid_tgid := 42 * 2 ^ 32 + 44\<rparr>"

definition race_exited :: kstate where
  "race_exited = race_exiting\<lparr>k_watchdog := [(7, first_slot)]\<rparr>"

definition race_back :: kstate where
  "race_back = race_exited\<lparr>k_cpu := 0, k_pid_tgid := 42 * 2 ^ 32 + 43\<rparr>"

definition race_stray :: kstate where
  "race_stray = race_back\<lparr>k_watchdog :=
     [(7, [zero_watchdog\<lparr>first_seen_time := 900, uprobe_hit_count := 1\<rparr>, zero_watchdog])]\<rparr>"

lemmas race_defs = race_stray_def race_back_def race_exited_def race_exiting_def race_submitted_def race_kernel_def
  sample_kernel_def

lemma race_inv [simp]: "ref_inv race_kernel" "ref_inv race_submitted" "ref_inv race_exiting" "ref_inv race_exited"
  "ref_inv race_back" "ref_inv race_stray"
  by (simp_all add: race_defs ref_inv_def first_slot_def)

lemma race_sys_inv: "sys_inv (ref_view race_kernel)"
proof -
  have "stamped 1000 first_slot"
    unfolding stamped_def first_slot_def by (rule exI [of _ 0]) (auto simp: zero_watchdog_def intro: exI [of _ "900 :: u64"])
  then show ?thesis by (simp add: sys_inv_def ref_view_def race_defs)
qed

lemma race_micro:
  "micro reference_kernel R (Invoked (MemAlloc 0 512)) race_kernel = (Submit 42 (record_on 512 race_kernel), race_kernel)"
  "micro reference_kernel R (Submit 42 (record_on 512 race_kernel)) race_kernel = (CountLookup 42 UPROBE_HIT, race_submitted)"
  "micro reference_kernel R (CountLookup 42 UPROBE_HIT) race_submitted = (CountAdd UPROBE_HIT (42, 0), race_submitted)"
  "micro reference_kernel R (Invoked ProcessExit) race_exiting = (Finished 0, race_exited)"
proof -
  have pid: "tgid_of (k_pid_tgid race_kernel) = 42" by (simp add: race_defs)
  have "ring_used (k_ring race_kernel) + record_cost 168 \<le> gpu_ringbuf_max_entries"
    by (simp add: race_defs ring_used_def record_cost_def align_up_def gpu_ringbuf_max_entries_def)
  then show "micro reference_kernel R (Invoked (MemAlloc 0 512)) race_kernel = (Submit 42 (record_on 512 race_kernel), race_kernel)"
    using pid by (simp add: reserve_fill_def event_layout record_on_def)
      (simp add: reference_kernel_def ref_ringbuf_reserve_def)
qed (simp_all add: reference_kernel_def race_defs)

lemma stray_run:
  "racing reference_kernel sample_offsets ref_inv ref_view race_kernel [record_on 512 race_kernel] {42} [Stray 7 UPROBE_HIT]
     race_stray [0 \<mapsto> (42 * 2 ^ 32 + 43, Finished 0), 1 \<mapsto> (42 * 2 ^ 32 + 44, Finished 0)] {}"
proof -
  let ?t = "42 * 2 ^ 32 + 43 :: u64" and ?u = "42 * 2 ^ 32 + 44 :: u64" and ?e = "record_on 512 race_kernel"
  let ?run = "cpu_run reference_kernel sample_offsets ref_inv ref_view race_kernel Map.empty"
  let ?R = "racing reference_kernel sample_offsets ref_inv ref_view race_kernel [?e]"
  let ?P = "[0 \<mapsto> (?t, CountAdd UPROBE_HIT (42, 0))]"
  have v: "v_cpu (ref_view race_kernel) = 0" "v_pid_tgid (ref_view race_kernel) = ?t"
    "v_cpu (ref_view race_submitted) = 0" "v_pid_tgid (ref_view race_submitted) = ?t"
    "v_cpu (ref_view race_exiting) = 1" "v_pid_tgid (ref_view race_exiting) = ?u"
    "v_cpu (ref_view race_exited) = 1"
    "v_cpu (ref_view race_back) = 0" "v_pid_tgid (ref_view race_back) = ?t"
    "v_ring (ref_view race_kernel) = []" "v_ring (ref_view race_submitted) = [?e]"
    by (simp_all add: race_defs ref_view_def)
  have "?run [] {} [] race_kernel Map.empty" by (rule cpu_run.none)
  from cpu_run.more [OF this cpu_step.fire, of "MemAlloc 0 512"]
  have "?run [] {} [] race_kernel [0 \<mapsto> (?t, Invoked (MemAlloc 0 512))]" by (simp add: v notes_of_def)
  from cpu_run.more [OF this cpu_step.step [OF _ _ race_micro(1)]]
  have "?run [] {} [] race_kernel [0 \<mapsto> (?t, Submit 42 ?e)]" by (simp add: v notes_of_def)
  from cpu_run.more [OF this cpu_step.step [OF _ _ race_micro(2)]]
  have "?run [?e] {} [] race_submitted [0 \<mapsto> (?t, CountLookup 42 UPROBE_HIT)]" by (simp add: v notes_of_def)
  from cpu_run.more [OF this cpu_step.step [OF _ _ race_micro(3)]]
  have "?run [?e] {} [] race_submitted ?P" by (simp add: v notes_of_def)
  from cpu_run.more [OF this cpu_step.switch [where view = ref_view and kinv = ref_inv, OF race_inv(3)]]
  have "?run [?e] {} [] race_exiting ?P"
    by (simp add: switched_def ref_view_def race_exiting_def notes_of_def)
  from cpu_run.more [OF this cpu_step.fire, of ProcessExit]
  have "?run [?e] {} [] race_exiting (?P(1 \<mapsto> (?u, Invoked ProcessExit)))"
    by (simp add: v notes_of_def)
  from racing_run [OF this racing.boot [where kinv = ref_inv, OF race_inv(1)]]
  have "?R {} [] race_exiting (?P(1 \<mapsto> (?u, Invoked ProcessExit))) {}" by simp
  moreover have "holders 42 (?P(1 \<mapsto> (?u, Invoked ProcessExit))) = {0}"
    by (auto simp: holders_def holds_entry_def)
  ultimately have "?R {42} [] race_exited (?P(1 \<mapsto> (?u, Finished 0))) {0}"
    using racing.cpu [OF _ racy_step.race [where view = ref_view and kinv = ref_inv, OF _ race_micro(4)]]
    by (fastforce simp: v)
  from racing.cpu [OF this racy_step.orderly [OF cpu_step.switch [where view = ref_view and kinv = ref_inv, OF race_inv(5)]]]
  have gone_back: "?R {42} [] race_back (?P(1 \<mapsto> (?u, Finished 0))) {0}"
    by (simp add: switched_def ref_view_def race_back_def notes_of_def)
  have "misses UPROBE_HIT (ref_view race_back) [Stray 7 UPROBE_HIT] (ref_view race_stray)"
    unfolding misses_def by (rule disjI2, rule exI [of _ 7], rule exI [of _ first_slot])
      (auto simp: race_defs ref_view_def hit_def first_slot_def zero_watchdog_def fun_eq_iff)
  from racing.cpu [OF gone_back racy_step.astray [where view = ref_view and kinv = ref_inv and s = race_back, OF _ _ race_inv(6) this]]
  show ?thesis by (simp add: v fun_upd_twist)
qed

section \<open>Properties\<close>

text \<open>
  C3: Programs on several CPUs and thread exits at any moment, also between the lookup and the addition of another
  program of the process: all unread records still decode to sensible events, and for every process none of whose
  threads exited and both counters, the hits counted, still to be counted and dropped are exactly those the process is
  due (a uprobe hit per record submitted for it, an ioctl hit per ioctl on a compute device) and those of exiting
  processes that went astray to it; and no hit of a process that had an entry is dropped.
\<close>

lemma racing_hits_account:
  assumes "bpf_concurrent H kinv view" and "racing H R kinv view s recs ex noted s' P S" and "sys_inv (view s)"
  shows "sys_inv (view s') \<and>
    (\<forall>pid. pid \<notin> ex \<longrightarrow> (\<forall>h \<in> {UPROBE_HIT, IOCTL_HIT}.
      hit_total h (view s') pid + of_nat (owed_hits h (v_ncpu (view s)) pid P) + of_nat (lost h pid noted) =
      hit_total h (view s) pid + of_nat (due h pid recs noted) + of_nat (strayed h pid noted) \<and>
      (v_watchdog (view s) pid \<noteq> None \<longrightarrow> lost h pid noted = 0)))"
  using bpf_concurrent.racing_inv [OF assms] bpf_concurrent.racing_total [OF assms] bpf_concurrent.racing_live [OF assms]
  by (simp add: racy_ok_def)

lemma racing_hits_account_witness:
  "\<exists>recs noted s' P. racing reference_kernel sample_offsets ref_inv ref_view race_kernel recs {42} noted s' P {} \<and>
     due UPROBE_HIT 7 recs noted = 0 \<and> strayed UPROBE_HIT 7 noted = 1 \<and> uprobe_total (ref_view s') 7 = 1"
proof -
  let ?P = "[0 \<mapsto> (42 * 2 ^ 32 + 43, Finished 0), 1 \<mapsto> (42 * 2 ^ 32 + 44, Finished 0)]"
  let ?recs = "[record_on 512 race_kernel]" and ?noted = "[Stray 7 UPROBE_HIT]"
  have "record_pid (record_on 512 race_kernel) = 42" using record_on_ok [OF race_inv(1)] by simp
  then have none: "due UPROBE_HIT 7 ?recs ?noted = 0" by (simp add: due_def records_of_def)
  have "owed_hits UPROBE_HIT 2 7 ?P = 0" by (simp add: owed_hits_def numeral_2_eq_2)
  moreover have "hit_total UPROBE_HIT (ref_view race_kernel) 7 = 0"
    by (simp add: hit_total_def uprobe_total_def ref_view_def race_defs first_slot_def zero_watchdog_def)
  moreover have "v_watchdog (ref_view race_kernel) 7 \<noteq> None" "v_ncpu (ref_view race_kernel) = 2"
    by (simp_all add: ref_view_def race_defs)
  moreover have one: "strayed UPROBE_HIT 7 ?noted = 1" by (simp add: strayed_def)
  moreover note conjunct2 [OF racing_hits_account [OF ck.bpf_concurrent_axioms stray_run race_sys_inv],
      rule_format, of 7 UPROBE_HIT]
  ultimately have "hit_total UPROBE_HIT (ref_view race_stray) 7 = 1" using none by auto
  then have "uprobe_total (ref_view race_stray) 7 = 1" by (simp add: hit_total_def)
  with none one stray_run show ?thesis by blast
qed

end
