(* ===== verification/Many_Loaders.thy ===== *)
theory Many_Loaders
  imports Deployment Probe_Races
begin

text \<open>
  The whole agent as \<open>main\<close> starts it: any number of loaders, each with kernel objects of its own (\<open>NewGpuprinterLoader\<close>
  loads the programs and creates the maps and the ring buffer anew for each), and the goroutines of all of them, which
  share the collectors' pipeline and the client. The programs are interleaved at single accesses, exits race with them,
  and everything the agent reports is accounted for together.
\<close>

declare split_paired_All [simp del]
declare split_paired_Ex [simp del]

section \<open>Executions\<close>

text \<open>The kernel side of one loader, with what its programs have done so far.\<close>

record 'k site =
  kernel :: 'k
  progs :: cpus
  stale :: "nat set"
  site_log :: "bytes list"
  exited :: "u32 set"
  noted :: "notice list"

definition booted :: "'k \<Rightarrow> 'k site" where
  "booted k = \<lparr>kernel = k, progs = Map.empty, stale = {}, site_log = [], exited = {}, noted = []\<rparr>"

text \<open>
  A program of any loader makes a transition as in \<open>racy_step\<close>, the reader of any loader takes a record out of the ring
  of that loader, or any other goroutine acts.
\<close>

inductive fleet ::
  "'k bpf \<Rightarrow> core_offsets \<Rightarrow> ('k \<Rightarrow> bool) \<Rightarrow> ('k \<Rightarrow> kview) \<Rightarrow> (bytes \<Rightarrow> bytes) \<Rightarrow> topology \<Rightarrow> (nat \<Rightarrow> 'k) \<Rightarrow> agent \<Rightarrow>
    (nat \<Rightarrow> 'k site) \<Rightarrow> action list \<Rightarrow> agent \<Rightarrow> bool"
  for H R kinv view b2s topo k0 a0 where
  boot: "(\<And>l. kinv (k0 l)) \<Longrightarrow> fleet H R kinv view b2s topo k0 a0 (\<lambda>l. booted (k0 l)) [] a0"
| cpu: "fleet H R kinv view b2s topo k0 a0 X as a \<Longrightarrow>
    racy_step H R kinv view (kernel (X l)) (progs (X l)) (stale (X l)) new gone off k' P' S' \<Longrightarrow>
    fleet H R kinv view b2s topo k0 a0
      (X(l := \<lparr>kernel = k', progs = P', stale = S', site_log = site_log (X l) @ new, exited = exited (X l) \<union> gone,
         noted = noted (X l) @ off\<rparr>)) as a"
| read: "fleet H R kinv view b2s topo k0 a0 X as a \<Longrightarrow> kinv k' \<Longrightarrow> v_ring (view (kernel (X l))) = xs @ e # ys \<Longrightarrow>
    view k' = (view (kernel (X l)))\<lparr>v_ring := xs @ ys\<rparr> \<Longrightarrow> agent_step b2s topo (Turn l (ReadRecord e)) a = Some a' \<Longrightarrow>
    fleet H R kinv view b2s topo k0 a0 (X(l := (X l)\<lparr>kernel := k'\<rparr>)) (as @ [Turn l (ReadRecord e)]) a'"
| agent: "fleet H R kinv view b2s topo k0 a0 X as a \<Longrightarrow> (\<And>l e. x \<noteq> Turn l (ReadRecord e)) \<Longrightarrow>
    agent_step b2s topo x a = Some a' \<Longrightarrow> fleet H R kinv view b2s topo k0 a0 X (as @ [x]) a'"

text \<open>Each side alone.\<close>

lemma fleet_racing:
  "fleet H R kinv view b2s topo k0 a0 X as a \<Longrightarrow>
    racing H R kinv view (k0 l) (site_log (X l)) (exited (X l)) (noted (X l)) (kernel (X l)) (progs (X l)) (stale (X l))"
proof (induction rule: fleet.induct)
  case boot
  then show ?case by (simp add: booted_def racing.boot)
next
  case (cpu X as a m new gone off k' P' S')
  then show ?case by (cases "m = l") (auto intro: racing.cpu)
next
  case (read X as a k' m xs e ys a')
  then show ?case by (cases "m = l") (auto intro: racing.consume)
next
  case (agent X as a x a')
  then show ?case by simp
qed

lemma fleet_runs: "fleet H R kinv view b2s topo k0 a0 X as a \<Longrightarrow> runs b2s topo a0 as a"
  by (induction rule: fleet.induct) (blast intro: step_runs.intros)+

text \<open>One loader whose exits do not race is the system of Concurrent\_System.\<close>

lemma concurrent_fleet:
  assumes "concurrent H R kinv view b2s topo k0 a0 recs ex as k P a"
  shows "\<exists>ns. fleet H R kinv view b2s topo (\<lambda>_. k0) a0
    ((\<lambda>_. booted k0)(0 := \<lparr>kernel = k, progs = P, stale = {}, site_log = recs, exited = ex, noted = ns\<rparr>)) as a"
  using assms
proof (induction rule: concurrent.induct)
  case boot
  from fleet.boot [where kinv = kinv, OF boot] have "fleet H R kinv view b2s topo (\<lambda>_. k0) a0
    ((\<lambda>_. booted k0)(0 := \<lparr>kernel = k0, progs = Map.empty, stale = {}, site_log = [], exited = {}, noted = []\<rparr>)) [] a0"
    by (simp add: booted_def fun_upd_def)
  then show ?case by blast
next
  case (cpu recs ex as k P a new gone k' P')
  then obtain ns where f: "fleet H R kinv view b2s topo (\<lambda>_. k0) a0
    ((\<lambda>_. booted k0)(0 := \<lparr>kernel = k, progs = P, stale = {}, site_log = recs, exited = ex, noted = ns\<rparr>)) as a"
    by blast
  let ?X = "(\<lambda>_. booted k0)(0 := \<lparr>kernel = k, progs = P, stale = {}, site_log = recs, exited = ex, noted = ns\<rparr>)"
  have "racy_step H R kinv view (kernel (?X 0)) (progs (?X 0)) (stale (?X 0)) new gone (notes_of H R view k P P') k' P' {}"
    using orderly_step [OF cpu(2)] by simp
  from fleet.cpu [OF f this] show ?case by (auto simp: fun_upd_def cong: if_cong)
next
  case (read recs ex as k P a k' xs e ys a')
  then obtain ns where f: "fleet H R kinv view b2s topo (\<lambda>_. k0) a0
    ((\<lambda>_. booted k0)(0 := \<lparr>kernel = k, progs = P, stale = {}, site_log = recs, exited = ex, noted = ns\<rparr>)) as a"
    by blast
  from fleet.read [OF f read(2), of 0 xs e ys a'] read(3-5) show ?case by (auto simp: fun_upd_def cong: if_cong)
next
  case (agent recs ex as k P a x a')
  then show ?case by (blast intro: fleet.agent)
qed

lemma fleet_cpu_run:
  assumes "cpu_run H R kinv view k P new gone off k' P'" and "fleet H R kinv view b2s topo k0 a0 X as a"
    and "X l = \<lparr>kernel = k, progs = P, stale = {}, site_log = recs, exited = ex, noted = ns\<rparr>"
  shows "fleet H R kinv view b2s topo k0 a0
    (X(l := \<lparr>kernel = k', progs = P', stale = {}, site_log = recs @ new, exited = ex \<union> gone, noted = ns @ off\<rparr>)) as a"
  using assms
proof (induction rule: cpu_run.induct)
  case none
  then have "X = X(l := \<lparr>kernel = k, progs = P, stale = {}, site_log = recs, exited = ex, noted = ns\<rparr>)"
    by (auto simp: fun_eq_iff)
  with none(1) show ?case by simp
next
  case (more new gone off s1 P1 new' gone' s2 P2)
  let ?X = "X(l := \<lparr>kernel = s1, progs = P1, stale = {}, site_log = recs @ new, exited = ex \<union> gone, noted = ns @ off\<rparr>)"
  have "racy_step H R kinv view (kernel (?X l)) (progs (?X l)) (stale (?X l)) new' gone' (notes_of H R view s1 P1 P2) s2 P2 {}"
    using orderly_step [OF more(2)] by simp
  from fleet.cpu [OF more.IH [OF more.prems] this] show ?case by (simp add: fun_upd_def Un_assoc cong: if_cong)
qed

section \<open>The records of each loader\<close>

fun read_at :: "nat \<Rightarrow> action \<Rightarrow> bytes list" where
  "read_at l (Turn m (ReadRecord e)) = (if m = l then [e] else [])"
| "read_at l _ = []"

definition consumed_at :: "nat \<Rightarrow> action list \<Rightarrow> bytes list" where
  "consumed_at l as = concat (map (read_at l) as)"

lemma consumed_at_simps [simp]:
  "consumed_at l [] = []" "consumed_at l (as @ [x]) = consumed_at l as @ read_at l x"
  by (simp_all add: consumed_at_def)

lemma read_at_other [simp]: "(\<And>l e. x \<noteq> Turn l (ReadRecord e)) \<Longrightarrow> read_at l x = []"
  by (cases x rule: record_read.cases) auto

lemma dispatched_at: "dispatched l as = concat (map decoded (consumed_at l as))"
proof (induction as rule: rev_induct)
  case (snoc x as)
  have "dispatched_by l x = concat (map decoded (read_at l x))"
    by (cases x rule: record_read.cases) (auto simp: turn_events_def split: outcome.splits)
  then show ?case using snoc by (simp del: decoded.simps)
qed simp

lemma events_decoded: "\<forall>e \<in> set es. good_record e \<Longrightarrow> events_count p (concat (map decoded es)) = records_of p es"
proof (induction es)
  case (Cons e es)
  then obtain ev where ev: "handle_record e = Dispatch ev" by (auto simp: good_record_def)
  with dispatch_pid [OF ev] Cons show ?case by (auto simp: events_count_def records_of_def)
qed (simp add: events_count_def records_of_def)

context bpf_concurrent
begin

lemma fleet_ring:
  assumes "fleet H R kinv view b2s topo k0 a0 X as a" and "sys_inv (view (k0 l))"
  shows "mset (v_ring (view (k0 l)) @ site_log (X l)) = mset (consumed_at l as @ v_ring (view (kernel (X l))))"
  using assms(1)
proof (induction rule: fleet.induct)
  case boot
  then show ?case by (simp add: booted_def)
next
  case (cpu X as a m new gone off k' P' S')
  show ?case
  proof (cases "m = l")
    case True
    have "kinv (kernel (X l))" "racy_ok (view (kernel (X l))) (progs (X l)) (stale (X l)) (exited (X l))"
      using racing_inv [OF fleet_racing [OF cpu(1)] assms(2)] by auto
    from racy_step_inv [OF cpu(2) [unfolded True] this] cpu.IH True show ?thesis by simp
  qed (use cpu.IH in simp)
next
  case (read X as a k' m xs e ys a')
  then show ?case by (cases "m = l") auto
next
  case (agent X as a x a')
  then show ?case by simp
qed

lemma fleet_consumed_good:
  assumes "fleet H R kinv view b2s topo k0 a0 X as a" and "sys_inv (view (k0 l))"
  shows "\<forall>e \<in> set (consumed_at l as). good_record e"
  using assms(1)
proof (induction rule: fleet.induct)
  case (read X as a k' m xs e ys a')
  have "good_record e" if "m = l"
    using racing_inv [OF fleet_racing [OF read(1)] assms(2)] read(3) that by (auto simp: racy_ok_def sys_inv_def)
  then show ?case using read.IH by auto
qed simp_all

text \<open>Every record of a loader has been dispatched or is unread.\<close>

lemma fleet_dispatched:
  assumes "fleet H R kinv view b2s topo k0 a0 X as a" and "sys_inv (view (k0 l))" and "v_ring (view (k0 l)) = []"
  shows "events_count p (dispatched l as) + records_of p (v_ring (view (kernel (X l)))) = records_of p (site_log (X l))"
proof -
  have "records_of p (site_log (X l)) = records_of p (consumed_at l as @ v_ring (view (kernel (X l))))"
    using fleet_ring [OF assms(1,2)] assms(3) by (intro records_of_mset) simp
  then show ?thesis
    using events_decoded [OF fleet_consumed_good [OF assms(1,2)]] by (simp add: dispatched_at records_of_def)
qed

end

section \<open>A sample execution\<close>

text \<open>
  \<open>main\<close> with \<open>-tracer fingerprint,fingerprint\<close>: two loaders on the same driver calls. The programs of both have
  submitted the two records of Probe\_Interleaving; the first loader has read one of its records and given it to both
  of its collectors.
\<close>

definition twice_config :: Programsconfig where
  "twice_config = sample_config\<lparr>EnableProbes := [''fingerprint'', ''fingerprint'']\<rparr>"

lemma twice_loaders:
  obtains ld where "main_loaders sample_env 0 twice_config (EnableProbes twice_config) = [ld, ld]"
    "collectors ld = [Fingerprint (NewGPUAggregator 0 2000000000), Series (NewTimeSeriesCollector 5000000000)]"
proof -
  obtain ld where ld: "main_loaders sample_env 0 twice_config (EnableProbes twice_config) = [ld, ld]"
    by (simp add: twice_config_def sample_config_def sample_env_def NewEbpfGpuLoaders_def LoaderFingerprint_def new_loader_eq Let_def)
  then have "ld \<in> set (main_loaders sample_env 0 twice_config (EnableProbes twice_config))" by simp
  from that [OF ld] main_loaders_collectors [OF this] show thesis by (simp add: twice_config_def sample_config_def)
qed

definition two_submitted :: "kstate \<Rightarrow> kstate site" where
  "two_submitted k = \<lparr>kernel = k,
     progs = [0 \<mapsto> (42 * 2 ^ 32 + 43, CountLookup 42 UPROBE_HIT), 1 \<mapsto> (42 * 2 ^ 32 + 44, Finished 0)],
     stale = {}, site_log = [record_on 512 entry_kernel, record_on 256 second_cpu], exited = {}, noted = []\<rparr>"

lemma two_submitted_simps [simp]:
  "kernel (two_submitted k) = k" "(two_submitted k)\<lparr>kernel := k'\<rparr> = two_submitted k'"
  "site_log (two_submitted k) = [record_on 512 entry_kernel, record_on 256 second_cpu]"
  by (simp_all add: two_submitted_def)

lemma twice_submitted:
  "fleet reference_kernel sample_offsets ref_inv ref_view b2s topo (\<lambda>_. entry_kernel) a
     ((\<lambda>_. booted entry_kernel)(0 := two_submitted second_counted, 1 := two_submitted second_counted)) [] a"
  (is "?F ((\<lambda>_. ?x)(0 := ?y, 1 := ?y))")
proof -
  have "?F (\<lambda>_. ?x)" by (rule fleet.boot) (rule both_inv(1))
  from fleet_cpu_run [OF two_cpus_run this, where l = 0 and recs = "[]" and ex = "{}" and ns = "[]"] have "?F ((\<lambda>_. ?x)(0 := ?y))"
    by (simp add: booted_def two_submitted_def fun_upd_def cong: if_cong)
  from fleet_cpu_run [OF two_cpus_run this, where l = 1 and recs = "[]" and ex = "{}" and ns = "[]"] show ?thesis by (simp add: booted_def two_submitted_def fun_upd_def cong: if_cong)
qed

text \<open>The reader of the first loader takes the later record and hands it round.\<close>

lemma twice_fleet:
  assumes "c = Fingerprint (NewGPUAggregator 0 2000000000)" and "d = Series (NewTimeSeriesCollector 5000000000)"
  obtains ev X a where
    "fleet reference_kernel sample_offsets ref_inv ref_view (\<lambda>c. c) [2, 2] (\<lambda>_. entry_kernel) (start_agent [[c, d], [c, d]]) X
       [Enter 0, Turn 0 (ReadRecord (record_on 256 second_cpu)), Deliver (0, 0) 7 ev, Deliver (0, 1) 7 ev] a"
    "X 0 = two_submitted (second_counted\<lparr>k_ring := [record_on 512 entry_kernel]\<rparr>)" "X 1 = two_submitted second_counted"
    "\<And>l. reader a l = ReaderSelect" "handed a = []" "eventCh a = []" "in_flight [2, 2] a = []"
    "\<And>pt x. pipe a pt x = []"
proof -
  let ?e = "record_on 512 entry_kernel" and ?f = "record_on 256 second_cpu"
  let ?k = "second_counted\<lparr>k_ring := [?e]\<rparr>" and ?a0 = "start_agent [[c, d], [c, d]]"
  let ?F = "fleet reference_kernel sample_offsets ref_inv ref_view (\<lambda>c. c) [2, 2] (\<lambda>_. entry_kernel) ?a0"
  let ?X = "(\<lambda>_ :: nat. booted entry_kernel)(0 := two_submitted second_counted, 1 := two_submitted second_counted)"
  obtain ev where ev: "handle_record ?f = Dispatch ev"
    using record_on_ok [OF both_inv(3)] by (auto simp: good_record_def)
  have k: "ref_inv ?k" "v_ring (ref_view (kernel (?X 0))) = [?e] @ ?f # []"
    "ref_view ?k = (ref_view (kernel (?X 0)))\<lparr>v_ring := [?e] @ []\<rparr>"
    by (simp_all add: both_defs ref_inv_def ref_view_def entry_kernel_def sample_kernel_def)
  let ?a1 = "?a0\<lparr>reader := (reader ?a0)(0 := ReaderReading)\<rparr>"
  let ?a2 = "?a0\<lparr>reader := (reader ?a0)(0 := Handing ev 0)\<rparr>" and ?X' = "?X(0 := (?X 0)\<lparr>kernel := ?k\<rparr>)"
  let ?up = "collector_Update (\<lambda>c. c) 7 ev"
  let ?a3 = "?a2\<lparr>collector := (collector ?a2)((0, 0) := ?up c), reader := (reader ?a2)(0 := Handing ev 1)\<rparr>"
  let ?a4 = "?a3\<lparr>collector := (collector ?a3)((0, 1) := ?up d), reader := (reader ?a3)(0 := ReaderSelect)\<rparr>"
  from fleet.agent [OF twice_submitted, where x = "Enter 0" and a' = ?a1] have "?F ?X [Enter 0] ?a1"
    by (simp add: agent_step_def in_range_def act_defs start_agent_def)
  from fleet.read [OF this k, of ?a2] have "?F ?X' [Enter 0, Turn 0 (ReadRecord ?f)] ?a2"
    by (simp add: agent_step_def in_range_def act_defs ev handing_def fun_upd_def cong: if_cong)
  from fleet.agent [OF this, of "Deliver (0, 0) 7 ev" ?a3]
  have "?F ?X' [Enter 0, Turn 0 (ReadRecord ?f), Deliver (0, 0) 7 ev] ?a3"
    by (simp add: agent_step_def in_range_def lanes_def act_defs handing_def)
  from fleet.agent [OF this, of "Deliver (0, 1) 7 ev" ?a4]
  have "?F ?X' [Enter 0, Turn 0 (ReadRecord ?f), Deliver (0, 0) 7 ev, Deliver (0, 1) 7 ev] ?a4"
    by (simp add: agent_step_def in_range_def lanes_def act_defs handing_def)
  from that [OF this] show thesis by (simp add: start_agent_def in_flight_def held_by_def pipe_def)
qed

section \<open>Properties\<close>

lemma main_loaders_paired:
  assumes "lds = main_loaders env now cfg (EnableProbes cfg)"
  shows "paired (map collectors lds) (TimeWindow cfg)"
  using main_loaders_collectors assms by (fastforce simp: paired_def)

text \<open>
  C2: The whole agent with any number of loaders, the programs of all CPUs and all goroutines interleaved at single
  accesses, threads exiting at any moment: for every collector of every loader and every process, the events sent,
  queued, in flight, pending and being handed round, with the records not yet read, are exactly the records submitted
  to the loader for the process; and for every process none of whose threads exited and both counters of the loader's
  watchdog map, the hits counted, with those running programs have still to count and those dropped because no entry
  could be created, are exactly the hits due (one uprobe hit per record submitted for the process, one ioctl hit per
  ioctl of it on a compute device) and those that exits of other processes have led astray to it; nothing is dropped
  of a process that had an entry from the start.
\<close>

lemma fleet_conserves:
  assumes "bpf_concurrent H kinv view"
    and "fleet H R kinv view b2s (map length cols) k0 (start_agent cols) X as a"
    and "\<forall>l < length cols. sys_inv (view (k0 l)) \<and> v_ring (view (k0 l)) = []"
    and "\<forall>x \<in> lanes (map length cols). fresh_collector (cols ! fst x ! snd x) \<and>
      ticks_fit (collector_Update b2s) collector_Flush collector_fits (lane_ops x as) (cols ! fst x ! snd x)"
  shows "(\<exists>ts pt. map snd ts = handed a @ eventCh a \<and> (\<forall>x \<in> lanes (map length cols). \<forall>p.
      batches_events p (of_lane x ts) + batches_events p (pipe a pt x) + collector_pending p (collector a x) +
        of_nat (events_count p (owed (snd x) (reader a (fst x)))) +
        of_nat (records_of p (v_ring (view (kernel (X (fst x)))))) =
      of_nat (records_of p (site_log (X (fst x)))))) \<and>
    (\<forall>l < length cols. \<forall>p. p \<notin> exited (X l) \<longrightarrow> (\<forall>h \<in> {UPROBE_HIT, IOCTL_HIT}.
      hit_total h (view (kernel (X l))) p + of_nat (owed_hits h (v_ncpu (view (k0 l))) p (progs (X l))) +
        of_nat (lost h p (noted (X l))) =
      hit_total h (view (k0 l)) p + of_nat (due h p (site_log (X l)) (noted (X l))) +
        of_nat (strayed h p (noted (X l))) \<and>
      (v_watchdog (view (k0 l)) p \<noteq> None \<longrightarrow> lost h p (noted (X l)) = 0)))"
proof
  note run = fleet_runs [OF assms(2)]
  obtain ts pt where tr: "traced a (\<lambda>x. fst (lane_run b2s x as (start_agent cols))) ts pt"
    using runs_traced [OF run] by blast
  have "batches_events p (of_lane x ts) + batches_events p (pipe a pt x) + collector_pending p (collector a x) +
      of_nat (events_count p (owed (snd x) (reader a (fst x)))) +
      of_nat (records_of p (v_ring (view (kernel (X (fst x)))))) =
    of_nat (records_of p (site_log (X (fst x))))" if x: "x \<in> lanes (map length cols)" for x p
  proof -
    have "fst x < length cols" using x by (auto simp: lanes_def)
    then have "events_count p (dispatched (fst x) as) + records_of p (v_ring (view (kernel (X (fst x))))) =
        records_of p (site_log (X (fst x)))"
      using assms(3) by (intro bpf_concurrent.fleet_dispatched [OF assms(1,2)]) auto
    then show ?thesis
      using lane_conserves [OF run x _ _ _ tr] fresh_collector assms(4) x by (simp flip: of_nat_add)
  qed
  then show "\<exists>ts pt. map snd ts = handed a @ eventCh a \<and> (\<forall>x \<in> lanes (map length cols). \<forall>p.
      batches_events p (of_lane x ts) + batches_events p (pipe a pt x) + collector_pending p (collector a x) +
        of_nat (events_count p (owed (snd x) (reader a (fst x)))) +
        of_nat (records_of p (v_ring (view (kernel (X (fst x)))))) =
      of_nat (records_of p (site_log (X (fst x)))))"
    using tr by (intro exI [of _ ts] exI [of _ pt]) (simp add: traced_def)
  show "\<forall>l < length cols. \<forall>p. p \<notin> exited (X l) \<longrightarrow> (\<forall>h \<in> {UPROBE_HIT, IOCTL_HIT}.
      hit_total h (view (kernel (X l))) p + of_nat (owed_hits h (v_ncpu (view (k0 l))) p (progs (X l))) +
        of_nat (lost h p (noted (X l))) =
      hit_total h (view (k0 l)) p + of_nat (due h p (site_log (X l)) (noted (X l))) +
        of_nat (strayed h p (noted (X l))) \<and>
      (v_watchdog (view (k0 l)) p \<noteq> None \<longrightarrow> lost h p (noted (X l)) = 0))"
    using bpf_concurrent.racing_total [OF assms(1) fleet_racing [OF assms(2)]]
      bpf_concurrent.racing_live [OF assms(1) fleet_racing [OF assms(2)]] assms(3) by auto
qed

text \<open>One record is in both collectors of the first loader, the other three are unread, two hits are owed.\<close>

lemma fleet_conserves_witness:
  "\<exists>cols X as a. fleet reference_kernel sample_offsets ref_inv ref_view (\<lambda>c. c) (map length cols) (\<lambda>_. entry_kernel)
      (start_agent cols) X as a \<and> map length cols = [2, 2] \<and>
    (\<forall>l < 2. records_of 42 (site_log (X l)) = 2 \<and> uprobe_total (ref_view (kernel (X l))) 42 = 1) \<and>
    (\<forall>i < 2. collector_pending 42 (collector a (0, i)) = 1 \<and> collector_pending 42 (collector a (1, i)) = 0)"
proof -
  let ?e = "record_on 512 entry_kernel" and ?f = "record_on 256 second_cpu"
  let ?c = "Fingerprint (NewGPUAggregator 0 2000000000)" and ?d = "Series (NewTimeSeriesCollector 5000000000)"
  let ?F = "fleet reference_kernel sample_offsets ref_inv ref_view (\<lambda>c. c)" and ?cols = "[[?c, ?d], [?c, ?d]]"
  obtain ev X a where s: "?F [2, 2] (\<lambda>_. entry_kernel) (start_agent ?cols) X
      [Enter 0, Turn 0 (ReadRecord ?f), Deliver (0, 0) 7 ev, Deliver (0, 1) 7 ev] a"
    and X: "X 0 = two_submitted (second_counted\<lparr>k_ring := [?e]\<rparr>)" "X 1 = two_submitted second_counted"
    and idle: "\<And>l. reader a l = ReaderSelect" "handed a = []" "eventCh a = []" "\<And>pt x. pipe a pt x = []"
    by (rule twice_fleet [OF refl refl]) blast
  let ?as = "[Enter 0, Turn 0 (ReadRecord ?f), Deliver (0, 0) 7 ev, Deliver (0, 1) 7 ev]"
  have f: "?F (map length ?cols) (\<lambda>_. entry_kernel) (start_agent ?cols) X ?as a" using s by (simp add: numeral_2_eq_2)
  have ready: "\<forall>l < length ?cols. sys_inv (ref_view entry_kernel) \<and> v_ring (ref_view entry_kernel) = []"
    using entry_sys_inv by (simp add: entry_view)
  have lanes: "lanes (map length ?cols) = {(0, 0), (0, 1), (1, 0), (1, 1)}"
    by (auto simp: lanes_def less_Suc_eq nth_Cons split: nat.splits)
  have "\<forall>x \<in> lanes (map length ?cols). fresh_collector (?cols ! fst x ! snd x) \<and>
      ticks_fit (collector_Update (\<lambda>c. c)) collector_Flush collector_fits (lane_ops x ?as) (?cols ! fst x ! snd x)"
    unfolding lanes by (simp add: lane_ops_def fresh_collector_def NewGPUAggregator_def NewTimeSeriesCollector_def)
  note acc = fleet_conserves [OF ck.bpf_concurrent_axioms f ready this]
  obtain ts where "map snd ts = handed a @ eventCh a" and
    ev: "\<forall>x \<in> {(0, 0), (0, 1), (1, 0), (1, 1)}. batches_events 42 (of_lane x ts) + collector_pending 42 (collector a x) +
      of_nat (records_of 42 (v_ring (ref_view (kernel (X (fst x)))))) = of_nat (records_of 42 (site_log (X (fst x))))"
    using conjunct1 [OF acc] idle unfolding lanes by (fastforce simp: batches_events_def events_count_def)
  have two: "records_of 42 (site_log (X l)) = 2" if "l < 2" for l using that X two_records by (cases l) auto
  have one: "records_of 42 [?e] = 1" using record_on_ok [OF both_inv(1)] by (simp add: records_of_def)
  have "v_ring (ref_view (kernel (X 0))) = [?e]" "v_ring (ref_view (kernel (X 1))) = [?e, ?f]"
    using X by (simp_all add: ref_view_def both_defs entry_kernel_def sample_kernel_def)
  then have ring: "records_of 42 (v_ring (ref_view (kernel (X 0)))) = 1" "records_of 42 (v_ring (ref_view (kernel (X 1)))) = 2"
    using one two_records by simp_all
  have "\<forall>i < 2. collector_pending 42 (collector a (0, i)) = 1 \<and> collector_pending 42 (collector a (1, i)) = 0"
    using ev \<open>map snd ts = _\<close> idle(2,3) two [of 0] two [of 1] ring
    by (auto simp: less_2_cases_iff batches_events_def)
  moreover have "uprobe_total (ref_view (kernel (X l))) 42 = 1" if l: "l < 2" for l
  proof -
    have p: "owed_hits UPROBE_HIT 2 42 (progs (X l)) = 1" "exited (X l) = {}" "noted (X l) = []"
      using l X two_owed by (auto simp: less_2_cases_iff two_submitted_def)
    have z: "hit_total UPROBE_HIT (ref_view entry_kernel) 42 = 0" "v_ncpu (ref_view entry_kernel) = 2"
      "lost UPROBE_HIT 42 [] = 0" "strayed UPROBE_HIT 42 [] = 0"
      by (simp_all add: hit_total_def entry_view uprobe_total_def zero_watchdog_def)
    have "hit_total UPROBE_HIT (ref_view (kernel (X l))) 42 + 1 = 2"
      using conjunct2 [OF acc, rule_format, of l 42 UPROBE_HIT] l two [OF l] by (simp add: p z due_def)
    then show ?thesis by (simp add: hit_total_def)
  qed
  ultimately show ?thesis using f two
    by (intro exI [of _ ?cols] exI [of _ X] exI [of _ ?as] exI [of _ a]) (simp add: numeral_2_eq_2)
qed

text \<open>
  C1: From the configuration to the server: with all loaders \<open>main\<close> creates, the programs of all CPUs on the kernel
  objects of each and all goroutines interleaved at single accesses, and threads exiting at any moment, the agent
  reports the activity of every process in both forms. The exact statistics of all windows sent, queued and in
  flight, with those of the open windows, the events handed round and the records unread, add up to the usage of all
  records submitted to the loaders; and the tokens sent, queued, in flight and buffered, with the same remainders, are
  the activities of those records.
\<close>

lemma deployed_agent_reports:
  assumes "bpf_concurrent H kinv view" and "lds = main_loaders env now cfg (EnableProbes cfg)"
    and "topo = map (\<lambda>ld. length (collectors ld)) lds"
    and "fleet H R kinv view b2s topo k0 (start_agent (map collectors lds)) X as a"
    and "\<forall>l < length lds. sys_inv (view (k0 l)) \<and> v_ring (view (k0 l)) = []"
    and "\<forall>x \<in> lanes topo. ticks_fit (collector_Update b2s) collector_Flush collector_fits (lane_ops x as)
      (collectors (lds ! fst x) ! snd x)"
  shows "\<exists>ga tc. (\<forall>l < length lds. collector a (l, 0) = Fingerprint (ga l) \<and> windowDuration (ga l) = TimeWindow cfg \<and>
      collector a (l, 1) = Series (tc l)) \<and> (\<forall>p.
    batches_worth payload_usage p (handed a @ eventCh a @ in_flight topo a) +
      (\<Sum>l<length lds. window_usage p (ga l) + worth_of event_usage p (owed 0 (reader a l)) +
        record_usage p (v_ring (view (kernel (X l))))) =
    (\<Sum>l<length lds. record_usage p (site_log (X l))) \<and>
    mset (series p (handed a @ eventCh a @ in_flight topo a)) +
      (\<Sum>l<length lds. mset (map token_shape (buffered (tc l) p) @ event_series p (owed 1 (reader a l)) @
        record_series p (v_ring (view (kernel (X l)))))) =
    (\<Sum>l<length lds. mset (record_series p (site_log (X l)))))"
proof -
  let ?cols = "map collectors lds" and ?all = "handed a @ eventCh a @ in_flight topo a"
  let ?ring = "\<lambda>l. v_ring (view (kernel (X l)))"
  have topo: "map length ?cols = topo" by (simp add: assms(3))
  note run = fleet_runs [OF assms(4)]
  have fit: "\<forall>x \<in> lanes topo. ticks_fit (collector_Update b2s) collector_Flush collector_fits (lane_ops x as)
      (?cols ! fst x ! snd x)" using assms(3,6) by (auto simp: lanes_def)
  have taken: "mset (site_log (X l)) = mset (consumed_at l as @ ?ring l)" if "l < length lds" for l
    using bpf_concurrent.fleet_ring [OF assms(1,4), of l] assms(5) that by simp
  obtain ga tc where g: "\<forall>l < length lds. collector a (l, 0) = Fingerprint (ga l) \<and>
      windowDuration (ga l) = TimeWindow cfg \<and> collector a (l, 1) = Series (tc l)" and
    u: "\<And>p. batches_worth payload_usage p ?all +
        (\<Sum>l<length lds. window_usage p (ga l) + worth_of event_usage p (owed 0 (reader a l))) =
      (\<Sum>l<length lds. worth_of event_usage p (dispatched l as))" and
    m: "\<And>p. mset (series p ?all) +
        (\<Sum>l<length lds. mset (map token_shape (buffered (tc l) p) @ event_series p (owed 1 (reader a l)))) =
      (\<Sum>l<length lds. mset (event_series p (dispatched l as)))"
    using agent_reports [OF main_loaders_paired [OF assms(2)], unfolded topo, OF run fit refl] by auto
  have "(\<Sum>l<length lds. record_usage p (site_log (X l))) =
      (\<Sum>l<length lds. worth_of event_usage p (dispatched l as) + record_usage p (?ring l))" for p
    using record_usage_mset [OF taken, of _ p] by (intro sum.cong) (simp_all add: dispatched_at record_usage_def)
  then have "batches_worth payload_usage p ?all + (\<Sum>l<length lds. window_usage p (ga l) +
      worth_of event_usage p (owed 0 (reader a l)) + record_usage p (?ring l)) =
    (\<Sum>l<length lds. record_usage p (site_log (X l)))" for p
    using u [of p] by (simp add: sum.distrib add.assoc [symmetric])
  moreover have "(\<Sum>l<length lds. mset (record_series p (site_log (X l)))) =
      (\<Sum>l<length lds. mset (event_series p (dispatched l as)) + mset (record_series p (?ring l)))" for p
    using record_series_mset [OF taken, of _ p] by (intro sum.cong) (simp_all add: dispatched_at record_series_def)
  then have "mset (series p ?all) + (\<Sum>l<length lds. mset (map token_shape (buffered (tc l) p) @
      event_series p (owed 1 (reader a l)) @ record_series p (?ring l))) =
    (\<Sum>l<length lds. mset (record_series p (site_log (X l))))" for p
    using m [of p] by (simp add: sum.distrib add.assoc [symmetric])
  ultimately show ?thesis using g by blast
qed

text \<open>Every allocation reaches the server twice: the two loaders report each of the two, 1536 bytes in all.\<close>

lemma deployed_agent_reports_witness:
  "\<exists>lds X as a ga. main_loaders sample_env 0 twice_config (EnableProbes twice_config) = lds \<and> length lds = 2 \<and>
    fleet reference_kernel sample_offsets ref_inv ref_view (\<lambda>c. c) [2, 2] (\<lambda>_. entry_kernel)
      (start_agent (map collectors lds)) X as a \<and>
    (\<forall>l < 2. collector a (l, 0) = Fingerprint (ga l) \<and> windowDuration (ga l) = 2000000000) \<and>
    bytes_allocated (\<Sum>l<2. window_usage 42 (ga l) + record_usage 42 (v_ring (ref_view (kernel (X l))))) = 1536"
proof -
  let ?e = "record_on 512 entry_kernel" and ?f = "record_on 256 second_cpu" and ?cfg = twice_config
  let ?c = "Fingerprint (NewGPUAggregator 0 2000000000)" and ?d = "Series (NewTimeSeriesCollector 5000000000)"
  let ?F = "fleet reference_kernel sample_offsets ref_inv ref_view (\<lambda>c. c) [2, 2] (\<lambda>_. entry_kernel)"
  obtain ld where ld: "main_loaders sample_env 0 ?cfg (EnableProbes ?cfg) = [ld, ld]" "collectors ld = [?c, ?d]"
    by (rule twice_loaders)
  obtain ev X a where s: "?F (start_agent [[?c, ?d], [?c, ?d]]) X
      [Enter 0, Turn 0 (ReadRecord ?f), Deliver (0, 0) 7 ev, Deliver (0, 1) 7 ev] a"
    and X: "X 0 = two_submitted (second_counted\<lparr>k_ring := [?e]\<rparr>)" "X 1 = two_submitted second_counted"
    and idle: "\<And>l. reader a l = ReaderSelect" "handed a = []" "eventCh a = []" "in_flight [2, 2] a = []"
    by (rule twice_fleet [OF refl refl]) blast
  let ?as = "[Enter 0, Turn 0 (ReadRecord ?f), Deliver (0, 0) 7 ev, Deliver (0, 1) 7 ev]"
  have f: "?F (start_agent (map collectors [ld, ld])) X ?as a" using s ld(2) by simp
  have topo: "[2, 2] = map (\<lambda>ld. length (collectors ld)) [ld, ld]" using ld(2) by simp
  have ready: "\<forall>l < length [ld, ld]. sys_inv (ref_view entry_kernel) \<and> v_ring (ref_view entry_kernel) = []"
    using entry_sys_inv by (simp add: entry_view)
  have "\<forall>x \<in> lanes [2, 2]. ticks_fit (collector_Update (\<lambda>c. c)) collector_Flush collector_fits (lane_ops x ?as)
      (collectors ([ld, ld] ! fst x) ! snd x)" by (simp add: lane_ops_def)
  then obtain ga tc where g: "\<forall>l < length [ld, ld]. collector a (l, 0) = Fingerprint (ga l) \<and>
      windowDuration (ga l) = TimeWindow ?cfg \<and> collector a (l, 1) = Series (tc l)" and
    acc: "\<forall>p. batches_worth payload_usage p (handed a @ eventCh a @ in_flight [2, 2] a) +
        (\<Sum>l<length [ld, ld]. window_usage p (ga l) + worth_of event_usage p (owed 0 (reader a l)) +
          record_usage p (v_ring (ref_view (kernel (X l))))) =
      (\<Sum>l<length [ld, ld]. record_usage p (site_log (X l)))"
    using deployed_agent_reports [OF ck.bpf_concurrent_axioms ld(1) [symmetric] topo f ready] by blast
  have "(\<Sum>l<2. window_usage 42 (ga l) + record_usage 42 (v_ring (ref_view (kernel (X l))))) =
    (\<Sum>l<2. record_usage 42 (site_log (X l)))"
    using acc [THEN spec, of 42] idle by (simp add: numeral_2_eq_2)
  also have "\<dots> = (cost (Allocated 512) + cost (Allocated 256)) + (cost (Allocated 512) + cost (Allocated 256))"
    using X two_usage by (simp add: numeral_2_eq_2)
  finally have "bytes_allocated (\<Sum>l<2. window_usage 42 (ga l) + record_usage 42 (v_ring (ref_view (kernel (X l))))) = 1536"
    by (simp add: plus_usage_def)
  then show ?thesis using ld(1) f g
    by (intro exI [of _ "[ld, ld]"] exI [of _ X] exI [of _ ?as] exI [of _ a] exI [of _ ga])
      (simp add: twice_config_def sample_config_def)
qed

declare split_paired_All [simp]
declare split_paired_Ex [simp]

end
