(* ===== verification/Watchdog_Collector.thy ===== *)
theory Watchdog_Collector
  imports Collector
begin

text \<open>
  The watchdog's user-space half (\<open>internal/loaders/watchdog_collector.go\<close>). Every poll walks the
  per-CPU map, sums each process's counters and compares them with the snapshot of the poll before.
  The entries of the map in iteration order are an argument of \<open>poll\<close>; \<open>nowNs\<close> is
  \<open>uint64(time.Now().UnixNano())\<close>. The alert channel is the list of alerts sent.
\<close>

section \<open>State\<close>

definition WarmupSeconds :: u64 where "WarmupSeconds = 3"
definition IoctlMinThreshold :: u64 where "IoctlMinThreshold = 50"
definition PollInterval :: int where "PollInterval = 5 * 1000000000"

lemmas watchdog_consts = WarmupSeconds_def IoctlMinThreshold_def

record GpuprintIoctlWatchdogEventT =
  IoctlHitCount :: u64
  UprobeHitCount :: u64
  FirstSeenTime :: u64

record WatchdogAlert =
  AlertPid :: u32
  AlertComm :: string

record pidSnapshot =
  ioctlCount :: u64
  uprobeCount :: u64
  firstSeenNs :: u64

record WatchdogCollector =
  snapshots :: "u32 \<rightharpoonup> pidSnapshot"

definition NewWatchdogCollector :: WatchdogCollector where
  "NewWatchdogCollector = \<lparr>snapshots = Map.empty\<rparr>"

section \<open>Poll\<close>

text \<open>The inner loop: the two totals and the smallest non-zero creation time.\<close>

fun sum_cpus :: "GpuprintIoctlWatchdogEventT list \<Rightarrow> u64 \<Rightarrow> u64 \<Rightarrow> u64 \<Rightarrow> u64 \<times> u64 \<times> u64" where
  "sum_cpus [] totalIoctl totalUprobe firstSeen = (totalIoctl, totalUprobe, firstSeen)"
| "sum_cpus (v # vs) totalIoctl totalUprobe firstSeen =
     sum_cpus vs (totalIoctl + IoctlHitCount v) (totalUprobe + UprobeHitCount v)
       (if FirstSeenTime v > 0
        then (if firstSeen = 0 \<or> FirstSeenTime v < firstSeen then FirstSeenTime v else firstSeen)
        else firstSeen)"

text \<open>
  The two tests that skip an entry: too few ioctls, or younger than the warm-up. The age is the difference of the two
  readings on 64 bits, whatever clocks they come from.
\<close>

definition eligible :: "u64 \<Rightarrow> u64 \<Rightarrow> u64 \<Rightarrow> bool" where
  "eligible nowNs totalIoctl firstSeen =
    (if totalIoctl < IoctlMinThreshold then False
     else let ageNs = nowNs - firstSeen
     in if ageNs < WarmupSeconds * 1000000000 then False else True)"

definition poll_entry ::
  "u64 \<Rightarrow> u32 \<Rightarrow> GpuprintIoctlWatchdogEventT list \<Rightarrow> WatchdogCollector \<Rightarrow>
    WatchdogAlert list \<times> WatchdogCollector" where
  "poll_entry nowNs pid perCpuValues w =
    (let (totalIoctl, totalUprobe, firstSeen) = sum_cpus perCpuValues 0 0 0
     in if \<not> eligible nowNs totalIoctl firstSeen then ([], w)
     else let snap = \<lparr>ioctlCount = totalIoctl, uprobeCount = totalUprobe, firstSeenNs = firstSeen\<rparr>;
              w' = w\<lparr>snapshots := (snapshots w)(pid \<mapsto> snap)\<rparr>
     in case snapshots w pid of
          None \<Rightarrow> ([], w')
        | Some prev \<Rightarrow>
           (let deltaIoctl = totalIoctl - ioctlCount prev;
                deltaUprobe = totalUprobe - uprobeCount prev
            in if deltaIoctl < IoctlMinThreshold then ([], w')
            else if deltaUprobe = 0 then ([\<lparr>AlertPid = pid, AlertComm = []\<rparr>], w')
            else ([], w')))"

fun poll ::
  "u64 \<Rightarrow> (u32 \<times> GpuprintIoctlWatchdogEventT list) list \<Rightarrow> WatchdogCollector \<Rightarrow>
    WatchdogAlert list \<times> WatchdogCollector" where
  "poll nowNs [] w = ([], w)"
| "poll nowNs ((pid, perCpuValues) # entries) w =
     (let (a, w) = poll_entry nowNs pid perCpuValues w;
          (as, w) = poll nowNs entries w
      in (a @ as, w))"

section \<open>What the inner loop computes\<close>

definition ioctl_sum :: "GpuprintIoctlWatchdogEventT list \<Rightarrow> u64" where
  "ioctl_sum vs = sum_list (map IoctlHitCount vs)"

definition uprobe_sum :: "GpuprintIoctlWatchdogEventT list \<Rightarrow> u64" where
  "uprobe_sum vs = sum_list (map UprobeHitCount vs)"

definition stamps :: "GpuprintIoctlWatchdogEventT list \<Rightarrow> u64 set" where
  "stamps vs = {FirstSeenTime v |v. v \<in> set vs \<and> FirstSeenTime v \<noteq> 0}"

definition first_stamp :: "GpuprintIoctlWatchdogEventT list \<Rightarrow> u64" where
  "first_stamp vs = (if stamps vs = {} then 0 else Min (stamps vs))"

lemma stamps_simps [simp]:
  "stamps [] = {}"
  "stamps (v # vs) = (if FirstSeenTime v = 0 then stamps vs else insert (FirstSeenTime v) (stamps vs))"
  by (auto simp: stamps_def)

lemma finite_stamps [simp]: "finite (stamps vs)"
  by (induction vs) simp_all

lemma stamps_pos: "t \<in> stamps vs \<Longrightarrow> t \<noteq> 0"
  by (auto simp: stamps_def)

lemma sum_cpus_totals:
  "fst (sum_cpus vs i u f) = i + ioctl_sum vs"
  "fst (snd (sum_cpus vs i u f)) = u + uprobe_sum vs"
  by (induction vs i u f rule: sum_cpus.induct) (simp_all add: ioctl_sum_def uprobe_sum_def algebra_simps)

lemma sum_cpus_stamp:
  "snd (snd (sum_cpus vs i u f)) =
    (if f = 0 then first_stamp vs else if stamps vs = {} then f else min f (first_stamp vs))"
proof (induction vs i u f rule: sum_cpus.induct)
  case (1 i u f)
  then show ?case by (simp add: first_stamp_def)
next
  case (2 v vs i u f)
  have "Min (stamps vs) \<noteq> 0" if "stamps vs \<noteq> {}" using that stamps_pos Min_in finite_stamps by blast
  with 2 show ?case
    by (cases "stamps vs = {}")
      (auto simp: first_stamp_def min_def not_less word_gt_0 split: if_splits)
qed

lemma sum_cpus_eq: "sum_cpus vs 0 0 0 = (ioctl_sum vs, uprobe_sum vs, first_stamp vs)"
  using sum_cpus_totals [of vs 0 0 0] sum_cpus_stamp [of vs 0 0 0] by (simp add: prod_eq_iff)


section \<open>What a poll does\<close>

lemma eligible_iff: "eligible nowNs i f \<longleftrightarrow> 50 \<le> i \<and> 3000000000 \<le> nowNs - f"
  by (auto simp: eligible_def watchdog_consts Let_def not_less)

text \<open>The process is active enough, and its entry old enough, to be compared.\<close>

abbreviation compared :: "u64 \<Rightarrow> GpuprintIoctlWatchdogEventT list \<Rightarrow> bool" where
  "compared nowNs vs \<equiv> eligible nowNs (ioctl_sum vs) (first_stamp vs)"

definition snapshot_of :: "GpuprintIoctlWatchdogEventT list \<Rightarrow> pidSnapshot" where
  "snapshot_of vs = \<lparr>ioctlCount = ioctl_sum vs, uprobeCount = uprobe_sum vs, firstSeenNs = first_stamp vs\<rparr>"

text \<open>The bypass condition between two snapshots.\<close>

definition bypass :: "pidSnapshot \<Rightarrow> pidSnapshot \<Rightarrow> bool" where
  "bypass prev cur \<longleftrightarrow> 50 \<le> ioctlCount cur - ioctlCount prev \<and> uprobeCount cur = uprobeCount prev"

lemma poll_entry_eq:
  "poll_entry nowNs pid vs w =
    (if compared nowNs vs
     then ((case snapshots w pid of
              None \<Rightarrow> []
            | Some prev \<Rightarrow> if bypass prev (snapshot_of vs) then [\<lparr>AlertPid = pid, AlertComm = []\<rparr>] else []),
           w\<lparr>snapshots := (snapshots w)(pid \<mapsto> snapshot_of vs)\<rparr>)
     else ([], w))"
  by (auto simp: poll_entry_def sum_cpus_eq snapshot_of_def bypass_def watchdog_consts
      Let_def not_less not_le split: option.splits)

lemma poll_other:
  "pid \<notin> fst ` set entries \<Longrightarrow> snapshots (snd (poll nowNs entries w)) pid = snapshots w pid"
  by (induction nowNs entries w rule: poll.induct)
    (auto simp: poll_entry_eq case_prod_unfold Let_def)

lemma poll_snapshot:
  assumes "distinct (map fst entries)" and "(pid, vs) \<in> set entries"
  shows "snapshots (snd (poll nowNs entries w)) pid =
    (if compared nowNs vs then Some (snapshot_of vs) else snapshots w pid)"
  using assms
proof (induction nowNs entries w rule: poll.induct)
  case (2 nowNs p us entries w)
  then show ?case
    by (auto simp: poll_entry_eq case_prod_unfold Let_def poll_other image_iff)
qed simp

lemma poll_alert_pid: "a \<in> set (fst (poll nowNs entries w)) \<Longrightarrow> AlertPid a \<in> fst ` set entries"
  by (induction nowNs entries w rule: poll.induct)
    (auto simp: poll_entry_eq case_prod_unfold Let_def split: if_splits option.splits)

text \<open>A process is reported exactly when it is eligible and bypasses since its last snapshot.\<close>

lemma poll_alerts:
  assumes "distinct (map fst entries)" and "(pid, vs) \<in> set entries"
  shows "pid \<in> AlertPid ` set (fst (poll nowNs entries w)) \<longleftrightarrow>
    compared nowNs vs \<and> (\<exists>prev. snapshots w pid = Some prev \<and> bypass prev (snapshot_of vs))"
  using assms
proof (induction nowNs entries w rule: poll.induct)
  case (2 nowNs p us entries w)
  show ?case
  proof (cases "p = pid")
    case True
    then have vs: "vs = us" and out: "pid \<notin> fst ` set entries"
      using 2(2,3) by (auto simp: image_iff)
    have "pid \<notin> AlertPid ` set (fst (poll nowNs entries w'))" for w'
      using poll_alert_pid out by force
    with True vs show ?thesis
      by (cases "snapshots w pid") (auto simp: poll_entry_eq case_prod_unfold Let_def image_Un)
  next
    case False
    let ?w = "snd (poll_entry nowNs p us w)"
    have "snapshots ?w pid = snapshots w pid" using False by (simp add: poll_entry_eq)
    moreover have "pid \<notin> AlertPid ` set (fst (poll_entry nowNs p us w))"
      using False by (auto simp: poll_entry_eq split: option.splits if_splits)
    moreover have "(pid, vs) \<in> set entries" "distinct (map fst entries)" using 2(2,3) False by auto
    ultimately show ?thesis
      using "2.IH" [OF refl, of "fst (poll_entry nowNs p us w)" ?w]
      by (simp add: case_prod_unfold Let_def image_Un)
  qed
qed simp

section \<open>Properties\<close>

text \<open>
  The inner loop of the poll computes, over the CPUs in any order, the sums of the two counters on
  64 bits and the smallest non-zero creation time, or zero when there is none.
\<close>

lemma cpu_sums:
  "sum_cpus vs 0 0 0 = (sum_list (map IoctlHitCount vs), sum_list (map UprobeHitCount vs),
     (let ts = {FirstSeenTime v |v. v \<in> set vs \<and> FirstSeenTime v \<noteq> 0} in if ts = {} then 0 else Min ts))"
  by (simp only: sum_cpus_eq ioctl_sum_def uprobe_sum_def first_stamp_def stamps_def Let_def)

text \<open>
  A poll over a map iteration without repeated keys reports a process exactly when it has at
  least 50 ioctls, its entry passes the age test, a snapshot of it exists, and since that snapshot the
  ioctls grew by at least 50 and the uprobe hits not at all; and it then holds the new snapshot.
\<close>

lemma poll_reports:
  assumes "distinct (map fst entries)" and "(pid, vs) \<in> set entries"
  shows "(pid \<in> AlertPid ` set (fst (poll now entries w)) \<longleftrightarrow>
      compared now vs \<and> (\<exists>prev. snapshots w pid = Some prev \<and>
        50 \<le> ioctl_sum vs - ioctlCount prev \<and> uprobe_sum vs = uprobeCount prev)) \<and>
    snapshots (snd (poll now entries w)) pid = (if compared now vs
      then Some \<lparr>ioctlCount = ioctl_sum vs, uprobeCount = uprobe_sum vs, firstSeenNs = first_stamp vs\<rparr>
      else snapshots w pid)"
  using poll_alerts [OF assms, of now w] poll_snapshot [OF assms, of now w]
  by (simp add: bypass_def snapshot_of_def)

lemma poll_reports_witness:
  "42 \<in> AlertPid ` set (fst (poll 9000000000
     [(42, [\<lparr>IoctlHitCount = 160, UprobeHitCount = 7, FirstSeenTime = 900\<rparr>])]
     (NewWatchdogCollector\<lparr>snapshots := [42 \<mapsto> \<lparr>ioctlCount = 100, uprobeCount = 7, firstSeenNs = 900\<rparr>]\<rparr>)))"
  using poll_reports [of "[(42, [\<lparr>IoctlHitCount = 160, UprobeHitCount = 7, FirstSeenTime = 900\<rparr>])]" 42
      "[\<lparr>IoctlHitCount = 160, UprobeHitCount = 7, FirstSeenTime = 900\<rparr>]" 9000000000
      "NewWatchdogCollector\<lparr>snapshots := [42 \<mapsto> \<lparr>ioctlCount = 100, uprobeCount = 7, firstSeenNs = 900\<rparr>]\<rparr>"]
  by (simp add: eligible_iff ioctl_sum_def uprobe_sum_def first_stamp_def)

end
