(* ===== verification/Watchdog_Detection.thy ===== *)
theory Watchdog_Detection
  imports Probe_System Watchdog_Collector
begin

text \<open>
  The counters the probes keep in the per-CPU map, as the poll of \<open>watchdog_collector.go\<close> reads them, and two ways in
  which its tests do not do what they mean to.
\<close>

section \<open>What an iteration of the map returns\<close>

text \<open>The Go struct has the three fields of the C struct, in the same layout.\<close>

definition from_kernel :: "ioctl_watchdog_event_t \<Rightarrow> GpuprintIoctlWatchdogEventT" where
  "from_kernel w = \<lparr>IoctlHitCount = ioctl_hit_count w, UprobeHitCount = uprobe_hit_count w,
     FirstSeenTime = first_seen_time w\<rparr>"

lemma from_kernel_sums:
  "v_watchdog v pid = Some l \<Longrightarrow> ioctl_sum (map from_kernel l) = ioctl_total v pid"
  "v_watchdog v pid = Some l \<Longrightarrow> uprobe_sum (map from_kernel l) = uprobe_total v pid"
  by (simp_all add: ioctl_sum_def uprobe_sum_def ioctl_total_def uprobe_total_def comp_def from_kernel_def)

text \<open>Only the CPU that created the entry carries its time.\<close>

lemma first_stamp_stamped:
  assumes "stamped now l"
  shows "first_stamp (map from_kernel l) \<le> now"
proof -
  obtain c t where c: "c < length l" "t \<le> now" "map first_seen_time l = (replicate (length l) 0)[c := t]"
    using assms by (auto simp: stamped_def)
  have "stamps (map from_kernel l) \<subseteq> {t}"
  proof
    fix x assume "x \<in> stamps (map from_kernel l)"
    then have "x \<in> set (map first_seen_time l)" "x \<noteq> 0" by (auto simp: stamps_def from_kernel_def)
    then show "x \<in> {t}" unfolding c(3) using set_update_subset_insert [of "replicate (length l) 0" c t] by auto
  qed
  then have "stamps (map from_kernel l) = {} \<or> stamps (map from_kernel l) = {t}" by blast
  then show ?thesis using c(2) by (auto simp: first_stamp_def)
qed

section \<open>Properties\<close>

text \<open>
  C26: The warm-up test of the poll works on the difference of two readings and is defeated by their clocks. If the
  clock reading is less than three seconds after the creation time stored in the entry, the entry is skipped; but
  \<open>bpf_ktime_get_ns\<close> counts from boot and the poll reads the wall clock, so with a boot at least three seconds after the
  epoch every entry a kernel can hold, one created this very instant included, passes, and the poll of it compares and
  stores exactly when it has 50 ioctls.
\<close>

lemma warmup_never_applies:
  assumes "stamped clock l" and "vs = map from_kernel l"
  shows "(now - first_stamp vs < 3000000000 \<longrightarrow> poll_entry now pid vs w = ([], w)) \<and>
    (3000000000 \<le> boot \<and> unat boot + unat clock < 2 ^ 64 \<longrightarrow>
      poll_entry (boot + clock) pid vs w =
        (if ioctl_sum vs < 50 then ([], w)
         else ((case snapshots w pid of
                  None \<Rightarrow> []
                | Some prev \<Rightarrow>
                    if 50 \<le> ioctl_sum vs - ioctlCount prev \<and> uprobe_sum vs = uprobeCount prev
                    then [\<lparr>AlertPid = pid, AlertComm = []\<rparr>] else []),
               w\<lparr>snapshots := (snapshots w)(pid \<mapsto>
                 \<lparr>ioctlCount = ioctl_sum vs, uprobeCount = uprobe_sum vs, firstSeenNs = first_stamp vs\<rparr>)\<rparr>)))"
proof -
  have "3000000000 \<le> boot + clock - first_stamp vs"
    if "3000000000 \<le> boot" "unat boot + unat clock < 2 ^ 64"
  proof -
    have f: "first_stamp vs \<le> clock" unfolding assms(2) using assms(1) by (rule first_stamp_stamped)
    have "unat (boot + clock) = unat boot + unat clock" using that(2) by (rule unat_add_u64)
    moreover have "unat (first_stamp vs) \<le> unat clock" using f by (simp add: word_le_nat_alt)
    moreover have "unat (boot + clock - first_stamp vs) = unat (boot + clock) - unat (first_stamp vs)"
      using calculation by (intro unat_sub) (simp add: word_le_nat_alt)
    moreover have "3000000000 \<le> unat boot" using that(1) by (simp add: word_le_nat_alt)
    ultimately have "3000000000 \<le> unat (boot + clock - first_stamp vs)" by linarith
    then show ?thesis by (simp add: word_le_nat_alt)
  qed
  then show ?thesis
    unfolding poll_entry_eq eligible_iff bypass_def snapshot_of_def by (auto simp: not_less not_le split: option.splits)
qed

text \<open>An entry created at the moment of the poll is compared; with both readings on one clock it would be skipped.\<close>

lemma warmup_never_applies_witness:
  "let vs = map from_kernel [\<lparr>ioctl_hit_count = 60, uprobe_hit_count = 0, first_seen_time = 1000\<rparr>] in
    snapshots (snd (poll_entry (1700000000000000000 + 1000) 42 vs NewWatchdogCollector)) 42 =
      Some \<lparr>ioctlCount = 60, uprobeCount = 0, firstSeenNs = 1000\<rparr> \<and>
    poll_entry 1000 42 vs NewWatchdogCollector = ([], NewWatchdogCollector)"
proof -
  let ?l = "[\<lparr>ioctl_hit_count = 60, uprobe_hit_count = 0, first_seen_time = 1000\<rparr>] :: ioctl_watchdog_event_t list"
  have "stamped 1000 ?l" by (auto simp: stamped_def intro!: exI [of _ 0] exI [of _ 1000])
  note w = warmup_never_applies [OF this refl, where pid = 42 and w = NewWatchdogCollector]
  have sums: "ioctl_sum (map from_kernel ?l) = 60" "uprobe_sum (map from_kernel ?l) = 0" "first_stamp (map from_kernel ?l) = 1000"
    by (simp_all add: ioctl_sum_def uprobe_sum_def first_stamp_def from_kernel_def)
  show ?thesis
    using w [of 1000 1700000000000000000] unfolding sums Let_def by (simp add: sums)
qed

text \<open>
  C27: A snapshot outlives the process it was taken of: when an entry that passes the two tests of the poll has a
  smaller ioctl total than the snapshot held under its process id (by less than the 50 that would make the difference
  small again), and exactly the uprobe total of the snapshot, the unsigned difference wraps and passes for activity
  and the process is reported.
\<close>

lemma stale_snapshot_wraps:
  assumes "distinct (map fst entries)" and "(pid, vs) \<in> set entries" and "compared now vs"
    and "snapshots w pid = Some prev" and "ioctl_sum vs < ioctlCount prev"
    and "unat (ioctlCount prev) - unat (ioctl_sum vs) \<le> 2 ^ 64 - 50" and "uprobe_sum vs = uprobeCount prev"
  shows "pid \<in> AlertPid ` set (fst (poll now entries w))"
proof -
  have lt: "unat (ioctl_sum vs) < unat (ioctlCount prev)" using assms(5) by (simp add: word_less_nat_alt)
  have "unat (ioctl_sum vs - ioctlCount prev) = 2 ^ 64 + unat (ioctl_sum vs) - unat (ioctlCount prev)"
    using lt unat_sub_if' [of "ioctl_sum vs" "ioctlCount prev"] by simp
  then have "50 \<le> unat (ioctl_sum vs - ioctlCount prev)" using lt assms(6) by simp
  then have "bypass prev (snapshot_of vs)"
    using assms(7) by (simp add: bypass_def snapshot_of_def word_le_nat_alt)
  then show ?thesis using poll_alerts [OF assms(1,2)] assms(3,4) by blast
qed

lemma stale_snapshot_wraps_witness:
  "42 \<in> AlertPid ` set (fst (poll 9000000000
     [(42, [\<lparr>IoctlHitCount = 60, UprobeHitCount = 7, FirstSeenTime = 900\<rparr>])]
     (NewWatchdogCollector\<lparr>snapshots := [42 \<mapsto> \<lparr>ioctlCount = 100, uprobeCount = 7, firstSeenNs = 5\<rparr>]\<rparr>)))"
  by (rule stale_snapshot_wraps [where vs = "[\<lparr>IoctlHitCount = 60, UprobeHitCount = 7, FirstSeenTime = 900\<rparr>]"
        and prev = "\<lparr>ioctlCount = 100, uprobeCount = 7, firstSeenNs = 5\<rparr>"])
    (simp_all add: eligible_iff ioctl_sum_def uprobe_sum_def first_stamp_def)

end
