(* ===== verification/Watchdog_Runner.thy ===== *)
theory Watchdog_Runner
  imports Watchdog_Collector
begin

text \<open>
  The watchdog's goroutines: \<open>Run\<close> of \<open>watchdog_collector.go\<close>, whose polls send their alerts to a channel of
  capacity 10, and the goroutine of \<open>gpuprint_tracer_loader.go\<close> that logs them. A full channel blocks the poll in
  the middle of its iteration, so the iteration is one action per entry, with what the iterator returns then.
\<close>

section \<open>State\<close>

datatype watch_pc = WatchSelect | Polling u64 | Alerting u64 WatchdogAlert | WatchDone

record watch =
  ctx_done :: bool
  watchdog :: WatchdogCollector
  watch_pc :: watch_pc
  alertCh :: "WatchdogAlert list"
  logged :: "WatchdogAlert list"
  log_done :: bool

definition alertCh_capacity :: nat where "alertCh_capacity = 10"

definition start_watch :: watch where
  "start_watch = \<lparr>ctx_done = False, watchdog = NewWatchdogCollector, watch_pc = WatchSelect, alertCh = [],
     logged = [], log_done = False\<rparr>"

section \<open>Actions\<close>

datatype watch_action =
    PollStart u64
  | PollEntry u32 "GpuprintIoctlWatchdogEventT list"
  | AlertSend
  | PollEnd
  | AlertLog
  | WatchStop
  | LogStop
  | WatchCancel

text \<open>\<open>poll_entry\<close> returns at most one alert; it is sent after the snapshot is stored.\<close>

fun watch_act :: "watch_action \<Rightarrow> watch \<Rightarrow> watch option" where
  "watch_act (PollStart now) s =
     (if watch_pc s = WatchSelect then Some (s\<lparr>watch_pc := Polling now\<rparr>) else None)"
| "watch_act (PollEntry pid vs) s =
     (case watch_pc s of
        Polling now \<Rightarrow>
          (let (as, w) = poll_entry now pid vs (watchdog s)
           in Some (s\<lparr>watchdog := w, watch_pc := (case as of [] \<Rightarrow> Polling now | a # _ \<Rightarrow> Alerting now a)\<rparr>))
      | _ \<Rightarrow> None)"
| "watch_act AlertSend s =
     (case watch_pc s of
        Alerting now a \<Rightarrow>
          if length (alertCh s) < alertCh_capacity
          then Some (s\<lparr>watch_pc := Polling now, alertCh := alertCh s @ [a]\<rparr>) else None
      | _ \<Rightarrow> None)"
| "watch_act PollEnd s =
     (case watch_pc s of Polling now \<Rightarrow> Some (s\<lparr>watch_pc := WatchSelect\<rparr>) | _ \<Rightarrow> None)"
| "watch_act AlertLog s =
     (case alertCh s of
        a # rest \<Rightarrow> if log_done s then None else Some (s\<lparr>alertCh := rest, logged := logged s @ [a]\<rparr>)
      | [] \<Rightarrow> None)"
| "watch_act WatchStop s =
     (if watch_pc s = WatchSelect \<and> ctx_done s then Some (s\<lparr>watch_pc := WatchDone\<rparr>) else None)"
| "watch_act LogStop s =
     (if watch_pc s = WatchDone \<and> alertCh s = [] then Some (s\<lparr>log_done := True\<rparr>) else None)"
| "watch_act WatchCancel s = Some (s\<lparr>ctx_done := True\<rparr>)"

abbreviation watch_runs where "watch_runs \<equiv> step_runs watch_act"
abbreviation watch_exec where "watch_exec \<equiv> step_exec watch_act"

section \<open>The polls of an execution\<close>

type_synonym poll_input = "u64 \<times> (u32 \<times> GpuprintIoctlWatchdogEventT list) list"

fun add_input :: "poll_input list \<Rightarrow> watch_action \<Rightarrow> poll_input list" where
  "add_input ps (PollStart now) = ps @ [(now, [])]"
| "add_input ps (PollEntry pid vs) = butlast ps @ [(fst (last ps), snd (last ps) @ [(pid, vs)])]"
| "add_input ps _ = ps"

definition poll_inputs :: "watch_action list \<Rightarrow> poll_input list" where
  "poll_inputs as = foldl add_input [] as"

lemma poll_inputs_simps [simp]:
  "poll_inputs [] = []" "poll_inputs (as @ [a]) = add_input (poll_inputs as) a"
  by (simp_all add: poll_inputs_def)

text \<open>The polls one after the other, each in one go.\<close>

fun polls :: "poll_input list \<Rightarrow> WatchdogCollector \<Rightarrow> WatchdogAlert list \<times> WatchdogCollector" where
  "polls [] w = ([], w)"
| "polls ((now, entries) # ps) w =
     (let (as, w) = poll now entries w; (as', w) = polls ps w in (as @ as', w))"

lemma poll_append:
  "poll now (es @ fs) w = (let (as, w) = poll now es w; (as', w) = poll now fs w in (as @ as', w))"
  by (induction es arbitrary: w) (auto simp: Let_def case_prod_unfold)

lemma polls_append:
  "polls (ps @ qs) w = (let (as, w) = polls ps w; (as', w) = polls qs w in (as @ as', w))"
  by (induction ps arbitrary: w) (auto simp: Let_def case_prod_unfold)

lemma polls_entry:
  assumes "ps \<noteq> []"
  shows "polls (add_input ps (PollEntry pid vs)) w =
    (let (as, w) = polls ps w; (as', w) = poll_entry (fst (last ps)) pid vs w in (as @ as', w))"
proof -
  obtain qs now es where ps: "ps = qs @ [(now, es)]" using assms by (metis append_butlast_last_id surj_pair)
  show ?thesis by (simp add: ps polls_append poll_append Let_def case_prod_unfold)
qed

fun blocked_alerts :: "watch_pc \<Rightarrow> WatchdogAlert list" where
  "blocked_alerts (Alerting now a) = [a]"
| "blocked_alerts _ = []"

fun poll_clock :: "watch_pc \<Rightarrow> u64 option" where
  "poll_clock (Polling now) = Some now"
| "poll_clock (Alerting now a) = Some now"
| "poll_clock _ = None"

lemma poll_entry_one:
  "fst (poll_entry now pid vs w) = [] \<or> (\<exists>a. fst (poll_entry now pid vs w) = [a])"
  by (auto simp: poll_entry_eq split: option.splits)

lemma watch_refines:
  "watch_runs start_watch as s \<Longrightarrow>
    polls (poll_inputs as) NewWatchdogCollector = (logged s @ alertCh s @ blocked_alerts (watch_pc s), watchdog s) \<and>
    (\<forall>now. poll_clock (watch_pc s) = Some now \<longrightarrow> poll_inputs as \<noteq> [] \<and> fst (last (poll_inputs as)) = now) \<and>
    length (alertCh s) \<le> alertCh_capacity"
proof (induction rule: step_runs.induct)
  case start
  then show ?case by (simp add: start_watch_def)
next
  case (step as s1 a s2)
  show ?case
  proof (cases a)
    case (PollEntry pid vs)
    then obtain now where pc: "watch_pc s1 = Polling now" and
      s2: "s2 = s1\<lparr>watchdog := snd (poll_entry now pid vs (watchdog s1)),
        watch_pc := (case fst (poll_entry now pid vs (watchdog s1)) of [] \<Rightarrow> Polling now | a # _ \<Rightarrow> Alerting now a)\<rparr>"
      using step.hyps(2) by (auto simp: case_prod_unfold Let_def split: watch_pc.splits)
    have last: "poll_inputs as \<noteq> []" "fst (last (poll_inputs as)) = now" using step.IH pc by auto
    have p: "polls (poll_inputs as) NewWatchdogCollector = (logged s1 @ alertCh s1, watchdog s1)"
      using step.IH pc by simp
    have "polls (poll_inputs (as @ [a])) NewWatchdogCollector =
      (logged s2 @ alertCh s2 @ blocked_alerts (watch_pc s2), watchdog s2)"
      using polls_entry [OF last(1), of pid vs NewWatchdogCollector] poll_entry_one [of now pid vs "watchdog s1"]
      by (auto simp: p s2 PollEntry last case_prod_unfold Let_def simp del: add_input.simps)
    moreover have "poll_clock (watch_pc s2) = Some now" "length (alertCh s2) = length (alertCh s1)"
      using poll_entry_one [of now pid vs "watchdog s1"] by (auto simp: s2)
    ultimately show ?thesis using step.IH last PollEntry by simp
  qed (use step in \<open>auto simp: polls_append Let_def case_prod_unfold split: if_splits watch_pc.splits list.splits\<close>)
qed

section \<open>Properties\<close>

text \<open>
  C21: The watchdog's goroutines refine the atomic poll: in every execution, the alerts logged, queued and
  waiting to be queued are, in order and once each, those of the polls done one after the other on the same map
  entries and clock readings, the snapshots are those polls' too, and at most ten alerts are queued.
\<close>

lemma alerts_refine_polls:
  assumes "watch_runs start_watch as s"
  shows "polls (poll_inputs as) NewWatchdogCollector =
      (logged s @ alertCh s @ blocked_alerts (watch_pc s), watchdog s) \<and> length (alertCh s) \<le> 10"
  using watch_refines [OF assms] by (simp add: alertCh_capacity_def)

lemma alerts_refine_polls_witness:
  "\<exists>as s vs us. watch_runs start_watch as s \<and> logged s = [\<lparr>AlertPid = 42, AlertComm = []\<rparr>] \<and>
     fst (polls [(5000000000, [(42, vs)]), (10000000000, [(42, us)])] NewWatchdogCollector) = logged s"
proof -
  let ?vs = "[\<lparr>IoctlHitCount = 60, UprobeHitCount = 7, FirstSeenTime = 900\<rparr>]"
  let ?us = "[\<lparr>IoctlHitCount = 160, UprobeHitCount = 7, FirstSeenTime = 900\<rparr>]"
  let ?as = "[PollStart 5000000000, PollEntry 42 ?vs, PollEnd, PollStart 10000000000, PollEntry 42 ?us,
    AlertSend, PollEnd, AlertLog]"
  obtain s where s: "watch_exec ?as start_watch = Some s" "logged s = [\<lparr>AlertPid = 42, AlertComm = []\<rparr>]"
    "alertCh s = []" "watch_pc s = WatchSelect"
    by (simp add: start_watch_def NewWatchdogCollector_def poll_entry_eq eligible_iff bypass_def snapshot_of_def
        ioctl_sum_def uprobe_sum_def first_stamp_def alertCh_capacity_def)
  note run = step_exec_runs [OF s(1)]
  from alerts_refine_polls [OF run] run s show ?thesis
    by (intro exI [of _ ?as] exI [of _ s] exI [of _ ?vs] exI [of _ ?us]) (simp add: poll_inputs_def)
qed

end
