(* ===== verification/Watchdog_System.thy ===== *)
theory Watchdog_System
  imports Watchdog_Detection Watchdog_Runner Probe_Races
begin

text \<open>
  The watchdog end to end: the interleaved programs of Probe\_Races run while the polling and logging
  goroutines of Watchdog\_Runner take their steps, and an entry of the per-CPU map is read at the moment the
  iterator returns it. The alerts of an execution are counted against what the process did between the moments
  at which it was compared.
\<close>

section \<open>Executions\<close>

text \<open>
  Besides the records submitted, the processes with an exit and the notices of Probe\_Interleaving, an execution keeps
  what it compared: the process, and how many ioctl hits and uprobe hits it had been credited with by then. Credited are
  the hits the process is due (one per ioctl on a compute device, one per record submitted for it) and those of exiting
  processes that went astray to it, without those still to be counted and those dropped.
\<close>

type_synonym look = "u32 \<times> nat \<times> nat"

definition credited :: "u32 \<Rightarrow> u32 \<Rightarrow> bytes list \<Rightarrow> notice list \<Rightarrow> nat \<Rightarrow> cpus \<Rightarrow> nat" where
  "credited h pid recs noted n P =
    due h pid recs noted + strayed h pid noted - (owed_hits h n pid P + lost h pid noted)"

inductive watched ::
  "'k bpf \<Rightarrow> core_offsets \<Rightarrow> ('k \<Rightarrow> bool) \<Rightarrow> ('k \<Rightarrow> kview) \<Rightarrow> 'k \<Rightarrow>
    bytes list \<Rightarrow> u32 set \<Rightarrow> notice list \<Rightarrow> look list \<Rightarrow> 'k \<Rightarrow> cpus \<Rightarrow> nat set \<Rightarrow> watch \<Rightarrow> bool"
  for H R kinv view k0 where
  boot: "kinv k0 \<Longrightarrow> watched H R kinv view k0 [] {} [] [] k0 Map.empty {} start_watch"
| cpu: "watched H R kinv view k0 recs ex noted looks k P S w \<Longrightarrow>
    racy_step H R kinv view k P S new gone off k' P' S' \<Longrightarrow>
    watched H R kinv view k0 (recs @ new) (ex \<union> gone) (noted @ off) looks k' P' S' w"
| consume: "watched H R kinv view k0 recs ex noted looks k P S w \<Longrightarrow> kinv k' \<Longrightarrow> v_ring (view k) = xs @ e # ys \<Longrightarrow>
    view k' = (view k)\<lparr>v_ring := xs @ ys\<rparr> \<Longrightarrow> watched H R kinv view k0 recs ex noted looks k' P S w"
| entry: "watched H R kinv view k0 recs ex noted looks k P S w \<Longrightarrow> v_watchdog (view k) pid = Some l \<Longrightarrow>
    poll_clock (watch_pc w) = Some now \<Longrightarrow> watch_act (PollEntry pid (map from_kernel l)) w = Some w' \<Longrightarrow>
    watched H R kinv view k0 recs ex noted
      (looks @ (if compared now (map from_kernel l)
        then [(pid, credited IOCTL_HIT pid recs noted (v_ncpu (view k)) P,
          credited UPROBE_HIT pid recs noted (v_ncpu (view k)) P)] else [])) k P S w'"
| act: "watched H R kinv view k0 recs ex noted looks k P S w \<Longrightarrow> (\<And>pid vs. a \<noteq> PollEntry pid vs) \<Longrightarrow>
    watch_act a w = Some w' \<Longrightarrow> watched H R kinv view k0 recs ex noted looks k P S w'"

lemma watched_racing:
  "watched H R kinv view k0 recs ex noted looks k P S w \<Longrightarrow> racing H R kinv view k0 recs ex noted k P S"
  by (induction rule: watched.induct) (blast intro: racing.intros)+

lemma watched_run:
  assumes "cpu_run H R kinv view k P new gone off k' P'" and "watched H R kinv view k0 recs ex noted looks k P {} w"
  shows "watched H R kinv view k0 (recs @ new) (ex \<union> gone) (noted @ off) looks k' P' {} w"
  using assms
proof (induction rule: cpu_run.induct)
  case (more new gone off k1 P1 new' gone' k2 P2)
  from watched.cpu [OF more.IH [OF more.prems] orderly_step [OF more(2)]] show ?case by (simp add: Un_assoc)
qed simp

section \<open>Counting\<close>

definition looks_at :: "u32 \<Rightarrow> look list \<Rightarrow> (nat \<times> nat) list" where
  "looks_at pid looks = map snd (filter (\<lambda>x. fst x = pid) looks)"

text \<open>Fifty ioctl hits and no uprobe hit between two looks that follow each other.\<close>

fun bypasses :: "(nat \<times> nat) list \<Rightarrow> nat" where
  "bypasses (a # b # xs) = (if fst a + 50 \<le> fst b \<and> snd b = snd a then 1 else 0) + bypasses (b # xs)"
| "bypasses xs = 0"

definition raised :: "watch \<Rightarrow> WatchdogAlert list" where
  "raised w = logged w @ alertCh w @ blocked_alerts (watch_pc w)"

definition alerts_of :: "u32 \<Rightarrow> watch \<Rightarrow> nat" where
  "alerts_of pid w = length (filter (\<lambda>a. AlertPid a = pid) (raised w))"

lemma looks_at_simps [simp]:
  "looks_at pid [] = []" "looks_at pid (xs @ ys) = looks_at pid xs @ looks_at pid ys"
  "looks_at pid [(p, x)] = (if p = pid then [x] else [])"
  by (simp_all add: looks_at_def)

lemma bypasses_snoc:
  "bypasses (xs @ [b]) = bypasses xs +
    (if xs \<noteq> [] \<and> fst (last xs) + 50 \<le> fst b \<and> snd b = snd (last xs) then 1 else 0)"
  by (induction xs rule: bypasses.induct) auto

lemma entry_act:
  assumes "watch_act (PollEntry pid vs) w = Some w'" and "poll_clock (watch_pc w) = Some now"
  shows "watchdog w' = snd (poll_entry now pid vs (watchdog w)) \<and>
    raised w' = raised w @ fst (poll_entry now pid vs (watchdog w))"
  using assms poll_entry_one [of now pid vs "watchdog w"]
  by (auto simp: raised_def case_prod_unfold Let_def split: watch_pc.splits)

lemma other_act:
  assumes "watch_act a w = Some w'" and "\<And>pid vs. a \<noteq> PollEntry pid vs"
  shows "watchdog w' = watchdog w \<and> raised w' = raised w"
  using assms
  by (cases a) (auto simp: raised_def split: watch_pc.splits list.splits if_splits)

section \<open>Alerts against behaviour\<close>

text \<open>
  What the last snapshot of a process stands for, when the process has been credited with \<open>i\<close> ioctl hits and \<open>u\<close>
  uprobe hits.
\<close>

definition snapshot_means :: "u32 \<Rightarrow> kview \<Rightarrow> nat \<Rightarrow> nat \<Rightarrow> pidSnapshot \<Rightarrow> nat \<times> nat \<Rightarrow> bool" where
  "snapshot_means pid v i u sn x \<longleftrightarrow> v_watchdog v pid \<noteq> None \<and> fst x \<le> i \<and> snd x \<le> u \<and>
     hit_total IOCTL_HIT v pid = ioctlCount sn + of_nat (i - fst x) \<and>
     hit_total UPROBE_HIT v pid = uprobeCount sn + of_nat (u - snd x)"

definition watch_inv :: "u32 \<Rightarrow> kview \<Rightarrow> nat \<Rightarrow> nat \<Rightarrow> look list \<Rightarrow> watch \<Rightarrow> bool" where
  "watch_inv pid v i u looks w \<longleftrightarrow> alerts_of pid w = bypasses (looks_at pid looks) \<and>
     (case snapshots (watchdog w) pid of
        None \<Rightarrow> looks_at pid looks = []
      | Some sn \<Rightarrow> looks_at pid looks \<noteq> [] \<and> snapshot_means pid v i u sn (last (looks_at pid looks)))"

lemma snapshot_bypass:
  assumes "snapshot_means pid v i u sn x" and "i < 2 ^ 64" and "u < 2 ^ 64"
  shows "50 \<le> hit_total IOCTL_HIT v pid - ioctlCount sn \<and> hit_total UPROBE_HIT v pid = uprobeCount sn \<longleftrightarrow>
    fst x + 50 \<le> i \<and> u = snd x"
proof -
  have "unat (of_nat (i - fst x) :: u64) = i - fst x" using assms(2) by (simp add: unat_of_nat)
  then have "50 \<le> (of_nat (i - fst x) :: u64) \<longleftrightarrow> 50 \<le> i - fst x" by (simp add: word_le_nat_alt)
  moreover have "(of_nat (u - snd x) :: u64) = 0 \<longleftrightarrow> u - snd x = 0"
    using assms(3) by (auto simp: word_of_nat_eq_0_iff dest!: dvd_imp_le)
  ultimately show ?thesis using assms(1) by (auto simp: snapshot_means_def)
qed

lemma snapshot_counts:
  assumes "v_watchdog v pid = Some l"
  shows "ioctlCount (snapshot_of (map from_kernel l)) = hit_total IOCTL_HIT v pid"
    and "uprobeCount (snapshot_of (map from_kernel l)) = hit_total UPROBE_HIT v pid"
  using from_kernel_sums [OF assms] by (simp_all add: snapshot_of_def hit_total_def IOCTL_HIT_def UPROBE_HIT_def)

lemma watch_inv_entry:
  assumes inv: "watch_inv pid v i u looks w" and n: "i < 2 ^ 64" "u < 2 ^ 64"
    and l: "v_watchdog v p = Some l" and pc: "poll_clock (watch_pc w) = Some now"
    and act: "watch_act (PollEntry p (map from_kernel l)) w = Some w'"
    and m: "p = pid \<Longrightarrow> x = (i, u)"
  shows "watch_inv pid v i u (looks @ (if compared now (map from_kernel l) then [(p, x)] else [])) w'"
proof (cases "compared now (map from_kernel l)")
  case False
  with inv entry_act [OF act pc] show ?thesis by (simp add: watch_inv_def alerts_of_def poll_entry_eq)
next
  case el: True
  show ?thesis
  proof (cases "p = pid")
    case False
    with inv entry_act [OF act pc] show ?thesis
      by (auto simp: watch_inv_def alerts_of_def poll_entry_eq el split: option.splits)
  next
    case True
    let ?cur = "snapshot_of (map from_kernel l)"
    have cur: "snapshot_means pid v i u ?cur (i, u)"
      using l True snapshot_counts [of v pid l] by (simp add: snapshot_means_def)
    have b: "bypass sn ?cur \<longleftrightarrow> fst (last (looks_at pid looks)) + 50 \<le> i \<and> u = snd (last (looks_at pid looks))"
      if "snapshots (watchdog w) pid = Some sn" for sn
      using inv that snapshot_bypass [OF _ n, of pid v sn "last (looks_at pid looks)"] l True snapshot_counts [of v pid l]
      by (auto simp: bypass_def watch_inv_def)
    show ?thesis
      using inv entry_act [OF act pc] cur m [OF True] True b
      by (auto simp: watch_inv_def alerts_of_def poll_entry_eq el bypasses_snoc split: option.splits)
  qed
qed

section \<open>Hits still to be counted\<close>

text \<open>Every hit due or astray is a record or a notice of its own.\<close>

lemma due_stray_le: "due h pid recs noted + strayed h pid noted \<le> length recs + length noted"
proof -
  have "count_list noted (Issued pid) + count_list noted (Stray pid h) \<le> length noted" by (induction noted) auto
  moreover have "count_list noted (Stray pid h) \<le> length noted" by (rule count_le_length)
  moreover have "records_of pid recs \<le> length recs" by (simp add: records_of_def)
  ultimately show ?thesis unfolding due_def strayed_def by (split if_split) linarith
qed

context bpf_concurrent
begin

lemma micro_owed:
  assumes "kinv s" and "micro H R pc s = (pc', s')" and "\<And>p e. pc \<noteq> Submit p e"
  shows "owed_hit h pid pc' + lost h pid (step_notes H R view s pc) \<le> owed_hit h pid pc + due h pid [] (step_notes H R view s pc)"
proof (cases pc)
  case (Invoked call)
  with assms show ?thesis
    by (cases call) (auto simp: reserve_fill_def sync_enter_def sync_return_def Let_def
        split: option.splits prod.splits)
next
  case (CountLookup p h)
  with assms(2) watchdog_lookup [OF assms(1), of p] show ?thesis by (auto split: option.splits)
next
  case (CountRelookup p h)
  with assms(2) watchdog_lookup [OF assms(1), of p] show ?thesis
    by (auto simp: step_notes_def lost_def due_def split: option.splits)
next
  case (Submit p e)
  with assms(3) show ?thesis by blast
next
  case (IoctlWalk p fd)
  with assms(2) show ?thesis
    by (auto simp: ioctl_walk_cases step_notes_def lost_def due_def IOCTL_HIT_def UPROBE_HIT_def)
qed (use assms(2) in \<open>auto split: option.splits prod.splits if_splits\<close>)

lemma owed_hits_le:
  assumes "c < n" and "P c = Some (t, pc)" and "owed_hit h pid pc' + l \<le> owed_hit h pid pc + m"
  shows "owed_hits h n pid (P(c \<mapsto> (t', pc'))) + l \<le> owed_hits h n pid P + m"
  using owed_hits_upd [OF assms(1), of h pid P "Some (t', pc')"] assms(2,3) by simp

lemma cpu_step_owed:
  assumes "cpu_step H R kinv view s P new gone s' P'" and "kinv s" "sys_inv (view s)" "cpus_ok (view s) P"
    and "v_ncpu (view s) = n"
  shows "owed_hits h n pid P' + lost h pid (notes_of H R view s P P') \<le>
    owed_hits h n pid P + due h pid new (notes_of H R view s P P')"
  using assms
proof (induction rule: cpu_step.induct)
  case (fire P s call)
  have "v_cpu (view s) < n" using fire cpu_in_range [of s] by simp
  from owed_hits_upd [OF this, of h pid P "Some (v_pid_tgid (view s), Invoked call)"] fire
  show ?case by (simp add: fun_upd_def notes_of_def)
next
  case (step P s pc pc' s')
  have c: "v_cpu (view s) < n" using step cpu_in_range [of s] by simp
  have "owed_hit h pid pc' + lost h pid (step_notes H R view s pc) \<le>
    owed_hit h pid pc + due h pid (drop (length (v_ring (view s))) (v_ring (view s'))) (step_notes H R view s pc)"
  proof (cases "\<exists>p e. pc = Submit p e")
    case True
    then obtain p e where pc: "pc = Submit p e" by blast
    have "pc_ok (view s) (v_cpu (view s)) (v_pid_tgid (view s)) pc" using step(1,6) by (simp add: cpus_ok_def)
    then have ok: "record_pid e = p" by (simp add: pc)
    have "pc' = CountLookup p UPROBE_HIT" "v_ring (view s') = v_ring (view s) @ [e]"
      using step(3) ringbuf_submit [OF step(4), of e] by (auto simp: pc)
    with ok show ?thesis by (simp add: records_of_def pc due_def)
  next
    case False
    have "due h pid [] (step_notes H R view s pc) \<le> due h pid new (step_notes H R view s pc)" for new
      by (simp add: due_def)
    then show ?thesis using micro_owed [OF step(4,3), of h pid] False by (meson add_left_mono order_trans)
  qed
  from owed_hits_le [where P = P and pid = pid and h = h, OF c step(1) this, of "v_pid_tgid (view s)"]
  show ?case unfolding notes_of_step [where P = P, OF step(1,3,2)] by (simp add: fun_upd_def)
next
  case (exit P s pc' s')
  have c: "v_cpu (view s) < n" using exit cpu_in_range [of s] by simp
  from owed_hits_le [where P = P and pid = pid and pc' = pc' and m = 0 and l = 0 and h = h, OF c exit(1), of "v_pid_tgid (view s)"]
    exit_deletes [OF exit(4,3)] exit(1)
  show ?case by (simp add: fun_upd_def notes_of_def)
next
  case (leave P c tid r s)
  have "c < n" using leave by (auto simp: cpus_ok_def)
  from owed_hits_upd [OF this, of h pid P None] leave
  show ?case unfolding notes_of_leave [where P = P, OF leave(1)] by (simp add: fun_upd_def)
next
  case (switch s' s P)
  then show ?case by (simp add: notes_of_def)
qed

lemma racy_step_owed:
  assumes "racy_step H R kinv view s P S new gone off s' P' S'" and "kinv s" "racy_ok (view s) P S ex"
    and "pid \<notin> ex \<union> gone" and "v_ncpu (view s) = n"
  shows "owed_hits h n pid P' + lost h pid off \<le> owed_hits h n pid P + due h pid new off"
proof (rule racy_step_split [OF assms(1-3)], goal_cases)
  case (1 Q Q')
  have "sys_inv (view s)" using assms(3) by (simp add: racy_ok_def)
  from cpu_step_owed [OF 1(2) assms(2) this 1(3) assms(5)] 1(4) [OF assms(4)] 1(1) show ?case by simp
next
  case (2 h')
  then show ?case using assms(4,5) by (auto simp: misses_def lost_def)
qed

lemma racing_owed:
  assumes "racing H R kinv view s recs ex noted s' P S" and "sys_inv (view s)" and "pid \<notin> ex"
  shows "owed_hits h (v_ncpu (view s')) pid P + lost h pid noted \<le> due h pid recs noted"
  using assms(1,3)
proof (induction rule: racing.induct)
  case boot
  then show ?case by (simp add: owed_hits_def)
next
  case (cpu recs ex noted s1 P S new gone off s2 P' S')
  note i = racing_inv [OF cpu(1) assms(2)]
  have "owed_hits h (v_ncpu (view s1)) pid P' + lost h pid off \<le> owed_hits h (v_ncpu (view s1)) pid P + due h pid new off"
    using racy_step_owed [OF cpu(2), of ex pid] i cpu.prems by simp
  moreover have "v_ncpu (view s2) = v_ncpu (view s1)" using racy_step_inv [OF cpu(2), of ex] i by blast
  ultimately show ?case using cpu.IH cpu.prems by simp
next
  case (consume recs ex noted s1 P S s2 xs e ys)
  then show ?case by simp
qed

text \<open>A step of the kernel side lets the credit and the hits of a live process grow alike.\<close>

lemma racy_step_credited:
  assumes run: "racing H R kinv view k0 recs ex noted k P S" and inv: "sys_inv (view k0)"
    and step: "racy_step H R kinv view k P S new gone off k' P' S'"
    and pid: "pid \<notin> ex \<union> gone" and h: "h = UPROBE_HIT \<or> h = IOCTL_HIT"
  shows "\<exists>d. credited h pid (recs @ new) (noted @ off) (v_ncpu (view k')) P' = credited h pid recs noted (v_ncpu (view k)) P + d \<and>
      hit_total h (view k') pid = hit_total h (view k) pid + of_nat d"
proof -
  note i = racing_inv [OF run inv]
  let ?n = "v_ncpu (view k)" and ?o = "owed_hits h (v_ncpu (view k)) pid P" and ?o' = "owed_hits h (v_ncpu (view k)) pid P'"
  let ?d = "due h pid new off" and ?s = "strayed h pid off" and ?l = "lost h pid off"
  have n': "v_ncpu (view k') = ?n" using racy_step_inv [OF step] i by blast
  have le: "?o + lost h pid noted \<le> due h pid recs noted" "?o' + ?l \<le> ?o + ?d"
    using racing_owed [OF run inv] racy_step_owed [OF step, of ex pid ?n] i pid by simp_all
  define d where "d = ?o + ?d + ?s - (?o' + ?l)"
  have "hit_total h (view k') pid + of_nat ?o' + of_nat ?l =
      hit_total h (view k) pid + of_nat ?o + of_nat ?d + of_nat ?s"
    using racy_step_total [OF step _ _ pid refl h] i by simp
  then have "hit_total h (view k') pid =
      hit_total h (view k) pid + (of_nat ?o + of_nat ?d + of_nat ?s - (of_nat ?o' + of_nat ?l))"
    by (simp add: algebra_simps)
  moreover have "of_nat d = (of_nat ?o + of_nat ?d + of_nat ?s - (of_nat ?o' + of_nat ?l) :: u64)"
    using le(2) by (simp add: d_def of_nat_diff)
  moreover have "credited h pid (recs @ new) (noted @ off) (v_ncpu (view k')) P' = credited h pid recs noted ?n P + d"
    using le by (simp add: credited_def d_def n')
  ultimately show ?thesis by auto
qed

lemma watch_inv_cpu:
  assumes "watch_inv pid (view k) (credited IOCTL_HIT pid recs noted (v_ncpu (view k)) P)
      (credited UPROBE_HIT pid recs noted (v_ncpu (view k)) P) looks w"
    and "racing H R kinv view k0 recs ex noted k P S" and "sys_inv (view k0)"
    and "racy_step H R kinv view k P S new gone off k' P' S'" and "pid \<notin> ex \<union> gone"
  shows "watch_inv pid (view k') (credited IOCTL_HIT pid (recs @ new) (noted @ off) (v_ncpu (view k')) P')
      (credited UPROBE_HIT pid (recs @ new) (noted @ off) (v_ncpu (view k')) P') looks w"
proof -
  note i = racing_inv [OF assms(2,3)]
  have "v_watchdog (view k) pid \<noteq> None \<longrightarrow> v_watchdog (view k') pid \<noteq> None"
    using racy_step_live [OF assms(4) _ _ _ assms(5)] i by blast
  then show ?thesis
    using assms(1) racy_step_credited [OF assms(2-5), of IOCTL_HIT] racy_step_credited [OF assms(2-5), of UPROBE_HIT]
    by (auto simp: watch_inv_def snapshot_means_def Nat.add_diff_assoc2 split: option.splits)
qed

lemma watched_inv:
  assumes "watched H R kinv view k0 recs ex noted looks k P S w" and "sys_inv (view k0)"
    and "pid \<notin> ex" and "length recs + length noted < 2 ^ 64"
  shows "watch_inv pid (view k) (credited IOCTL_HIT pid recs noted (v_ncpu (view k)) P)
    (credited UPROBE_HIT pid recs noted (v_ncpu (view k)) P) looks w"
  using assms(1,3,4)
proof (induction rule: watched.induct)
  case boot
  then show ?case
    by (simp add: watch_inv_def start_watch_def NewWatchdogCollector_def alerts_of_def raised_def)
next
  case (cpu recs ex noted looks k P S w new gone off k' P' S')
  then show ?case by (intro watch_inv_cpu [OF _ watched_racing [OF cpu(1)] assms(2)]) auto
next
  case (consume recs ex noted looks k P S w k' xs e ys)
  then show ?case
    by (auto simp: watch_inv_def snapshot_means_def hit_total_def uprobe_total_def ioctl_total_def split: option.splits)
next
  case (entry recs ex noted looks k P S w p l now w')
  have "credited h pid recs noted n P < 2 ^ 64" for h n
    using entry.prems(2) due_stray_le [of h pid recs noted] by (simp add: credited_def)
  then show ?case using entry by (intro watch_inv_entry) auto
next
  case (act recs ex noted looks k P S w a w')
  then show ?case using other_act [OF act(3,2)] by (simp add: watch_inv_def alerts_of_def)
qed

end

section \<open>A bypassing process\<close>

text \<open>A process with \<open>n\<close> counted ioctls and seven uprobe hits, which goes on issuing ioctls.\<close>

definition busy_kernel :: "u64 \<Rightarrow> kstate" where
  "busy_kernel n = sample_kernel\<lparr>k_watchdog :=
     [(42, [\<lparr>ioctl_hit_count = n, uprobe_hit_count = 7, first_seen_time = 900\<rparr>, zero_watchdog])]\<rparr>"

lemma busy_reads:
  "read_ptr reference_kernel (busy_kernel n) 0x1000 = 0x2000"
  "read_ptr reference_kernel (busy_kernel n) 0x2000 = 0x3000"
  "read_ptr reference_kernel (busy_kernel n) 0x3000 = 0x4000"
  "read_ptr reference_kernel (busy_kernel n) 0x4000 = 0x5000"
  "read_ptr reference_kernel (busy_kernel n) 0x5000 = 0x6000"
  "read_dev reference_kernel (busy_kernel n) 0x6000 = mkdev 195 0"
  by (simp_all add: busy_kernel_def reference_kernel_def sample_kernel_def
      probe_read_def sample_memory_words u64_at_def u32_at_def bslice_def mkdev_def)

lemma busy_calls:
  "get_current_pid_tgid reference_kernel (busy_kernel n) = 42 * 2 ^ 32 + 43"
  "ktime_get_ns reference_kernel (busy_kernel n) = (1000, busy_kernel n)"
  "get_current_task reference_kernel (busy_kernel n) = 0x1000"
  by (simp_all add: busy_kernel_def reference_kernel_def sample_kernel_def)

lemma busy_device: "on_compute_device reference_kernel sample_offsets (busy_kernel n) 0"
  by (simp add: on_compute_device_def fd_device_def sample_offsets_def busy_calls busy_reads compute_device_def mkdev_def)

lemma busy_view:
  "ref_view (busy_kernel n) = (ref_view sample_kernel)\<lparr>v_watchdog :=
     [42 \<mapsto> [\<lparr>ioctl_hit_count = n, uprobe_hit_count = 7, first_seen_time = 900\<rparr>, zero_watchdog]]\<rparr>"
  by (simp add: ref_view_def busy_kernel_def sample_kernel_def)

lemma busy_sys_inv: "sys_inv (ref_view (busy_kernel n))"
proof -
  have "stamped 1000 [\<lparr>ioctl_hit_count = n, uprobe_hit_count = 7, first_seen_time = 900\<rparr>, zero_watchdog]"
    unfolding stamped_def by (rule exI [of _ 0]) (auto simp: zero_watchdog_def intro: exI [of _ "900 :: u64"])
  then show ?thesis by (simp add: sys_inv_def busy_view sample_view)
qed

lemma busy_inv: "ref_inv (busy_kernel n)"
  by (simp add: ref_inv_def busy_kernel_def sample_kernel_def)

lemma busy_micro:
  "micro reference_kernel sample_offsets (Invoked (Ioctl 0)) (busy_kernel n) = (IoctlWalk 42 0, busy_kernel n)"
  "micro reference_kernel sample_offsets (IoctlWalk 42 0) (busy_kernel n) = (CountLookup 42 IOCTL_HIT, busy_kernel n)"
  "micro reference_kernel R (CountLookup 42 IOCTL_HIT) (busy_kernel n) = (CountAdd IOCTL_HIT (42, 0), busy_kernel n)"
  "micro reference_kernel R (CountAdd IOCTL_HIT (42, 0)) (busy_kernel n) = (Finished 0, busy_kernel (n + 1))"
  by (simp_all add: busy_calls ck.ioctl_walk_cases busy_device)
    (simp_all add: reference_kernel_def busy_kernel_def sample_kernel_def ref_watchdog_modify_def UPROBE_HIT_def IOCTL_HIT_def)

text \<open>An ioctl on the compute device, from the entry of its program to the end.\<close>

lemma busy_once:
  "cpu_run reference_kernel sample_offsets ref_inv ref_view (busy_kernel n) Map.empty [] {} [Issued 42] (busy_kernel (n + 1)) Map.empty"
proof -
  let ?run = "cpu_run reference_kernel sample_offsets ref_inv ref_view (busy_kernel n) Map.empty [] {}"
  let ?t = "42 * 2 ^ 32 + 43 :: u64"
  have v: "v_cpu (ref_view (busy_kernel m)) = 0" "v_pid_tgid (ref_view (busy_kernel m)) = ?t"
    "v_ring (ref_view (busy_kernel m)) = []" for m
    by (simp_all add: busy_view sample_view)
  have "?run [] (busy_kernel n) Map.empty" by (rule cpu_run.none)
  from cpu_run.more [OF this cpu_step.fire, of "Ioctl 0"]
  have "?run [] (busy_kernel n) [0 \<mapsto> (?t, Invoked (Ioctl 0))]" by (simp add: v notes_of_def)
  from cpu_run.more [OF this cpu_step.step [OF _ _ busy_micro(1)]]
  have "?run [] (busy_kernel n) [0 \<mapsto> (?t, IoctlWalk 42 0)]" by (simp add: v notes_of_def)
  from cpu_run.more [OF this cpu_step.step [OF _ _ busy_micro(2)]]
  have "?run [Issued 42] (busy_kernel n) [0 \<mapsto> (?t, CountLookup 42 IOCTL_HIT)]"
    by (simp add: v notes_of_def step_notes_def busy_device)
  from cpu_run.more [OF this cpu_step.step [OF _ _ busy_micro(3)]]
  have "?run [Issued 42] (busy_kernel n) [0 \<mapsto> (?t, CountAdd IOCTL_HIT (42, 0))]" by (simp add: v notes_of_def)
  from cpu_run.more [OF this cpu_step.step [OF _ _ busy_micro(4)]]
  have "?run [Issued 42] (busy_kernel (n + 1)) [0 \<mapsto> (?t, Finished 0)]" by (simp add: v notes_of_def)
  from cpu_run.more [OF this cpu_step.leave, of 0] show ?thesis by (simp add: v notes_of_def)
qed

lemma busy_run:
  "cpu_run reference_kernel sample_offsets ref_inv ref_view (busy_kernel n) Map.empty [] {} (replicate k (Issued 42))
    (busy_kernel (n + of_nat k)) Map.empty"
proof (induction k)
  case 0
  show ?case by (simp add: cpu_run.none)
next
  case (Suc k)
  from cpu_run_trans [OF Suc busy_once] show ?case by (simp add: ac_simps flip: replicate_append_same)
qed

section \<open>Properties\<close>

text \<open>
  C5: The watchdog end to end: in every execution in which the programs of all CPUs, the scheduler, exiting threads and
  the watchdog's goroutines interleave, for a process none of whose threads exits, there are exactly as many alerts
  (logged, queued or blocked) as pairs of consecutive comparisons of it between which it was credited with at least 50
  ioctl hits and no uprobe hit: where the ioctl hits it is credited with are its ioctls on a compute device, the uprobe
  hits the records submitted for it, both with the hits that exits of other processes led astray to it and without those
  still to be counted or dropped.
\<close>

lemma alerts_are_bypasses:
  assumes "bpf_concurrent H kinv view" and "watched H R kinv view k0 recs ex noted looks k P S w"
    and "sys_inv (view k0)" and "pid \<notin> ex" and "length recs + length noted < 2 ^ 64"
  shows "alerts_of pid w = bypasses (looks_at pid looks)"
  using bpf_concurrent.watched_inv [OF assms] by (simp add: watch_inv_def)

text \<open>Sixty ioctls between two polls, and no driver call: one alert.\<close>

lemma alerts_are_bypasses_witness:
  "\<exists>looks w. watched reference_kernel sample_offsets ref_inv ref_view (busy_kernel 60) [] {} (replicate 60 (Issued 42)) looks
      (busy_kernel 120) Map.empty {} w \<and>
     looks_at 42 looks = [(0, 0), (60, 0)] \<and> alerts_of 42 w = 1"
proof -
  let ?W = "\<lambda>noted looks k. watched reference_kernel sample_offsets ref_inv ref_view (busy_kernel 60) [] {} noted looks k Map.empty {}"
  let ?l = "\<lambda>n. [\<lparr>ioctl_hit_count = n, uprobe_hit_count = 7, first_seen_time = 900\<rparr>, zero_watchdog]"
  let ?n = "replicate 60 (Issued 42)"
  have l: "v_watchdog (ref_view (busy_kernel n)) 42 = Some (?l n)" for n by (simp add: busy_view)
  have el: "compared 4000000000 (map from_kernel (?l 60))" "compared 9000000000 (map from_kernel (?l 120))"
    by (simp_all add: eligible_iff ioctl_sum_def first_stamp_def from_kernel_def zero_watchdog_def)
  have ex: "cpu_run reference_kernel sample_offsets ref_inv ref_view (busy_kernel 60) Map.empty [] {} ?n (busy_kernel 120) Map.empty"
    using busy_run [of 60 60] by simp
  have c: "count_list (replicate m x) y = (if x = y then m else 0)" for m and x y :: notice by (induction m) auto
  have credit: "credited h 42 [] (replicate m (Issued 42)) n Map.empty = (if h = UPROBE_HIT then 0 else m)" for h m n
    by (simp add: credited_def due_def strayed_def lost_def owed_hits_def c)
  have none: "credited h 42 [] [] n Map.empty = 0" for h n by (simp add: credited_def)
  obtain w1 where w1: "watch_act (PollStart 4000000000) start_watch = Some w1" "watch_pc w1 = Polling 4000000000"
    "snapshots (watchdog w1) = Map.empty" by (simp add: start_watch_def NewWatchdogCollector_def)
  obtain w2 where w2: "watch_act (PollEntry 42 (map from_kernel (?l 60))) w1 = Some w2" "watch_pc w2 = Polling 4000000000"
    by (simp add: w1 poll_entry_eq el del: list.map)
  obtain w3 where w3: "watch_act PollEnd w2 = Some w3" "watch_pc w3 = WatchSelect" by (simp add: w2)
  obtain w4 where w4: "watch_act (PollStart 9000000000) w3 = Some w4" "watch_pc w4 = Polling 9000000000"
    by (simp add: w3)
  obtain w5 where w5: "watch_act (PollEntry 42 (map from_kernel (?l 120))) w4 = Some w5"
    by (simp add: w4 case_prod_unfold Let_def del: list.map)
  have "?W [] [] (busy_kernel 60) start_watch" by (rule watched.boot) (rule busy_inv)
  from watched.act [OF this _ w1(1)] have "?W [] [] (busy_kernel 60) w1" by simp
  from watched.entry [OF this l _ w2(1)] have "?W [] [(42, 0, 0)] (busy_kernel 60) w2" by (simp add: w1 el none del: list.map)
  from watched.act [OF this _ w3(1)] have "?W [] [(42, 0, 0)] (busy_kernel 60) w3" by simp
  from watched.act [OF this _ w4(1)] have "?W [] [(42, 0, 0)] (busy_kernel 60) w4" by simp
  from watched_run [OF ex this] have "?W ?n [(42, 0, 0)] (busy_kernel 120) w4" by simp
  from watched.entry [OF this l _ w5] have W: "?W ?n [(42, 0, 0), (42, 60, 0)] (busy_kernel 120) w5"
    by (simp add: w4 el credit IOCTL_HIT_def UPROBE_HIT_def del: list.map)
  moreover have "looks_at 42 [(42, 0, 0), (42, 60, 0)] = [(0, 0), (60, 0)]" by (simp add: looks_at_def)
  ultimately show ?thesis using alerts_are_bypasses [OF ck.bpf_concurrent_axioms W busy_sys_inv, of 42] by auto
qed

end
