(* ===== verification/Aggregator_Liveness.thy ===== *)
theory Aggregator_Liveness
  imports Aggregator
begin

text \<open>
  When the aggregator reports: an event is pending no longer than until the first tick that finds its
  window over, in any run of arrivals and ticks. Times are compared on the monotonic clock, as \<open>After\<close> does.
\<close>

section \<open>Every event is reported in time\<close>

fun op_time :: "(gotime, gotime \<times> u32 list) collector_op \<Rightarrow> int" where
  "op_time (Arrive t ev) = mono t"
| "op_time (Tick f) = mono (fst f)"

text \<open>All windows were opened by \<open>t\<close>.\<close>

definition opened_by :: "int \<Rightarrow> GPUAggregator \<Rightarrow> bool" where
  "opened_by t ga \<longleftrightarrow> (\<forall>p w. windows ga p = Some w \<longrightarrow> mono (WindowStart w) \<le> t)"

text \<open>A window of \<open>p\<close> opened after \<open>t\<close> has counted at most \<open>n\<close> events.\<close>

definition late_count :: "int \<Rightarrow> u32 \<Rightarrow> nat \<Rightarrow> GPUAggregator \<Rightarrow> bool" where
  "late_count t p n ga \<longleftrightarrow> (\<forall>w. windows ga p = Some w \<longrightarrow> t < mono (WindowStart w) \<longrightarrow> unat (window_count w) \<le> n)"

lemma absorb_start [simp]: "WindowStart (absorb ev w) = WindowStart w"
  by (cases ev) (simp_all add: on_defs Let_def)

lemma new_window_start [simp]: "WindowStart (new_window p c t t') = t"
  by (simp add: new_window_def)

lemma opened_by_Update: "opened_by t ga \<Longrightarrow> mono now \<le> t \<Longrightarrow> opened_by t (ga_Update b2s now ev ga)"
  by (auto simp: opened_by_def ga_Update_alt with_window_windows split: option.splits if_splits)

lemma ga_Flush_windows:
  "windows (snd (ga_Flush f ga)) = snd (flush_loop (fst f) (snd f) (windows ga))"
  by (simp add: ga_Flush_def case_prod_unfold Let_def)

lemma flush_loop_sub: "snd (flush_loop now order m) p = Some w \<Longrightarrow> m p = Some w"
  by (induction now order m rule: flush_loop.induct)
    (auto simp: case_prod_unfold Let_def split: option.splits if_splits)

lemma opened_by_Flush: "opened_by t ga \<Longrightarrow> opened_by t (snd (ga_Flush f ga))"
  by (auto simp: opened_by_def ga_Flush_windows dest: flush_loop_sub)

lemma late_count_Flush: "late_count t p n ga \<Longrightarrow> late_count t p n (snd (ga_Flush f ga))"
  by (auto simp: late_count_def ga_Flush_windows dest: flush_loop_sub)

lemma unat_Suc_le: "unat (c + 1 :: u64) \<le> unat c + 1"
  using unat_word_ariths(1) [of c 1] by (simp add: mod_less_eq_dividend order_trans [OF mod_less_eq_dividend])

lemma late_count_Update:
  "late_count t p n ga \<Longrightarrow> late_count t p ((if event_pid ev = Some p then 1 else 0) + n) (ga_Update b2s now ev ga)"
  by (auto simp: late_count_def ga_Update_alt with_window_windows absorb_count new_window_count
      split: option.splits if_splits intro: order_trans [OF unat_Suc_le])

abbreviation ga_run where "ga_run b2s ops ga \<equiv> snd (collector_run (ga_Update b2s) ga_Flush ops ga)"

lemma ga_run_simps:
  "ga_run b2s (Arrive now ev # ops) ga = ga_run b2s ops (ga_Update b2s now ev ga)"
  "ga_run b2s (Tick f # ops) ga = ga_run b2s ops (snd (ga_Flush f ga))"
  by (simp_all add: Let_def case_prod_unfold)

lemma ga_run_append: "ga_run b2s (ops @ ops') ga = ga_run b2s ops' (ga_run b2s ops ga)"
  by (simp add: collector_run_append Let_def case_prod_unfold)

lemma opened_by_run:
  "opened_by t ga \<Longrightarrow> \<forall>opn \<in> set ops. op_time opn \<le> t \<Longrightarrow> opened_by t (ga_run b2s ops ga)"
proof (induction ops arbitrary: ga)
  case (Cons opn ops)
  then show ?case by (cases opn) (auto simp: ga_run_simps opened_by_Update opened_by_Flush simp del: collector_run.simps)
qed simp

lemma late_count_run: "late_count t p n ga \<Longrightarrow> late_count t p (n + arrivals p ops) (ga_run b2s ops ga)"
proof (induction ops arbitrary: ga n)
  case (Cons opn ops)
  show ?case
  proof (cases opn)
    case (Arrive now ev)
    with Cons.IH [OF late_count_Update [OF Cons.prems]] show ?thesis
      by (simp add: ga_run_simps algebra_simps del: collector_run.simps)
  next
    case (Tick f)
    with Cons.IH [OF late_count_Flush [OF Cons.prems]] show ?thesis
      by (simp add: ga_run_simps del: collector_run.simps)
  qed
qed simp

lemma ga_run_dur [simp]: "windowDuration (ga_run b2s ops ga) = windowDuration ga"
proof (induction ops arbitrary: ga)
  case (Cons opn ops)
  then show ?case by (cases opn) (simp_all add: ga_run_simps del: collector_run.simps)
qed simp

lemma reported_in_time:
  assumes fits: "ticks_fit (ga_Update b2s) ga_Flush (\<lambda>(now, order) ga. iterates order (windows ga))
      (ops @ ops' @ [Tick (now, order)]) (NewGPUAggregator now0 dur)"
    and before: "\<forall>opn \<in> set ops. op_time opn \<le> t" and late: "t + dur < mono now"
  shows "unat (ga_pending p (ga_run b2s (ops @ ops' @ [Tick (now, order)]) (NewGPUAggregator now0 dur)))
    \<le> arrivals p ops'"
proof -
  let ?ga0 = "NewGPUAggregator now0 dur"
  define ga1 where "ga1 = ga_run b2s ops ?ga0"
  define ga2 where "ga2 = ga_run b2s ops' ga1"
  have fin: "ga_run b2s (ops @ ops' @ [Tick (now, order)]) ?ga0 = snd (ga_Flush (now, order) ga2)"
    by (simp add: ga_run_append ga1_def ga2_def Let_def case_prod_unfold)
  have d: "windowDuration ga2 = dur" by (simp add: ga1_def ga2_def NewGPUAggregator_def)
  have f1: "ticks_fit (ga_Update b2s) ga_Flush (\<lambda>(now, order) ga. iterates order (windows ga)) (ops @ ops') ?ga0"
    and it: "iterates order (windows ga2)"
    using fits by (simp_all add: ticks_fit_append ga1_def ga2_def)
  have "ga_inv ?ga0" by (simp add: ga_inv_def NewGPUAggregator_def)
  from agg.run_inv [OF this f1] have inv: "ga_inv ga2" by (simp add: ga1_def ga2_def ga_run_append)
  have "opened_by t ga1" unfolding ga1_def using before
    by (intro opened_by_run) (simp_all add: opened_by_def NewGPUAggregator_def)
  then have "late_count t p 0 ga1" by (fastforce simp: opened_by_def late_count_def)
  from late_count_run [OF this, of ops' b2s] have late2: "late_count t p (arrivals p ops') ga2"
    by (simp add: ga2_def)
  have "unat (window_count w) \<le> arrivals p ops'" if w: "windows (snd (ga_Flush (now, order) ga2)) p = Some w" for w
  proof -
    have "\<not> expired now (windows ga2) p" and w2: "windows ga2 p = Some w"
      using w by (auto simp: ga_Flush_eq [OF it] Let_def split: if_splits)
    then have "mono now \<le> mono (WindowEnd w)" by (simp add: expired_def After_def not_less)
    moreover have "WindowEnd w = Add (WindowStart w) dur" using inv w2 d by (auto simp: ga_inv_def window_ok_def)
    ultimately show ?thesis using late late2 w2 by (auto simp: late_count_def)
  qed
  then show ?thesis unfolding fin by (auto simp: ga_pending_def split: option.splits)
qed

text \<open>
  C18: The aggregator reports in time: in a run over any arrivals and ticks, once a tick finds the clock more
  than a window's duration past \<open>t\<close>, no event that arrived by \<open>t\<close> is pending any more: what is pending of a
  process are at most the events that arrived after, and all others are in the reports.
\<close>

lemma aggregator_reports_in_time:
  assumes "ticks_fit (ga_Update b2s) ga_Flush (\<lambda>(now, order) ga. iterates order (windows ga))
      (ops @ ops' @ [Tick (now, order)]) (NewGPUAggregator now0 dur)"
    and "\<forall>opn \<in> set ops. op_time opn \<le> t" and "t + dur < mono now"
  shows "let r = collector_run (ga_Update b2s) ga_Flush (ops @ ops' @ [Tick (now, order)]) (NewGPUAggregator now0 dur)
    in unat (ga_pending p (snd r)) \<le> arrivals p ops' \<and>
      sum_list (map (\<lambda>b. events_for p (gb_batch b)) (fst r)) + ga_pending p (snd r) =
        of_nat (arrivals p ops + arrivals p ops')"
proof -
  have inv: "ga_inv (NewGPUAggregator now0 dur)" "ga_pending p (NewGPUAggregator now0 dur) = 0"
    by (simp_all add: ga_inv_def ga_pending_def NewGPUAggregator_def)
  have "arrivals p (ops @ ops' @ [Tick (now, order)]) = arrivals p ops + arrivals p ops'"
    by (simp add: arrivals_arrived)
  with agg.run_conserves [OF inv(1) assms(1), of p] inv(2) reported_in_time [OF assms, of p]
  show ?thesis by (simp add: Let_def)
qed

lemma aggregator_reports_in_time_witness:
  "(let r = collector_run (ga_Update (\<lambda>c. c)) ga_Flush ([Arrive 1 sample_copy] @ [] @ [Tick (12, [42])])
        (NewGPUAggregator 0 10)
    in ga_pending 42 (snd r) = 0 \<and> sum_list (map (\<lambda>b. events_for 42 (gb_batch b)) (fst r)) = 1)"
proof -
  have "ticks_fit (ga_Update (\<lambda>c. c)) ga_Flush (\<lambda>(now, order) ga. iterates order (windows ga))
      ([Arrive 1 sample_copy] @ [] @ [Tick (12, [42])]) (NewGPUAggregator 0 10)"
    by (simp add: sample_copy_def ga_Update_alt with_window_windows NewGPUAggregator_def iterates_def)
  then have "let r = collector_run (ga_Update (\<lambda>c. c)) ga_Flush ([Arrive 1 sample_copy] @ [] @ [Tick (12, [42])])
        (NewGPUAggregator 0 10)
    in unat (ga_pending 42 (snd r)) \<le> arrivals 42 ([] :: (gotime, gotime \<times> u32 list) collector_op list) \<and>
      sum_list (map (\<lambda>b. events_for 42 (gb_batch b)) (fst r)) + ga_pending 42 (snd r) =
        of_nat (arrivals 42 [Arrive 1 sample_copy :: (gotime, gotime \<times> u32 list) collector_op] +
          arrivals 42 ([] :: (gotime, gotime \<times> u32 list) collector_op list))"
    by (rule aggregator_reports_in_time [where t = 1]) simp_all
  moreover have "arrivals 42 [Arrive 1 sample_copy :: (gotime, gotime \<times> u32 list) collector_op] = 1"
    by (simp add: sample_copy_def)
  ultimately show ?thesis unfolding Let_def by (auto simp: unat_eq_0 simp del: collector_run.simps append.simps)
qed


end
