(* ===== verification/Spec2Isabelle.thy ===== *)
theory Spec2Isabelle
  imports Many_Loaders Watchdog_System Aggregator_Liveness
begin

text \<open>
  InfraSight\_gpu: an eBPF monitor of CUDA programs, modelled from the kernel probes to the batches sent to
  the server.

  \<^bold>\<open>The program.\<close> \<open>bpf/cuda/gpuprint/gpuprint.bpf.c\<close> holds twelve BPF programs: uprobes on the CUDA driver
  library (kernel launch, allocation, the four copies, stream and context synchronisation), a tracepoint on
  \<open>ioctl\<close> and one on process exit. They write records to a ring buffer and keep hit counters in a per-CPU map.
  The Go agent attaches the programs (\<open>internal/loaders\<close>), decodes the records, and hands every event to two
  collectors: the aggregator (\<open>internal/collector/aggregator\<close>: one window of statistics per process) and the
  time-series collector (\<open>internal/collector/timeserie\<close>: one token per event). Their batches go to a gRPC
  server (\<open>internal/grpc\<close>). A watchdog (\<open>watchdog_collector.go\<close>) polls the per-CPU map and reports processes
  that issue ioctls on NVIDIA devices without calling the probed library.

  \<^bold>\<open>Theories.\<close>
  \<^item> Prelude: machine words, little-endian integers, byte buffers and generic lemmas.
  \<^item> C\_Layout: C types as data with sizes, alignments, bit-fields and member offsets, and the facts that
    members are aligned, disjoint, ordered and inside the object.
  \<^item> Event\_Types: \<open>common.h\<close> and the structs of \<open>gpuprint.bpf.c\<close>.
  \<^item> Kernel\_Files, Kernel\_Task, Kernel\_Objects, Kernel\_Bpf, Kernel\_Attach: the types of \<open>vmlinux.h\<close> the
    programs, their maps and their attachment depend on, member for member; Kernel\_Layout: typed resolution of the \<open>BPF_CORE_READ\<close> chains, the argument
    registers of the probes, the declarations of the three maps.
  \<^item> Bpf\_Runtime: the BPF helpers as a parameter, their documented contract as the locale \<open>bpf_runtime\<close> over
    the part of the kernel the program observes, and a reference kernel that meets it.
  \<^item> Gpu\_Probes, Watchdog\_Probe: every program of \<open>gpuprint.bpf.c\<close>, under its C name, with its effect.
  \<^item> Go\_Events: the structs of \<open>gpuprint_x86_bpfel.go\<close>, their decoding, the dispatch of the read loop.
  \<^item> Wire\_Format: what a probe writes is what the loader decodes.
  \<^item> Probe\_System: the kernel side as a transition system (probes, scheduling, exits, the consumer),
    invariants of its reachable states, and the accounting of hits against records; Probe\_Steps: the same
    programs cut at every access to shared kernel state; Probe\_Interleaving: several CPUs taking those steps in
    any order; Probe\_Races: also with thread exits that race with the counting of hits.
  \<^item> Go\_Float: \<open>float64\<close> as rationals rounded to 53 bits, ties to even; error bounds of running means.
  \<^item> Go\_Time: the times of Go's package \<open>time\<close>, a wall and a monotonic reading each, with \<open>Add\<close>, \<open>After\<close>,
    \<open>Sub\<close> and \<open>UnixNano\<close>.
  \<^item> Collector: the protobuf messages and the interface of the collectors (locale \<open>gpu_collector\<close>, an instance
    of \<open>measured_collector\<close>, which keeps any additive measure of the events); Timeserie and Aggregator implement it.
  \<^item> Watchdog\_Collector: the poll; Watchdog\_Detection: the poll against the probes' counters.
  \<^item> Loader: the attach tables, construction and release, the read loop with its collectors, the factory;
    Driver\_Calls: what the collectors make of each call of the driver, and what becomes of one on a full ring buffer.
  \<^item> Config: \<open>load_config.go\<close>; Client: the send loop of \<open>grpc_client.go\<close>, the fan-in of the channels, the loaders
    of \<open>main.go\<close>; Startup: the tickers of the runners and \<open>main\<close> from its configuration to its deferred calls.
  \<^item> Agent: all goroutines of \<open>gpuprint_tracer_loader.go\<close>, the two \<open>runner.go\<close> and \<open>grpc_client.go\<close> with their
    channels as one machine; Agent\_Progress: its bound on internal actions, delivery, accounting and shutdown;
    Whole\_System: the machine joined to the kernel side of Probe\_System at the ring buffer; System\_Content: the
    content of the time series in that system; Concurrent\_System: the same joined to Probe\_Interleaving, with no
    step larger than an access to shared state; System\_Usage: the content of the windows there;
    Deployment: both contents for the loaders \<open>main\<close> creates from a configuration; Many\_Loaders: all those loaders,
    each with kernel objects of its own, beside one client, in the executions of Probe\_Races.
  \<^item> Watchdog\_Runner: the polling and logging goroutines with the alert channel between them; Watchdog\_System:
    these goroutines beside the interleaved programs that fill the map they poll.
  \<^item> Aggregator\_Liveness: when the aggregator reports an event.

  \<^bold>\<open>State and operations.\<close> A BPF program is a function of the helpers, its arguments and the
  kernel state \<open>'k\<close>; the kernel state is abstract and seen through \<open>kview\<close> (current
  thread, clock, CPU, the three maps). A pointer into the ring buffer is the byte list of the record. The mutex of
  each collector makes its operations atomic, so an operation is a function on the collector's record. Clock
  readings, the iteration order of Go maps, and the results of library calls are arguments. A probe is first a
  function that runs in one piece. Probe\_Steps cuts it where another CPU can observe or change what it uses
  (\<open>micro\<close>, one helper call on shared state a step), proves that the steps without interruption are
  the function, and Probe\_Interleaving runs them on any number of CPUs, one program to a thread at a time: every
  execution of whole programs is one of those, and hits match records there too. Concurrent\_System builds
  on these executions, in which no thread of a process exits while another CPU holds a pointer into the watchdog entry of
  that process (between the lookup and the addition of \<open>add_to_counter\<close>). Probe\_Races, Many\_Loaders and
  Watchdog\_System do without that: such an exit makes the pointers stale, and an addition through a stale pointer is
  lost or lands in the entry of any process. To account for hits independently of the counters, the executions log
  notices beside the records: \<open>Issued\<close> when the ioctl probe has reached a compute device for a process, \<open>Lost\<close> when a
  program drops a hit because the map holds no entry to count it in, \<open>Stray\<close> when an addition through a stale pointer lands
  in the entry of another process. Two things are assumed throughout: the reader may take submitted records in any
  order, which covers the ring buffer's; and the poll copies the values of an entry in one piece. Loaders share no
  kernel object (each has maps and a ring buffer of its own), so Many\_Loaders interleaves their programs without any
  order between them, which covers the order in which the kernel runs the probes attached to one symbol. The goroutines
  interleave freely: a machine is a function from an action and a state to the next state where the action is
  possible (\<open>act\<close>, \<open>watch_act\<close>), one action per point where a goroutine can block or
  another can observe it, and an execution (\<open>step_runs\<close> of Prelude) is a list of actions. A ticker
  may fire whenever its goroutine waits for it.

  \<^bold>\<open>What the lemmas show.\<close> For each probe, the record and the counter it changes, also when a
  helper fails; that each record decodes in Go to the values the probe saw; that in every reachable state all
  unread records are good and hits match records; that each collector reports every event once, that the time
  series is the exact sequence of the events, and that each window is a function of the list of the events it
  absorbed, with bounds for its rounded averages, ratios and rates; exactly when the watchdog raises an alert; and
  the behaviour of attach, configuration, send loop and start-up on their error paths. For the running agent: the
  events of every process are conserved from the probe to the server across all goroutines; each collector's
  batches are handed to \<open>SendGpuBatch\<close> in order, and the server has accepted exactly those whose call succeeded; the
  goroutines do a bounded amount of work per input and, until cancellation, bring every flushed batch to that call; the
  tokens handed over for a process are the process's activities in the order of their records, and the exact statistics
  of the windows handed over add up to them; the watchdog
  raises one alert for each pair of consecutive comparisons between which the process was credited with 50 ioctls on a
  compute device and no driver call; the
  aggregator reports an event with the first tick after its window; and what a full ring buffer, an exit that races with
  a counter, a shutdown or an unusable window does. The conservation and content results hold for all loaders of the
  agent together.

  \<^bold>\<open>Bounds.\<close> Counters are 64-bit words and wrap. The history refinement of the aggregator holds for fewer than
  \<open>2 ^ 53\<close> events in a window, below which \<open>float64\<close> counts exactly; at a million events a second that is 285
  years. A program takes at most ten steps. There is no other fuel: loops over data are bounded by their input lists, and the endless loops of the
  goroutines are the executions of the machines; \<open>work\<close> bounds the actions left before the next input: a tick
  adds at most four, a read one more than the number of collectors. Channel capacities are the code's, 500
  batches and 10 alerts.

  \<^bold>\<open>Not modelled.\<close> The ebpf, grpc, zap and protobuf libraries, generated code other than the
  event structs (\<open>internal/grpc/pb\<close>, the loading code of \<open>gpuprint_x86_bpfel.go\<close>),
  logging, the test script, and the types of the generated \<open>vmlinux.h\<close> no program, map or
  attachment of the agent reaches. A signal appears as the cancellation of the context it causes. The fairness
  of Go's scheduler and of \<open>select\<close> is not assumed: delivery is stated for every execution carried
  to its end. A batch counts as sent once it is handed to \<open>SendGpuBatch\<close>, whatever the call returns, since the code
  does not retry; the log of the calls (\<open>calls\<close> of Agent) keeps the results, and \<open>accepted\<close> are the batches whose
  call succeeded. Go's dropping of the monotonic reading when a sum leaves an \<open>int64\<close> is not modelled. \<open>unix.ByteSliceToString\<close> is a parameter. The fused multiply-add a Go
  compiler may emit for \<open>x * y + z\<close> on some targets is not considered; the agent is built for
  amd64, where it is not emitted.
\<close>

section \<open>Properties across components\<close>

text \<open>
  From the driver call to the collectors: a host-to-device copy of \<open>n\<close> bytes whose probe gets a slot
  adds \<open>n\<close> to the host-to-device bytes and one to the copy count of the calling process's window (opening
  the window if there is none), and appends one copy token of value \<open>n\<close> to its time series.
\<close>

lemma copy_reaches_collectors:
  assumes "bpf_runtime H kinv view" and "kinv s" and "handle_cuMemcpy_htod H d p n s = (r, s')"
    and "ringbuf_reserve H (sizeof gpu_memcpy_event_t) s = Some m"
  shows "let pid = ucast (drop_bit 32 (v_pid_tgid (view s))) in
    \<exists>e ga' tc' w. submitted (view s) pid e (view s') \<and>
      loader_loop b2s [(ReadRecord e, [t1, t2])] [Fingerprint ga, Series tc] = [Fingerprint ga', Series tc'] \<and>
      windows ga' pid = Some w \<and>
      (case windows ga pid of
         Some w0 \<Rightarrow> HTODBytes w = HTODBytes w0 + n \<and> DTOHBytes w = DTOHBytes w0 \<and>
           MemcpyCount w = MemcpyCount w0 + 1 \<and> WindowEnd w = WindowEnd w0
       | None \<Rightarrow> HTODBytes w = n \<and> DTOHBytes w = 0 \<and> MemcpyCount w = 1 \<and>
           WindowStart w = t1 \<and> WindowEnd w = Add t1 (windowDuration ga)) \<and>
      buffered tc' pid = buffered tc pid @
        [\<lparr>tok_timestamp = UnixNano t2, tok_event_type = types_EVENT_GPU_MEMCPY, tok_value = f64_of n,
          tok_dir = types_DIR_HTOD\<rparr>]"
proof -
  let ?pid = "ucast (drop_bit 32 (v_pid_tgid (view s))) :: u32"
  obtain e c where e: "memcpy_record ?pid c n DIR_HTOD e" "submitted (view s) ?pid e (view s')"
    using bpf_runtime.handle_cuMemcpy_htod_spec [OF assms(1-3)] assms(4) by auto
  obtain ev where ev: "handle_record e = Dispatch (MemcpyEvent ev)" "Pid ev = ?pid" "CopySize ev = n"
    "Kind ev = 0" using memcpy_decodes [OF e(1)] by (auto simp: DIR_HTOD_def)
  let ?ga = "ga_Update b2s t1 (MemcpyEvent ev) ga" and ?tc = "tc_Update b2s t2 (MemcpyEvent ev) tc"
  have loop: "loader_loop b2s [(ReadRecord e, [t1, t2])] [Fingerprint ga, Series tc] =
    [Fingerprint ?ga, Series ?tc]" by (simp add: ev(1) sendToCollectors_def)
  define w0 where "w0 = (case windows ga ?pid of Some w \<Rightarrow> w
    | None \<Rightarrow> new_window ?pid (b2s (Comm ev)) t1 (Add t1 (windowDuration ga)))"
  define w1 where "w1 = on_memcpy ev w0"
  have w: "windows ?ga ?pid = Some w1"
    by (simp add: ga_Update_alt with_window_windows ev(2) w0_def w1_def absorb_eqs)
  have b: "buffered ?tc ?pid = buffered tc ?pid @ [\<lparr>tok_timestamp = UnixNano t2, tok_event_type = types_EVENT_GPU_MEMCPY,
      tok_value = f64_of n, tok_dir = types_DIR_HTOD\<rparr>]"
    unfolding buffered_Update by (simp add: EventToToken_def ev Let_def types_consts)
  have acc: "HTODBytes w1 = HTODBytes w0 + n" "DTOHBytes w1 = DTOHBytes w0"
    "MemcpyCount w1 = MemcpyCount w0 + 1" "WindowEnd w1 = WindowEnd w0" "WindowStart w1 = WindowStart w0"
    by (simp_all add: w1_def on_memcpy_def Let_def ev types_consts)
  have fin: "case windows ga ?pid of
         Some w0 \<Rightarrow> HTODBytes w1 = HTODBytes w0 + n \<and> DTOHBytes w1 = DTOHBytes w0 \<and>
           MemcpyCount w1 = MemcpyCount w0 + 1 \<and> WindowEnd w1 = WindowEnd w0
       | None \<Rightarrow> HTODBytes w1 = n \<and> DTOHBytes w1 = 0 \<and> MemcpyCount w1 = 1 \<and>
           WindowStart w1 = t1 \<and> WindowEnd w1 = Add t1 (windowDuration ga)"
  proof (cases "windows ga ?pid")
    case None
    then have "w0 = new_window ?pid (b2s (Comm ev)) t1 (Add t1 (windowDuration ga))" by (simp add: w0_def)
    with None acc show ?thesis by (simp add: new_window_def)
  next
    case (Some w)
    then have "w0 = w" by (simp add: w0_def)
    with Some acc show ?thesis by simp
  qed
  show ?thesis unfolding Let_def using e loop w b fin by blast
qed

lemma copy_reaches_collectors_witness:
  "\<exists>e ga' tc' w. loader_loop (\<lambda>c. c) [(ReadRecord e, [5, 6])]
      [Fingerprint (NewGPUAggregator 0 10), Series (NewTimeSeriesCollector 5)] = [Fingerprint ga', Series tc'] \<and>
     windows ga' 42 = Some w \<and> HTODBytes w = 4096 \<and> WindowEnd w = 15 \<and>
     buffered tc' 42 = [\<lparr>tok_timestamp = 6, tok_event_type = 3, tok_value = f64_of 4096, tok_dir = 0\<rparr>]"
proof -
  obtain r s' where run: "handle_cuMemcpy_htod reference_kernel 1 2 4096 sample_kernel = (r, s')" by fastforce
  have res: "ringbuf_reserve reference_kernel (sizeof gpu_memcpy_event_t) sample_kernel =
    Some (replicate 176 0xAA, sample_kernel)" by (simp add: event_layout sample_reserve)
  from copy_reaches_collectors [OF rk.bpf_runtime_axioms sample_inv run res, of "\<lambda>c. c" 5 6
      "NewGPUAggregator 0 10" "NewTimeSeriesCollector 5"]
  show ?thesis
    by (simp add: sample_view Let_def NewGPUAggregator_def NewTimeSeriesCollector_def buffered_def types_consts)
      blast
qed

text \<open>
  C28: The aggregator averages a block count reduced to 32 bits: a launch record goes into the block average of its
  process's window as the total block count of the record modulo \<open>2 ^ 32\<close>, because the aggregator multiplies the
  32-bit dimensions in 32-bit arithmetic; the count the probe computed and the record carries is the 64-bit product.
\<close>

lemma blocks_truncated:
  assumes "launch_record pid c (gx, gy, gz) (blx, bly, blz) e"
  shows "\<exists>ev. handle_record e = Dispatch (KernelLaunchEvent ev) \<and> TotalBlocks ev = gx * gy * gz \<and>
    (\<exists>w. windows (ga_Update b2s now (KernelLaunchEvent ev) ga) pid = Some w \<and>
      AvgBlocksPerKernel w =
        (let blocks = of_nat (unat (gx * gy * gz) mod 2 ^ 32)
         in case windows ga pid of None \<Rightarrow> avg_expr 0 1 blocks
            | Some w0 \<Rightarrow> avg_expr (AvgBlocksPerKernel w0) (KernelLaunchCount w0 + 1) blocks))"
proof -
  obtain ev where ev: "handle_record e = Dispatch (KernelLaunchEvent ev)" "Pid ev = pid" "Gridx ev = ucast gx"
    "Gridy ev = ucast gy" "Gridz ev = ucast gz" "TotalBlocks ev = gx * gy * gz"
    using launch_decodes [OF assms] by blast
  have "Gridx ev * Gridy ev * Gridz ev = (ucast (gx * gy * gz) :: u32)"
    unfolding ev by (simp only: ucast_u32_mult)
  then have "launch_blocks ev = of_nat (unat (ucast (gx * gy * gz) :: u32))"
    unfolding launch_blocks_def by (simp only: of_nat_unat)
  then have "launch_blocks ev = of_nat (unat (gx * gy * gz) mod 2 ^ 32)" by (simp only: unat_ucast_u32)
  then have "AvgBlocksPerKernel (on_launch ev w) = avg_expr (AvgBlocksPerKernel w) (KernelLaunchCount w + 1)
      (of_nat (unat (gx * gy * gz) mod 2 ^ 32))" for w
    by (simp add: on_launch_def Let_def)
  then show ?thesis using ev(1,2,6)
    by (intro exI [of _ ev]) (simp add: ga_Update_alt with_window_windows absorb_eqs Let_def new_window_def
        split: option.splits)
qed

text \<open>A grid of \<open>2 ^ 32\<close> blocks counts as none.\<close>

lemma blocks_truncated_witness:
  "\<exists>e ev w. handle_record e = Dispatch (KernelLaunchEvent ev) \<and> TotalBlocks ev = 2 ^ 32 \<and>
     windows (ga_Update (\<lambda>c. c) 7 (KernelLaunchEvent ev) (NewGPUAggregator 0 10)) 1 = Some w \<and>
     AvgBlocksPerKernel w = 0"
proof -
  obtain e where e: "launch_record 1 (replicate 150 0) (2 ^ 16, 2 ^ 16, 1) (1, 1, 1) e"
    using launch_filled [of "replicate 208 0" "replicate 150 0" 1 "2 ^ 16" "2 ^ 16" 1 1 1 1] by auto
  have "avg_expr 0 1 0 = 0" by (simp add: avg_expr_def f64_div_def f64_add_def f64_mul_def f64_of_def)
  with blocks_truncated [OF e, of "\<lambda>c. c" 7 "NewGPUAggregator 0 10"] show ?thesis
    by (auto simp: NewGPUAggregator_def Let_def)
qed

end
